(* ===== verification/Go_Prelude.thy ===== *)
theory Go_Prelude
  imports Main "HOL-Library.Word"
begin

text \<open>
  What every component of the development shares: the outcome of a Go call (a value, a
  non-nil error, or a panic), programs that pass a state and may fail to return, a
  partial-correctness triple for them, and the pieces of Go's runtime and of the packages
  strconv and strings that the client uses (truncating division, decimal printing and
  parsing, \<open>Cut\<close>, \<open>TrimRight\<close>, \<open>ToLower\<close>, \<open>EqualFold\<close>).
  A Go string is a sequence of bytes, so \<open>string\<close> (a list of 8-bit characters) is
  its exact model.
\<close>

section \<open>Theorem collections\<close>

named_theorems outcome_simps \<open>evaluation of programs and their binds\<close>
named_theorems hoare_rules \<open>partial-correctness rules, one for each way to build a program\<close>

section \<open>Outcomes and programs\<close>

datatype ('e, 'a) outcome = Ok 'a | Err 'e | Panic string

type_synonym ('s, 'e, 'a) prog = "'s \<Rightarrow> (('e, 'a) outcome \<times> 's) option"

text \<open>
  \<open>None\<close> is a call that never returns.  \<open>bindP\<close> is the pattern
  \<open>x, err := f(); if err != nil { return ..., err }\<close>: an error (or a panic) of the first
  call ends the whole.
\<close>

definition returnP :: "'a \<Rightarrow> ('s, 'e, 'a) prog" where
  "returnP a s = Some (Ok a, s)"

definition raiseP :: "'e \<Rightarrow> ('s, 'e, 'a) prog" where
  "raiseP e s = Some (Err e, s)"

definition panicP :: "string \<Rightarrow> ('s, 'e, 'a) prog" where
  "panicP msg s = Some (Panic msg, s)"

definition modifyP :: "('s \<Rightarrow> 's) \<Rightarrow> ('s, 'e, unit) prog" where
  "modifyP f s = Some (Ok (), f s)"

definition getP :: "('s \<Rightarrow> 'a) \<Rightarrow> ('s, 'e, 'a) prog" where
  "getP f s = Some (Ok (f s), s)"

definition bindP :: "('s, 'e, 'a) prog \<Rightarrow> ('a \<Rightarrow> ('s, 'e, 'b) prog) \<Rightarrow> ('s, 'e, 'b) prog" where
  "bindP m f s =
     (case m s of
        None \<Rightarrow> None
      | Some (Ok a, s') \<Rightarrow> f a s'
      | Some (Err e, s') \<Rightarrow> Some (Err e, s')
      | Some (Panic msg, s') \<Rightarrow> Some (Panic msg, s'))"

definition liftP :: "('e, 'a) outcome \<Rightarrow> ('s, 'e, 'a) prog" where
  "liftP r s = Some (r, s)"

text \<open>An error that the caller looks at and goes on; and one that it wraps (\<open>%w\<close>) and returns.\<close>

definition tryP :: "('s, 'e, 'a) prog \<Rightarrow> ('s, 'e, 'e + 'a) prog" where
  "tryP m s =
     (case m s of
        None \<Rightarrow> None
      | Some (Ok a, s') \<Rightarrow> Some (Ok (Inr a), s')
      | Some (Err e, s') \<Rightarrow> Some (Ok (Inl e), s')
      | Some (Panic msg, s') \<Rightarrow> Some (Panic msg, s'))"

definition mapErrP :: "('e \<Rightarrow> 'f) \<Rightarrow> ('s, 'e, 'a) prog \<Rightarrow> ('s, 'f, 'a) prog" where
  "mapErrP f m s =
     (case m s of
        None \<Rightarrow> None
      | Some (Ok a, s') \<Rightarrow> Some (Ok a, s')
      | Some (Err e, s') \<Rightarrow> Some (Err (f e), s')
      | Some (Panic msg, s') \<Rightarrow> Some (Panic msg, s'))"

lemmas prog_defs = returnP_def raiseP_def panicP_def modifyP_def getP_def liftP_def bindP_def
  tryP_def mapErrP_def

text \<open>The same for calls that touch no state.\<close>

definition bindO :: "('e, 'a) outcome \<Rightarrow> ('a \<Rightarrow> ('e, 'b) outcome) \<Rightarrow> ('e, 'b) outcome" where
  "bindO m f = (case m of Ok a \<Rightarrow> f a | Err e \<Rightarrow> Err e | Panic msg \<Rightarrow> Panic msg)"

lemma bindO_simps [outcome_simps, simp]:
  "bindO (Ok a) f = f a" "bindO (Err e) f = Err e" "bindO (Panic msg) f = Panic msg"
  by (simp_all add: bindO_def)

lemma bindO_eq_Ok: "bindO m f = Ok b \<longleftrightarrow> (\<exists>a. m = Ok a \<and> f a = Ok b)"
  by (cases m) simp_all

lemma bindP_lift [outcome_simps, simp]: "bindP (liftP (Ok a)) f = f a"
  "bindP (liftP (Err e)) f = raiseP e" "bindP (liftP (Panic msg)) f = panicP msg"
  by (simp_all add: fun_eq_iff prog_defs)

lemma bindP_return [outcome_simps, simp]: "bindP (returnP a) f = f a"
  by (simp add: bindP_def returnP_def fun_eq_iff)

lemma bindP_raise [outcome_simps, simp]: "bindP (raiseP e) f = raiseP e"
  by (simp add: bindP_def raiseP_def fun_eq_iff)

lemma bindP_panic [outcome_simps, simp]: "bindP (panicP msg) f = panicP msg"
  by (simp add: bindP_def panicP_def fun_eq_iff)

lemma bindP_assoc: "bindP (bindP m f) g = bindP m (\<lambda>x. bindP (f x) g)"
  by (simp add: bindP_def fun_eq_iff split: option.splits outcome.splits prod.splits)

lemma bindP_Some_Ok:
  "bindP m f s = Some (Ok b, s'') \<longleftrightarrow>
     (\<exists>a s'. m s = Some (Ok a, s') \<and> f a s' = Some (Ok b, s''))"
  by (auto simp: bindP_def split: option.splits outcome.splits prod.splits)

lemma mapErrP_Some_Ok: "mapErrP f m s = Some (Ok a, s') \<longleftrightarrow> m s = Some (Ok a, s')"
  by (auto simp: mapErrP_def split: option.splits outcome.splits prod.splits)

section \<open>Partial correctness\<close>

definition hoare ::
  "('s \<Rightarrow> bool) \<Rightarrow> ('s, 'e, 'a) prog \<Rightarrow> (('e, 'a) outcome \<Rightarrow> 's \<Rightarrow> bool) \<Rightarrow> bool" where
  "hoare P m Q \<longleftrightarrow> (\<forall>s r s'. P s \<longrightarrow> m s = Some (r, s') \<longrightarrow> Q r s')"

lemma hoareI: "(\<And>s r s'. P s \<Longrightarrow> m s = Some (r, s') \<Longrightarrow> Q r s') \<Longrightarrow> hoare P m Q"
  by (auto simp: hoare_def)

lemma hoareD: "hoare P m Q \<Longrightarrow> P s \<Longrightarrow> m s = Some (r, s') \<Longrightarrow> Q r s'"
  by (auto simp: hoare_def)

lemma hoare_weaken:
  assumes "hoare P m Q" and "\<And>r s. Q r s \<Longrightarrow> Q' r s" and "\<And>s. P' s \<Longrightarrow> P s"
  shows "hoare P' m Q'"
  by (rule hoareI) (use assms in \<open>blast dest: hoareD\<close>)

lemma hoare_return [hoare_rules]: "(\<And>s. P s \<Longrightarrow> Q (Ok a) s) \<Longrightarrow> hoare P (returnP a) Q"
  by (auto simp: hoare_def returnP_def)

lemma hoare_raise [hoare_rules]: "(\<And>s. P s \<Longrightarrow> Q (Err e) s) \<Longrightarrow> hoare P (raiseP e) Q"
  by (auto simp: hoare_def raiseP_def)

lemma hoare_panic [hoare_rules]: "(\<And>s. P s \<Longrightarrow> Q (Panic msg) s) \<Longrightarrow> hoare P (panicP msg) Q"
  by (auto simp: hoare_def panicP_def)

lemma hoare_modify [hoare_rules]: "(\<And>s. P s \<Longrightarrow> Q (Ok ()) (f s)) \<Longrightarrow> hoare P (modifyP f) Q"
  by (auto simp: hoare_def modifyP_def)

lemma hoare_get [hoare_rules]: "(\<And>s. P s \<Longrightarrow> Q (Ok (f s)) s) \<Longrightarrow> hoare P (getP f) Q"
  by (auto simp: hoare_def getP_def)

lemma hoare_lift [hoare_rules]: "(\<And>s. P s \<Longrightarrow> Q r s) \<Longrightarrow> hoare P (liftP r) Q"
  by (auto simp: hoare_def liftP_def)

lemma hoare_bind:
  assumes "hoare P m (\<lambda>r s. case r of Ok a \<Rightarrow> R a s | Err e \<Rightarrow> Q (Err e) s | Panic x \<Rightarrow> Q (Panic x) s)"
    and "\<And>a. hoare (R a) (f a) Q"
  shows "hoare P (bindP m f) Q"
proof (rule hoareI)
  fix s r s'
  assume P: "P s" and run: "bindP m f s = Some (r, s')"
  from run obtain r1 s1 where m: "m s = Some (r1, s1)"
    by (auto simp: bindP_def split: option.splits)
  note 1 = hoareD [OF assms(1) P m]
  show "Q r s'"
  proof (cases r1)
    case (Ok a)
    with run m have "f a s1 = Some (r, s')" by (simp add: bindP_def)
    moreover from 1 Ok have "R a s1" by simp
    ultimately show ?thesis using hoareD [OF assms(2)] by blast
  qed (use run m 1 in \<open>auto simp: bindP_def\<close>)
qed

text \<open>An invariant of the state that a program keeps whatever its outcome.\<close>

definition keeps :: "('s \<Rightarrow> bool) \<Rightarrow> ('s, 'e, 'a) prog \<Rightarrow> bool" where
  "keeps I m \<longleftrightarrow> (\<forall>s r s'. I s \<longrightarrow> m s = Some (r, s') \<longrightarrow> I s')"

lemma keepsD: "keeps I m \<Longrightarrow> I s \<Longrightarrow> m s = Some (r, s') \<Longrightarrow> I s'"
  by (auto simp: keeps_def)

lemma keeps_return [hoare_rules, intro]: "keeps I (returnP a)"
  and keeps_raise [hoare_rules, intro]: "keeps I (raiseP e)"
  and keeps_panic [hoare_rules, intro]: "keeps I (panicP msg)"
  and keeps_get [hoare_rules, intro]: "keeps I (getP g)"
  and keeps_lift [hoare_rules, intro]: "keeps I (liftP r)"
  by (auto simp: keeps_def prog_defs)

lemma keeps_modify: "(\<And>s. I s \<Longrightarrow> I (f s)) \<Longrightarrow> keeps I (modifyP f)"
  by (auto simp: keeps_def modifyP_def)

lemma keeps_bind [hoare_rules, intro]:
  "keeps I m \<Longrightarrow> (\<And>a. keeps I (f a)) \<Longrightarrow> keeps I (bindP m f)"
proof -
  assume m: "keeps I m" and f: "\<And>a. keeps I (f a)"
  show "keeps I (bindP m f)"
    unfolding keeps_def
  proof (intro allI impI)
    fix s r s'
    assume I: "I s" and run: "bindP m f s = Some (r, s')"
    from run obtain r1 s1 where m1: "m s = Some (r1, s1)"
      by (auto simp: bindP_def split: option.splits)
    with m I have I1: "I s1" by (rule keepsD)
    show "I s'"
    proof (cases r1)
      case (Ok a)
      with run m1 have "f a s1 = Some (r, s')" by (simp add: bindP_def)
      with f I1 show ?thesis by (rule keepsD)
    qed (use run m1 I1 in \<open>auto simp: bindP_def\<close>)
  qed
qed

lemma keeps_try [hoare_rules, intro]: "keeps I m \<Longrightarrow> keeps I (tryP m)"
  by (fastforce simp: keeps_def tryP_def split: option.splits prod.splits outcome.splits)

lemma keeps_mapErr [hoare_rules, intro]: "keeps I m \<Longrightarrow> keeps I (mapErrP f m)"
  by (fastforce simp: keeps_def mapErrP_def split: option.splits prod.splits outcome.splits)

section \<open>Integer division\<close>

text \<open>Go's \<open>/\<close> on integers truncates towards zero.\<close>

definition go_div :: "int \<Rightarrow> int \<Rightarrow> int" where
  "go_div a b = sgn a * sgn b * (\<bar>a\<bar> div \<bar>b\<bar>)"

lemma go_div_100: "go_div n 100 = 2 \<longleftrightarrow> 200 \<le> n \<and> n < 300"
proof (cases "0 \<le> n")
  case True
  then show ?thesis by (cases "n = 0") (auto simp: go_div_def)
next
  case False
  then have "go_div n 100 \<le> 0" by (simp add: go_div_def)
  with False show ?thesis by linarith
qed

section \<open>Decimal numbers (strconv)\<close>

definition digit_char :: "nat \<Rightarrow> char" where
  "digit_char d = char_of (48 + d)"

definition char_digit :: "char \<Rightarrow> nat option" where
  "char_digit c = (let n = of_char c in if 48 \<le> n \<and> n \<le> 57 then Some (n - 48) else None)"

fun show_nat :: "nat \<Rightarrow> string" where
  "show_nat n = (if n < 10 then [digit_char n] else show_nat (n div 10) @ [digit_char (n mod 10)])"

declare show_nat.simps [simp del]

definition Itoa :: "int \<Rightarrow> string" where
  "Itoa i = (if i < 0 then CHR ''-'' # show_nat (nat (- i)) else show_nat (nat i))"

fun parse_digits :: "nat \<Rightarrow> string \<Rightarrow> nat option" where
  "parse_digits acc [] = Some acc"
| "parse_digits acc (c # cs) =
     (case char_digit c of None \<Rightarrow> None | Some d \<Rightarrow> parse_digits (10 * acc + d) cs)"

definition parse_nat :: "string \<Rightarrow> nat option" where
  "parse_nat s = (if s = [] then None else parse_digits 0 s)"

definition parse_int :: "string \<Rightarrow> int option" where
  "parse_int s =
     (case s of
        [] \<Rightarrow> None
      | c # t \<Rightarrow>
          (if c = CHR ''-'' then map_option (\<lambda>n. - int n) (parse_nat t)
           else map_option int (parse_nat s)))"

lemma of_char_digit_char: "d < 10 \<Longrightarrow> (of_char (digit_char d) :: nat) = 48 + d"
  by (simp add: digit_char_def)

lemma char_digit_digit_char [simp]: "d < 10 \<Longrightarrow> char_digit (digit_char d) = Some d"
  by (simp add: char_digit_def of_char_digit_char)

lemma show_nat_not_Nil [simp]: "show_nat n \<noteq> []"
  by (subst show_nat.simps) auto

lemma parse_digits_append:
  "parse_digits acc (s @ t) = (case parse_digits acc s of None \<Rightarrow> None | Some a \<Rightarrow> parse_digits a t)"
  by (induction s arbitrary: acc) (auto split: option.splits)

lemma parse_digits_show_nat: "parse_digits 0 (show_nat n) = Some n"
proof (induction n rule: show_nat.induct)
  case (1 n)
  show ?case
  proof (cases "n < 10")
    case True
    then show ?thesis by (simp add: show_nat.simps [of n])
  next
    case False
    with 1 show ?thesis
      by (simp add: show_nat.simps [of n] parse_digits_append)
  qed
qed

lemma parse_nat_show_nat [simp]: "parse_nat (show_nat n) = Some n"
  by (simp add: parse_nat_def parse_digits_show_nat)

lemma hd_show_nat: "\<exists>d < 10. hd (show_nat n) = digit_char d"
proof (induction n rule: show_nat.induct)
  case (1 n)
  then show ?case
    by (cases "n < 10") (auto simp: show_nat.simps [of n] hd_append)
qed

lemma digit_char_not_minus: "d < 10 \<Longrightarrow> digit_char d \<noteq> CHR ''-''"
proof
  assume d: "d < 10" and "digit_char d = CHR ''-''"
  then have "(of_char (digit_char d) :: nat) = of_char (CHR ''-'')" by simp
  with d show False by (simp add: of_char_digit_char)
qed

lemma parse_int_Itoa [simp]: "parse_int (Itoa i) = Some i"
proof (cases "i < 0")
  case True
  then show ?thesis by (simp add: Itoa_def parse_int_def)
next
  case False
  obtain c cs where s: "show_nat (nat i) = c # cs"
    by (cases "show_nat (nat i)") auto
  moreover from s hd_show_nat [of "nat i"] have "c \<noteq> CHR ''-''"
    using digit_char_not_minus by auto
  ultimately have "parse_int (show_nat (nat i)) = map_option int (parse_nat (show_nat (nat i)))"
    by (auto simp: parse_int_def split: list.splits)
  with False show ?thesis by (simp add: Itoa_def)
qed

section \<open>Strings (strings)\<close>

definition ascii_lower :: "char \<Rightarrow> char" where
  "ascii_lower c = (let n = of_char c :: nat in if 65 \<le> n \<and> n \<le> 90 then char_of (n + 32) else c)"

definition ascii_upper :: "char \<Rightarrow> char" where
  "ascii_upper c = (let n = of_char c :: nat in if 97 \<le> n \<and> n \<le> 122 then char_of (n - 32) else c)"

text \<open>
  Case folding to ASCII.  Beyond ASCII only two runes fold to a letter: U+017F, the long s, and
  U+212A, the Kelvin sign.  \<open>EqualFold\<close> is only used with a text of ASCII on the right.
\<close>

fun fold_name :: "string \<Rightarrow> string" where
  "fold_name [] = []"
| "fold_name (c # s) =
     (if c = CHR 0xC5 \<and> take 1 s = [CHR 0xBF] then CHR ''s'' # fold_name (drop 1 s)
      else if c = CHR 0xE2 \<and> take 2 s = [CHR 0x84, CHR 0xAA] then CHR ''k'' # fold_name (drop 2 s)
      else ascii_lower c # fold_name s)"

definition EqualFold :: "string \<Rightarrow> string \<Rightarrow> bool" where
  "EqualFold s t \<longleftrightarrow> fold_name s = fold_name t"

definition TrimRight :: "string \<Rightarrow> char \<Rightarrow> string" where
  "TrimRight s c = rev (dropWhile (\<lambda>x. x = c) (rev s))"

lemma TrimRight_last: "TrimRight s c \<noteq> [] \<Longrightarrow> last (TrimRight s c) \<noteq> c"
  unfolding TrimRight_def using hd_dropWhile [of "\<lambda>x. x = c" "rev s"]
  by (simp add: last_rev)

lemma TrimRight_prefix: "\<exists>n. s = TrimRight s c @ replicate n c"
proof -
  let ?t = "takeWhile (\<lambda>x. x = c) (rev s)"
  have "rev (?t @ dropWhile (\<lambda>x. x = c) (rev s)) = s"
    by (simp only: takeWhile_dropWhile_id rev_rev_ident)
  then have "s = TrimRight s c @ rev ?t"
    unfolding TrimRight_def rev_append [symmetric] by simp
  moreover have "rev ?t = replicate (length ?t) c"
    by (rule replicate_eqI) (auto dest: set_takeWhileD)
  ultimately show ?thesis by metis
qed

text \<open>\<open>Cut\<close> around the first occurrence of a character; the flag says whether it occurs.\<close>

definition Cut :: "string \<Rightarrow> char \<Rightarrow> string \<times> string \<times> bool" where
  "Cut s c =
     (let a = takeWhile (\<lambda>x. x \<noteq> c) s in (a, drop (Suc (length a)) s, c \<in> set s))"

text \<open>\<open>CutLast\<close> around the last occurrence (Go's \<open>LastIndex\<close> and a slice).\<close>

definition CutLast :: "string \<Rightarrow> char \<Rightarrow> (string \<times> string) option" where
  "CutLast s c =
     (if c \<in> set s
      then let b = rev (takeWhile (\<lambda>x. x \<noteq> c) (rev s))
           in Some (take (length s - Suc (length b)) s, b)
      else None)"

end
