(* ===== verification/Errors.thy ===== *)
theory Errors
  imports Go_Prelude
begin

text \<open>
  errors.go and the error types of protonmail.go: the package sentinels, \<open>APIError\<close> and
  \<open>HTTPError\<close> with their methods \<open>Error\<close>, \<open>Is\<close> and \<open>Unwrap\<close>, and the walk
  that \<open>errors.Is\<close> of the standard library makes over a chain of wrapped errors.
  A Go pointer that may be nil is an \<open>option\<close>; \<open>error option\<close> is a value of
  the interface type \<open>error\<close>.
\<close>

section \<open>The error values\<close>

datatype sentinel =
  ErrUnauthorized | ErrNotFound | ErrRateLimited | ErrNoUnlockableKeys | ErrImporterClosed

record http_error =
  StatusCode :: int
  Status :: string
  Body :: string

record api_error =
  Code :: int
  Message :: string
  HTTPError :: "http_error option"

text \<open>
  \<open>Opaque\<close> is an error made by \<open>errors.New\<close>, by the standard library or by a
  dependency, with its text; \<open>Wrapped msg e\<close> is \<open>fmt.Errorf("msg: %w", e)\<close>.
\<close>

datatype error =
    Sentinel sentinel
  | APIErr "api_error option"
  | HTTPErr "http_error option"
  | Opaque string
  | Wrapped string error

definition apiCodeInvalidCredentials :: int where
  "apiCodeInvalidCredentials = 8002"

definition StatusUnauthorized :: int where "StatusUnauthorized = 401"
definition StatusNotFound :: int where "StatusNotFound = 404"
definition StatusTooManyRequests :: int where "StatusTooManyRequests = 429"

definition apiCodeAuthRequired :: int where
  "apiCodeAuthRequired = StatusUnauthorized"

lemmas status_defs = apiCodeInvalidCredentials_def apiCodeAuthRequired_def
  StatusUnauthorized_def StatusNotFound_def StatusTooManyRequests_def

section \<open>Methods\<close>

definition APIError_Error :: "api_error option \<Rightarrow> string" where
  "APIError_Error err =
     (case err of
        None \<Rightarrow> ''<nil>''
      | Some e \<Rightarrow> ''['' @ Itoa (Code e) @ ''] '' @ Message e)"

definition APIError_Is :: "api_error option \<Rightarrow> error option \<Rightarrow> bool" where
  "APIError_Is err target =
     (case (err, target) of
        (Some e, Some t) \<Rightarrow>
          (if t = Sentinel ErrUnauthorized
           then Code e = apiCodeInvalidCredentials \<or> Code e = apiCodeAuthRequired
           else False)
      | _ \<Rightarrow> False)"

definition APIError_Unwrap :: "api_error option \<Rightarrow> error option" where
  "APIError_Unwrap err =
     (case err of
        None \<Rightarrow> None
      | Some e \<Rightarrow>
          (case HTTPError e of None \<Rightarrow> None | Some h \<Rightarrow> Some (HTTPErr (Some h))))"

definition HTTPError_Error :: "http_error option \<Rightarrow> string" where
  "HTTPError_Error err =
     (case err of
        None \<Rightarrow> ''<nil>''
      | Some e \<Rightarrow>
          (if Status e \<noteq> '''' then ''protonmail: HTTP '' @ Status e
           else ''protonmail: HTTP '' @ Itoa (StatusCode e)))"

definition HTTPError_Is :: "http_error option \<Rightarrow> error option \<Rightarrow> bool" where
  "HTTPError_Is err target =
     (case (err, target) of
        (Some e, Some t) \<Rightarrow>
          (if t = Sentinel ErrUnauthorized then StatusCode e = StatusUnauthorized
           else if t = Sentinel ErrNotFound then StatusCode e = StatusNotFound
           else if t = Sentinel ErrRateLimited then StatusCode e = StatusTooManyRequests
           else False)
      | _ \<Rightarrow> False)"

section \<open>errors.Is\<close>

text \<open>
  \<open>errors.Is\<close> compares the error with the target, asks its \<open>Is\<close> method if it has
  one, then goes on with what its \<open>Unwrap\<close> method returns.  The targets are the package
  sentinels: they are compared by identity, which is equality of the constructor here.
\<close>

fun Is_method :: "error \<Rightarrow> error option \<Rightarrow> bool" where
  "Is_method (APIErr e) t = APIError_Is e t"
| "Is_method (HTTPErr e) t = HTTPError_Is e t"
| "Is_method _ t = False"

fun Unwrap_method :: "error \<Rightarrow> error option" where
  "Unwrap_method (APIErr e) = APIError_Unwrap e"
| "Unwrap_method (Wrapped msg e) = Some e"
| "Unwrap_method _ = None"

fun chain_depth :: "error \<Rightarrow> nat" where
  "chain_depth (Wrapped msg e) = Suc (chain_depth e)"
| "chain_depth (APIErr e) = 1"
| "chain_depth _ = 0"

lemma chain_depth_Unwrap: "Unwrap_method e = Some e' \<Longrightarrow> chain_depth e' < chain_depth e"
  by (cases e rule: Unwrap_method.cases)
     (auto simp: APIError_Unwrap_def split: option.splits)

function errors_Is :: "error \<Rightarrow> sentinel \<Rightarrow> bool" where
  "errors_Is e t \<longleftrightarrow>
     e = Sentinel t \<or> Is_method e (Some (Sentinel t)) \<or>
     (case Unwrap_method e of None \<Rightarrow> False | Some e' \<Rightarrow> errors_Is e' t)"
  by pat_completeness auto
termination
  by (relation "measure (\<lambda>(e, t). chain_depth e)") (auto dest: chain_depth_Unwrap)

declare errors_Is.simps [simp del]

lemma errors_Is_Sentinel [simp]: "errors_Is (Sentinel s) t \<longleftrightarrow> s = t"
  by (simp add: errors_Is.simps)

lemma errors_Is_Opaque [simp]: "\<not> errors_Is (Opaque m) t"
  by (simp add: errors_Is.simps)

lemma errors_Is_Wrapped [simp]: "errors_Is (Wrapped m e) t \<longleftrightarrow> errors_Is e t"
  by (simp add: errors_Is.simps [of "Wrapped m e"])

lemma errors_Is_HTTPErr [simp]: "errors_Is (HTTPErr h) t \<longleftrightarrow> HTTPError_Is h (Some (Sentinel t))"
  by (simp add: errors_Is.simps)

lemma errors_Is_APIErr [simp]:
  "errors_Is (APIErr a) t \<longleftrightarrow>
     APIError_Is a (Some (Sentinel t)) \<or>
     (case a of None \<Rightarrow> False | Some e \<Rightarrow> HTTPError_Is (HTTPError e) (Some (Sentinel t)))"
  by (auto simp: errors_Is.simps [of "APIErr a"] APIError_Unwrap_def HTTPError_Is_def
      split: option.splits)

text \<open>The HTTP status each status-bearing sentinel stands for.\<close>

fun sentinel_status :: "sentinel \<Rightarrow> int option" where
  "sentinel_status ErrUnauthorized = Some StatusUnauthorized"
| "sentinel_status ErrNotFound = Some StatusNotFound"
| "sentinel_status ErrRateLimited = Some StatusTooManyRequests"
| "sentinel_status _ = None"

lemma HTTPError_Is_status:
  "HTTPError_Is (Some h) (Some (Sentinel t)) \<longleftrightarrow> sentinel_status t = Some (StatusCode h)"
  by (cases t) (auto simp: HTTPError_Is_def)

section \<open>Properties\<close>

text \<open>
  What a caller of \<open>errors.Is\<close> can rely on, through any number of
  \<open>fmt.Errorf("...: %w")\<close> layers: an API error that carries the HTTP failure matches
  a sentinel exactly when the HTTP status is the one that sentinel stands for, or the
  sentinel is \<open>ErrUnauthorized\<close> and the application code is 8002 or 401; a bare HTTP
  error matches by its status alone.
\<close>

theorem errors_Is_classification:
  "(errors_Is (foldr Wrapped msgs (APIErr (Some \<lparr>Code = c, Message = m, HTTPError = Some h\<rparr>))) t \<longleftrightarrow>
     sentinel_status t = Some (StatusCode h) \<or> (t = ErrUnauthorized \<and> (c = 8002 \<or> c = 401)))
   \<and> (errors_Is (foldr Wrapped msgs (HTTPErr (Some h))) t \<longleftrightarrow> sentinel_status t = Some (StatusCode h))"
  by (induction msgs) (auto simp: HTTPError_Is_status APIError_Is_def status_defs)

end
