(* ===== verification/Go_Url.thy ===== *)
theory Go_Url
  imports Go_Prelude
begin

text \<open>
  The part of net/url that the client uses: \<open>url.Parse\<close> with the scheme, host and path
  of the result, \<open>URL.Hostname\<close>, and \<open>url.Values\<close> with \<open>Set\<close> and \<open>Encode\<close>.
  The parser follows the standard library: control bytes are refused, the scheme is cut at
  the first colon, the authority between \<open>//\<close> and the next slash is split at its last
  \<open>@\<close>, the port must be empty or decimal, and percent escapes must be well formed.
\<close>

section \<open>Percent encoding\<close>

definition char_nat :: "char \<Rightarrow> nat" where
  "char_nat c = of_char c"

definition is_alpha :: "char \<Rightarrow> bool" where
  "is_alpha c \<longleftrightarrow> (let n = char_nat c in (65 \<le> n \<and> n \<le> 90) \<or> (97 \<le> n \<and> n \<le> 122))"

definition is_digit :: "char \<Rightarrow> bool" where
  "is_digit c \<longleftrightarrow> (let n = char_nat c in 48 \<le> n \<and> n \<le> 57)"

definition unhex :: "char \<Rightarrow> nat option" where
  "unhex c =
     (let n = char_nat c in
      if 48 \<le> n \<and> n \<le> 57 then Some (n - 48)
      else if 97 \<le> n \<and> n \<le> 102 then Some (n - 87)
      else if 65 \<le> n \<and> n \<le> 70 then Some (n - 55)
      else None)"

definition hex_digit :: "nat \<Rightarrow> char" where
  "hex_digit n = (if n < 10 then char_of (48 + n) else char_of (55 + n))"

datatype encoding =
  encodePath | encodeHost | encodeZone | encodeUserPassword | encodeQueryComponent | encodeFragment

text \<open>\<open>shouldEscape\<close>, for the modes that decoding a host and encoding a query need.\<close>

definition host_literal :: "char \<Rightarrow> bool" where
  "host_literal c \<longleftrightarrow>
     c \<in> set ''!$&()*+,;=:[]<>'' \<or> char_nat c = 39 \<or> char_nat c = 34"

definition unreserved :: "char \<Rightarrow> bool" where
  "unreserved c \<longleftrightarrow> is_alpha c \<or> is_digit c \<or> c \<in> set ''-_.~''"

fun shouldEscape :: "char \<Rightarrow> encoding \<Rightarrow> bool" where
  "shouldEscape c encodeHost = (\<not> (unreserved c \<or> host_literal c))"
| "shouldEscape c encodeZone = (\<not> (unreserved c \<or> host_literal c))"
| "shouldEscape c m = (\<not> unreserved c)"

text \<open>\<open>unescape\<close>: \<open>None\<close> stands for the errors \<open>EscapeError\<close> and \<open>InvalidHostError\<close>.\<close>

fun unescape :: "encoding \<Rightarrow> string \<Rightarrow> string option" where
  "unescape m [] = Some []"
| "unescape m (c # cs) =
     (if c = CHR ''%'' then
        (case cs of
           h # l # rest \<Rightarrow>
             (case (unhex h, unhex l) of
                (Some a, Some b) \<Rightarrow>
                  (if m = encodeHost \<and> a < 8 \<and> \<not> (h = CHR ''2'' \<and> l = CHR ''5'') then None
                   else if m = encodeZone \<and> \<not> (h = CHR ''2'' \<and> l = CHR ''5'')
                        \<and> 16 * a + b \<noteq> 32 \<and> shouldEscape (char_of (16 * a + b)) encodeHost then None
                   else map_option (Cons (char_of (16 * a + b))) (unescape m rest))
              | _ \<Rightarrow> None)
         | _ \<Rightarrow> None)
      else if c = CHR ''+'' \<and> m = encodeQueryComponent then map_option (Cons (CHR '' '')) (unescape m cs)
      else if (m = encodeHost \<or> m = encodeZone) \<and> char_nat c < 128 \<and> shouldEscape c m then None
      else map_option (Cons c) (unescape m cs))"

section \<open>Parsing a URL\<close>

record url =
  Scheme :: string
  Host :: string
  Path :: string

fun getScheme_from :: "nat \<Rightarrow> string \<Rightarrow> string \<Rightarrow> (string \<times> string) option" where
  "getScheme_from i raw [] = Some ('''', raw)"
| "getScheme_from i raw (c # cs) =
     (if is_alpha c then getScheme_from (Suc i) raw cs
      else if is_digit c \<or> c \<in> set ''+-.'' then
        (if i = 0 then Some ('''', raw) else getScheme_from (Suc i) raw cs)
      else if c = CHR '':'' then
        (if i = 0 then None else Some (take i raw, drop (Suc i) raw))
      else Some ('''', raw))"

definition getScheme :: "string \<Rightarrow> (string \<times> string) option" where
  "getScheme raw = getScheme_from 0 raw raw"

definition validOptionalPort :: "string \<Rightarrow> bool" where
  "validOptionalPort p \<longleftrightarrow> p = [] \<or> (hd p = CHR '':'' \<and> list_all is_digit (tl p))"

definition find_sub :: "string \<Rightarrow> string \<Rightarrow> nat option" where
  "find_sub pat s =
     List.find (\<lambda>i. take (length pat) (drop i s) = pat) [0..<Suc (length s)]"

definition parseHost :: "string \<Rightarrow> string option" where
  "parseHost host =
     (if host \<noteq> [] \<and> hd host = CHR ''['' then
        (case CutLast host (CHR '']'') of
           None \<Rightarrow> None
         | Some (pre, colonPort) \<Rightarrow>
             (if \<not> validOptionalPort colonPort then None
              else case find_sub ''%25'' pre of
                     None \<Rightarrow> unescape encodeHost host
                   | Some z \<Rightarrow>
                       (case (unescape encodeHost (take z host),
                              unescape encodeZone (drop z pre),
                              unescape encodeHost (drop (length pre) host)) of
                          (Some h1, Some h2, Some h3) \<Rightarrow> Some (h1 @ h2 @ h3)
                        | _ \<Rightarrow> None)))
      else
        (case CutLast host (CHR '':'') of
           Some (pre, port) \<Rightarrow>
             (if list_all is_digit port then unescape encodeHost host else None)
         | None \<Rightarrow> unescape encodeHost host))"

definition validUserinfo :: "string \<Rightarrow> bool" where
  "validUserinfo s \<longleftrightarrow>
     list_all (\<lambda>c. is_alpha c \<or> is_digit c \<or> c \<in> set ''-._:~!$&()*+,;=%@'' \<or> char_nat c = 39) s"

definition parseAuthority :: "string \<Rightarrow> string option" where
  "parseAuthority a =
     (case CutLast a (CHR ''@'') of
        None \<Rightarrow> parseHost a
      | Some (userinfo, h) \<Rightarrow>
          (case parseHost h of
             None \<Rightarrow> None
           | Some host \<Rightarrow>
               (if \<not> validUserinfo userinfo then None
                else
                  (let (name, pass, _) = Cut userinfo (CHR '':'') in
                   if unescape encodeUserPassword name = None
                      \<or> unescape encodeUserPassword pass = None then None
                   else Some host))))"

definition has_ctl_byte :: "string \<Rightarrow> bool" where
  "has_ctl_byte s \<longleftrightarrow> list_ex (\<lambda>c. char_nat c < 32 \<or> char_nat c = 127) s"

text \<open>
  \<open>url.Parse\<close>; every error of the library is the value \<open>None\<close>, since the client uses
  its text only to print it.
\<close>

definition url_parse :: "string \<Rightarrow> url option" where
  "url_parse rawURL =
     (let (u, frag, _) = Cut rawURL (CHR ''#'') in
      if has_ctl_byte u then None
      else if unescape encodeFragment frag = None then None
      else if u = ''*'' then Some \<lparr>Scheme = '''', Host = '''', Path = ''*''\<rparr>
      else
        (case getScheme u of
           None \<Rightarrow> None
         | Some (scheme0, rest0) \<Rightarrow>
             (let scheme = map ascii_lower scheme0;
                  (rest, _, _) = Cut rest0 (CHR ''?'') in
              if take 1 rest \<noteq> ''/'' then
                (if scheme \<noteq> '''' then Some \<lparr>Scheme = scheme, Host = '''', Path = ''''\<rparr>
                 else if CHR '':'' \<in> set (fst (Cut rest (CHR ''/''))) then None
                 else map_option (\<lambda>p. \<lparr>Scheme = '''', Host = '''', Path = p\<rparr>)
                        (unescape encodePath rest))
              else if take 2 rest = ''//'' \<and> (scheme \<noteq> '''' \<or> take 3 rest \<noteq> ''///'') then
                (let (auth, path, more) = Cut (drop 2 rest) (CHR ''/'') in
                 case parseAuthority auth of
                   None \<Rightarrow> None
                 | Some h \<Rightarrow>
                     map_option (\<lambda>p. \<lparr>Scheme = scheme, Host = h, Path = p\<rparr>)
                       (unescape encodePath (if more then CHR ''/'' # path else '''')))
              else map_option (\<lambda>p. \<lparr>Scheme = scheme, Host = '''', Path = p\<rparr>)
                     (unescape encodePath rest))))"

definition Hostname :: "url \<Rightarrow> string" where
  "Hostname u =
     (let h = Host u;
          h' = (case CutLast h (CHR '':'') of
                  Some (pre, port) \<Rightarrow> if list_all is_digit port then pre else h
                | None \<Rightarrow> h) in
      if take 1 h' = ''['' \<and> h' \<noteq> [] \<and> last h' = CHR '']'' then butlast (tl h') else h')"

section \<open>Query strings\<close>

definition query_escape_char :: "char \<Rightarrow> string" where
  "query_escape_char c =
     (if c = CHR '' '' then ''+''
      else if shouldEscape c encodeQueryComponent then
        [CHR ''%'', hex_digit (char_nat c div 16), hex_digit (char_nat c mod 16)]
      else [c])"

definition QueryEscape :: "string \<Rightarrow> string" where
  "QueryEscape s = concat (map query_escape_char s)"

text \<open>\<open>unescape\<close> reads back what \<open>QueryEscape\<close> writes.\<close>

lemma unhex_hex_digit [simp]: "n < 16 \<Longrightarrow> unhex (hex_digit n) = Some n"
  by (auto simp: unhex_def hex_digit_def char_nat_def Let_def)

lemma char_of_char_nat [simp]: "char_of (char_nat c) = c"
  by (simp add: char_nat_def)

lemma char_of_div_mod_16: "char_of (16 * (char_nat c div 16) + char_nat c mod 16) = c"
  by (simp add: char_nat_def)

lemma char_nat_less: "char_nat c < 256"
  using nat_of_char_less_256 [of c] by (simp add: char_nat_def)

lemma unescape_query_char:
  "unescape encodeQueryComponent (query_escape_char c @ t)
     = map_option (Cons c) (unescape encodeQueryComponent t)"
proof -
  have "char_nat c div 16 < 16" "char_nat c mod 16 < 16"
    using char_nat_less [of c] by auto
  moreover have "\<not> unreserved CHR ''%''" "\<not> unreserved CHR ''+''"
    by (simp_all add: unreserved_def is_alpha_def is_digit_def char_nat_def)
  ultimately show ?thesis
    by (auto simp: query_escape_char_def char_of_div_mod_16)
qed

lemma unescape_QueryEscape [simp]: "unescape encodeQueryComponent (QueryEscape s) = Some s"
  unfolding QueryEscape_def by (induction s) (simp_all add: unescape_query_char)

end
