(* ===== verification/Client.thy ===== *)
theory Client
  imports Errors Go_Url
begin

text \<open>
  options.go and the construction of a client in protonmail.go: the \<open>Client\<close> struct, the
  functional options and \<open>NewClient\<close>.  A callback, an HTTP client and a logger are Go
  objects that are only stored and passed on: the model keeps a handle of each, and the
  argument of an option that may be nil is an \<open>option\<close>.
\<close>

section \<open>The client\<close>

datatype http_client = DefaultClient | CustomClient nat
datatype logger = DiscardLogger | CustomLogger nat
datatype callback = Callback nat

record 'k client =
  baseURL :: string
  appVersion :: string
  userAgent :: string
  httpClient :: http_client
  reauth :: "callback option"
  logger :: logger
  uid :: string
  accessToken :: string
  keyRing :: "'k list"

definition defaultBaseURL :: string where
  "defaultBaseURL = ''https://mail.proton.me/api''"

definition libraryVersion :: string where
  "libraryVersion = ''0.2.0-dev''"

definition APIVersion :: int where
  "APIVersion = 3"

section \<open>Options\<close>

type_synonym 'k Option = "'k client \<Rightarrow> error + 'k client"

definition isLoopbackHost :: "string \<Rightarrow> bool" where
  "isLoopbackHost host =
     (if host = ''127.0.0.1'' then True
      else if host = ''::1'' then True
      else if EqualFold host ''localhost'' then True
      else False)"

definition WithBaseURL :: "string \<Rightarrow> 'k Option" where
  "WithBaseURL u c =
     (case url_parse u of
        None \<Rightarrow> Inl (Wrapped ''WithBaseURL'' (Opaque ''parse''))
      | Some parsed \<Rightarrow>
          (if Scheme parsed = ''https'' then Inr (c\<lparr>baseURL := TrimRight u (CHR ''/'')\<rparr>)
           else if Scheme parsed = ''http'' then
             (if \<not> isLoopbackHost (Hostname parsed)
              then Inl (Opaque ''WithBaseURL: URL must use https (http allowed only for loopback addresses)'')
              else Inr (c\<lparr>baseURL := TrimRight u (CHR ''/'')\<rparr>))
           else Inl (Opaque (''WithBaseURL: unsupported scheme '' @ [CHR 0x22] @ Scheme parsed @ [CHR 0x22]))))"

definition WithHTTPClient :: "http_client option \<Rightarrow> 'k Option" where
  "WithHTTPClient h c =
     (case h of
        None \<Rightarrow> Inl (Opaque ''WithHTTPClient: client must be non-nil'')
      | Some hc \<Rightarrow> Inr (c\<lparr>httpClient := hc\<rparr>))"

definition WithAppVersion :: "string \<Rightarrow> 'k Option" where
  "WithAppVersion v c =
     (if v = '''' then Inl (Opaque ''WithAppVersion: app version must not be empty'')
      else Inr (c\<lparr>appVersion := v\<rparr>))"

definition WithUserAgent :: "string \<Rightarrow> 'k Option" where
  "WithUserAgent ua c =
     (if ua = '''' then Inl (Opaque ''WithUserAgent: user agent must not be empty'')
      else Inr (c\<lparr>userAgent := ua\<rparr>))"

definition WithReAuth :: "callback option \<Rightarrow> 'k Option" where
  "WithReAuth fn c =
     (case fn of
        None \<Rightarrow> Inl (Opaque ''WithReAuth: callback must be non-nil'')
      | Some f \<Rightarrow> Inr (c\<lparr>reauth := Some f\<rparr>))"

definition WithLogger :: "logger option \<Rightarrow> 'k Option" where
  "WithLogger l c =
     (case l of
        None \<Rightarrow> Inl (Opaque ''WithLogger: logger must be non-nil'')
      | Some lg \<Rightarrow> Inr (c\<lparr>logger := lg\<rparr>))"

lemmas option_defs = WithBaseURL_def WithHTTPClient_def WithAppVersion_def WithUserAgent_def
  WithReAuth_def WithLogger_def

text \<open>A caller outside the package can build its options only from these functions.\<close>

datatype option_call =
    BaseURL string
  | HTTPClient "http_client option"
  | AppVersion string
  | UserAgent string
  | ReAuth "callback option"
  | Logger "logger option"

fun option_of :: "option_call \<Rightarrow> 'k Option" where
  "option_of (BaseURL u) = WithBaseURL u"
| "option_of (HTTPClient h) = WithHTTPClient h"
| "option_of (AppVersion v) = WithAppVersion v"
| "option_of (UserAgent ua) = WithUserAgent ua"
| "option_of (ReAuth f) = WithReAuth f"
| "option_of (Logger l) = WithLogger l"

section \<open>NewClient\<close>

definition initial_client :: "'k client" where
  "initial_client =
     \<lparr>baseURL = defaultBaseURL, appVersion = '''',
      userAgent = ''protonmail-go/'' @ libraryVersion @ '' (+https://github.com/joestump/protonmail-go)'',
      httpClient = DefaultClient, reauth = None, logger = DiscardLogger,
      uid = '''', accessToken = '''', keyRing = []\<rparr>"

fun apply_options :: "'k Option list \<Rightarrow> 'k client \<Rightarrow> error + 'k client" where
  "apply_options [] c = Inr c"
| "apply_options (opt # opts) c =
     (case opt c of Inl e \<Rightarrow> Inl e | Inr c' \<Rightarrow> apply_options opts c')"

definition NewClient :: "'k Option list \<Rightarrow> error + 'k client" where
  "NewClient opts =
     (case apply_options opts initial_client of
        Inl e \<Rightarrow> Inl e
      | Inr c \<Rightarrow>
          (if appVersion c = ''''
           then Inl (Opaque ''NewClient: app version is required (use WithAppVersion)'')
           else Inr c))"

section \<open>The scheme and the host of a URL\<close>

definition scheme_char :: "char \<Rightarrow> bool" where
  "scheme_char c \<longleftrightarrow> is_alpha c \<or> is_digit c \<or> c \<in> set ''+-.''"

definition valid_scheme :: "string \<Rightarrow> bool" where
  "valid_scheme s \<longleftrightarrow> s \<noteq> [] \<and> is_alpha (hd s) \<and> list_all scheme_char s"

lemma scheme_char_not_special:
  "scheme_char c \<Longrightarrow> c \<noteq> CHR '':'' \<and> c \<noteq> CHR ''/'' \<and> c \<noteq> CHR ''#'' \<and> c \<noteq> CHR ''?''"
  by (auto simp: scheme_char_def is_alpha_def is_digit_def char_nat_def)

lemma colon_not_scheme [simp]: "\<not> is_alpha CHR '':''" "\<not> is_digit CHR '':''"
  by (simp_all add: is_alpha_def is_digit_def char_nat_def)

lemma getScheme_from_Some:
  assumes "getScheme_from i raw cs = Some (s, r)" and "drop i raw = cs" and "s \<noteq> []"
  shows "\<exists>t. cs = t @ CHR '':'' # r \<and> s = take i raw @ t \<and> list_all scheme_char t
           \<and> (i = 0 \<longrightarrow> t \<noteq> [] \<and> is_alpha (hd t))"
  using assms
proof (induction cs arbitrary: i)
  case Nil
  then show ?case by simp
next
  case (Cons c cs)
  from Cons.prems(2) have len: "i < length raw" and c: "raw ! i = c" and dr: "drop (Suc i) raw = cs"
    by (metis drop_all list.discI linorder_not_less,
        metis nth_via_drop, metis drop_Suc list.sel(3) tl_drop)
  have tk: "take (Suc i) raw = take i raw @ [c]"
    using len c by (simp add: take_Suc_conv_app_nth)
  show ?case
  proof (cases "is_alpha c \<or> (i \<noteq> 0 \<and> (is_digit c \<or> c \<in> set ''+-.''))")
    case True
    then have "getScheme_from (Suc i) raw cs = Some (s, r)"
      using Cons.prems(1) by (auto split: if_splits)
    from Cons.IH [OF this dr Cons.prems(3)] obtain t where
      t: "cs = t @ CHR '':'' # r" "s = take (Suc i) raw @ t" "list_all scheme_char t" by blast
    moreover from True have "scheme_char c" by (auto simp: scheme_char_def)
    ultimately show ?thesis using True tk
      by (intro exI [of _ "c # t"]) auto
  next
    case False
    then have "c = CHR '':'' \<and> i \<noteq> 0 \<and> s = take i raw \<and> r = drop (Suc i) raw"
      using Cons.prems(1,3) by (auto split: if_splits)
    with dr show ?thesis by auto
  qed
qed

lemma getScheme_from_valid:
  assumes "list_all scheme_char t" and "i = 0 \<longrightarrow> t \<noteq> [] \<and> is_alpha (hd t)"
    and "drop i raw = t @ CHR '':'' # r"
  shows "getScheme_from i raw (t @ CHR '':'' # r) = Some (take (i + length t) raw, r)"
  using assms
proof (induction t arbitrary: i)
  case Nil
  then have "drop (Suc i) raw = r" by (metis append_Nil drop_Suc list.sel(3) tl_drop)
  with Nil show ?case by simp
next
  case (Cons c t)
  from Cons.prems(3) have "drop (Suc i) raw = t @ CHR '':'' # r"
    by (metis append_Cons drop_Suc list.sel(3) tl_drop)
  from Cons.IH [OF _ _ this] Cons.prems(1,2) show ?case
    by (auto simp: scheme_char_def)
qed

lemma getScheme_eq:
  assumes "valid_scheme s"
  shows "getScheme (s @ CHR '':'' # r) = Some (s, r)"
proof -
  have "getScheme_from 0 (s @ CHR '':'' # r) (s @ CHR '':'' # r)
          = Some (take (0 + length s) (s @ CHR '':'' # r), r)"
    using assms by (intro getScheme_from_valid) (auto simp: valid_scheme_def)
  then show ?thesis by (simp add: getScheme_def)
qed

lemma getScheme_Some:
  assumes "getScheme raw = Some (s, r)" and "s \<noteq> []"
  shows "raw = s @ CHR '':'' # r \<and> valid_scheme s"
  using getScheme_from_Some [of 0 raw raw s r] assms
  by (auto simp: getScheme_def valid_scheme_def)

text \<open>The host that the parser finds in what follows \<open>scheme:\<close>.\<close>

definition rest_of :: "string \<Rightarrow> string" where
  "rest_of w = takeWhile (\<lambda>x. x \<noteq> CHR ''?'') (takeWhile (\<lambda>x. x \<noteq> CHR ''#'') w)"

definition authority_of :: "string \<Rightarrow> string" where
  "authority_of w = takeWhile (\<lambda>x. x \<noteq> CHR ''/'') (drop 2 (rest_of w))"

definition host_of :: "string \<Rightarrow> string" where
  "host_of w = (if take 2 (rest_of w) = ''//'' then the (parseAuthority (authority_of w)) else '''')"

lemma takeWhile_append_all: "list_all P xs \<Longrightarrow> takeWhile P (xs @ ys) = xs @ takeWhile P ys"
  by (induction xs) auto

lemma valid_scheme_all:
  assumes "valid_scheme s" and "x \<in> {CHR ''#'', CHR ''?'', CHR ''/''}"
  shows "list_all (\<lambda>c. c \<noteq> x) s"
  using assms by (auto simp: valid_scheme_def list_all_iff dest: scheme_char_not_special)

lemma take_1_2: "take 2 w = ''//'' \<Longrightarrow> take 1 w = ''/''"
  by (cases w; cases "tl w") auto

lemma url_parse_scheme_host:
  assumes s: "valid_scheme s" and p: "url_parse (s @ CHR '':'' # w) = Some p"
  shows "Scheme p = map ascii_lower s \<and> Host p = host_of w"
proof -
  have cut: "takeWhile (\<lambda>x. x \<noteq> CHR ''#'') (s @ CHR '':'' # w)
      = s @ CHR '':'' # takeWhile (\<lambda>x. x \<noteq> CHR ''#'') w"
    using takeWhile_append_all [OF valid_scheme_all [OF s, of "CHR ''#''"]] by simp
  let ?w1 = "takeWhile (\<lambda>x. x \<noteq> CHR ''#'') w"
  have gs: "getScheme (s @ CHR '':'' # ?w1) = Some (s, ?w1)"
    by (rule getScheme_eq [OF s])
  have ne: "map ascii_lower s \<noteq> ''''" "s @ CHR '':'' # ?w1 \<noteq> ''*''"
    using s by (auto simp: valid_scheme_def append_eq_Cons_conv)
  have rest: "rest_of w = takeWhile (\<lambda>x. x \<noteq> CHR ''?'') ?w1"
    by (simp add: rest_of_def)
  show ?thesis
  proof (cases "take 2 (rest_of w) = ''//''")
    case True
    then show ?thesis
      using p ne gs take_1_2 [OF True]
      by (auto simp: url_parse_def Cut_def cut rest [symmetric] Let_def host_of_def
            authority_of_def split: if_splits option.splits)
  next
    case False
    then show ?thesis
      using p ne gs
      by (auto simp: url_parse_def Cut_def cut rest [symmetric] Let_def host_of_def
            split: if_splits option.splits)
  qed
qed

lemma TrimRight_keep:
  assumes "y \<noteq> c"
  shows "TrimRight (xs @ y # zs) c = xs @ y # TrimRight zs c"
  using assms by (simp add: TrimRight_def dropWhile_append)

lemma TrimRight_append_cases: "TrimRight (x # xs) c = [] \<or> (\<exists>ys. TrimRight (x # xs) c = x # ys)"
  using TrimRight_prefix [of "x # xs" c] by (cases "TrimRight (x # xs) c") auto

definition delimiter :: "char \<Rightarrow> bool" where
  "delimiter c \<longleftrightarrow> c = CHR ''#'' \<or> c = CHR ''?'' \<or> c = CHR ''/''"

lemma authority_of_slashes: "authority_of (CHR ''/'' # CHR ''/'' # v) = takeWhile (\<lambda>c. \<not> delimiter c) v"
proof -
  have "takeWhile (\<lambda>x. x \<noteq> CHR ''/'') (takeWhile (\<lambda>x. x \<noteq> CHR ''?'') (takeWhile (\<lambda>x. x \<noteq> CHR ''#'') v))
      = takeWhile (\<lambda>c. \<not> delimiter c) v"
    by (induction v) (auto simp: delimiter_def)
  then show ?thesis by (simp add: authority_of_def rest_of_def)
qed

lemma rest_of_slashes_iff: "take 2 (rest_of w) = ''//'' \<longleftrightarrow> (\<exists>v. w = CHR ''/'' # CHR ''/'' # v)"
  by (cases w; cases "tl w") (auto simp: rest_of_def)

lemma isLoopbackHost_Nil: "\<not> isLoopbackHost ''''"
  by (simp add: isLoopbackHost_def EqualFold_def)

text \<open>Trimming trailing slashes and appending a path that starts with one keeps a non-empty authority.\<close>

lemma host_of_join:
  assumes "host_of w \<noteq> ''''" and path: "take 1 path = ''/''"
  shows "host_of (TrimRight w (CHR ''/'') @ path) = host_of w"
proof -
  from assms(1) obtain v where w: "w = CHR ''/'' # CHR ''/'' # v"
    by (auto simp: host_of_def rest_of_slashes_iff split: if_splits)
  define a z where "a = takeWhile (\<lambda>c. \<not> delimiter c) v" and "z = dropWhile (\<lambda>c. \<not> delimiter c) v"
  have v: "v = a @ z" by (simp add: a_def z_def)
  have auth: "authority_of w = a" using w by (simp add: authority_of_slashes a_def)
  have "a \<noteq> []"
  proof
    assume "a = []"
    then have "host_of w = ''''"
      using auth w by (simp add: host_of_def parseAuthority_def CutLast_def parseHost_def)
    with assms(1) show False by simp
  qed
  then obtain b y where a: "a = b @ [y]" by (cases a rule: rev_cases) auto
  have nd: "\<forall>c \<in> set a. \<not> delimiter c" by (auto simp: a_def dest: set_takeWhileD)
  then have "y \<noteq> CHR ''/''" using a by (auto simp: delimiter_def)
  then have trim: "TrimRight w (CHR ''/'') = CHR ''/'' # CHR ''/'' # a @ TrimRight z (CHR ''/'')"
    using TrimRight_keep [of y "CHR ''/''" "''//'' @ b" z] by (simp add: w v a)
  have head: "TrimRight z (CHR ''/'') @ path = [] \<or> delimiter (hd (TrimRight z (CHR ''/'') @ path))"
  proof (cases z)
    case Nil
    then show ?thesis using path by (cases path) (auto simp: TrimRight_def delimiter_def)
  next
    case (Cons x xs)
    then have "delimiter x" using hd_dropWhile [of "\<lambda>c. \<not> delimiter c" v] by (auto simp: z_def)
    then show ?thesis using Cons TrimRight_append_cases [of x xs "CHR ''/''"] path
      by (cases path) (auto simp: delimiter_def)
  qed
  have "takeWhile (\<lambda>c. \<not> delimiter c) (a @ TrimRight z (CHR ''/'') @ path) = a"
  proof -
    have "takeWhile (\<lambda>c. \<not> delimiter c) (a @ TrimRight z (CHR ''/'') @ path)
        = a @ takeWhile (\<lambda>c. \<not> delimiter c) (TrimRight z (CHR ''/'') @ path)"
      using nd by (simp add: takeWhile_append2)
    also have "takeWhile (\<lambda>c. \<not> delimiter c) (TrimRight z (CHR ''/'') @ path) = []"
      using head by (cases "TrimRight z (CHR ''/'') @ path") auto
    finally show ?thesis by simp
  qed
  then have "authority_of (TrimRight w (CHR ''/'') @ path) = a"
    by (simp add: trim authority_of_slashes)
  moreover have "take 2 (rest_of (TrimRight w (CHR ''/'') @ path)) = ''//''" "take 2 (rest_of w) = ''//''"
    unfolding rest_of_slashes_iff using trim w by auto
  ultimately show ?thesis by (simp add: host_of_def auth)
qed

section \<open>Where a client sends its requests\<close>

text \<open>A URL that \<open>WithBaseURL\<close> takes, and what it stores of it.\<close>

definition acceptable :: "url \<Rightarrow> bool" where
  "acceptable p \<longleftrightarrow> Scheme p = ''https'' \<or> (Scheme p = ''http'' \<and> isLoopbackHost (Hostname p))"

definition secure_base :: "string \<Rightarrow> bool" where
  "secure_base b \<longleftrightarrow> (\<exists>u p. b = TrimRight u (CHR ''/'') \<and> url_parse u = Some p \<and> acceptable p)"

lemma url_parse_scheme_split:
  assumes "url_parse u = Some p" and "Scheme p \<noteq> ''''"
  shows "\<exists>s w. u = s @ CHR '':'' # w \<and> valid_scheme s"
proof -
  let ?u1 = "takeWhile (\<lambda>x. x \<noteq> CHR ''#'') u"
  obtain s r where gs: "getScheme ?u1 = Some (s, r)" and "s \<noteq> []"
    using assms by (auto simp: url_parse_def Cut_def Let_def split: if_splits option.splits)
  then have "?u1 = s @ CHR '':'' # r" and "valid_scheme s" using getScheme_Some by blast+
  moreover have "u = ?u1 @ dropWhile (\<lambda>x. x \<noteq> CHR ''#'') u" by simp
  ultimately have "u = s @ CHR '':'' # (r @ dropWhile (\<lambda>x. x \<noteq> CHR ''#'') u)"
    by (metis append.assoc append_Cons)
  with \<open>valid_scheme s\<close> show ?thesis by blast
qed

lemma Hostname_cong: "Host p = Host q \<Longrightarrow> Hostname p = Hostname q"
  by (simp add: Hostname_def)

lemma Hostname_no_host: "Host p = '''' \<Longrightarrow> Hostname p = ''''"
  by (simp add: Hostname_def CutLast_def)

lemma secure_base_request:
  assumes "secure_base b" and path: "take 1 path = ''/''" and q: "url_parse (b @ path) = Some q"
  shows "acceptable q"
proof -
  from assms(1) obtain u p where b: "b = TrimRight u (CHR ''/'')" and p: "url_parse u = Some p"
    and acc: "acceptable p" by (auto simp: secure_base_def)
  from acc have "Scheme p \<noteq> ''''" by (auto simp: acceptable_def)
  with p obtain s w where u: "u = s @ CHR '':'' # w" and s: "valid_scheme s"
    using url_parse_scheme_split by blast
  have "b @ path = s @ CHR '':'' # (TrimRight w (CHR ''/'') @ path)"
    using TrimRight_keep [of "CHR '':''" "CHR ''/''" s w] by (simp add: b u)
  then have q': "Scheme q = map ascii_lower s \<and> Host q = host_of (TrimRight w (CHR ''/'') @ path)"
    using url_parse_scheme_host [OF s] q by metis
  have p': "Scheme p = map ascii_lower s \<and> Host p = host_of w"
    using url_parse_scheme_host [OF s] p u by metis
  show ?thesis
  proof (cases "isLoopbackHost (Hostname p)")
    case True
    then have "host_of w \<noteq> ''''" using p' Hostname_no_host [of p] isLoopbackHost_Nil by auto
    then have "Host q = Host p" using p' q' host_of_join [OF _ path] by metis
    then show ?thesis using acc p' q' Hostname_cong [of q p] by (auto simp: acceptable_def)
  next
    case False
    then show ?thesis using acc p' q' by (auto simp: acceptable_def)
  qed
qed

text \<open>Every option keeps the base URL one that was checked.\<close>

lemma option_of_secure_base:
  assumes "secure_base (baseURL c)" and "option_of call c = Inr c'"
  shows "secure_base (baseURL c')"
proof (cases call)
  case (BaseURL u)
  with assms(2) obtain p where "url_parse u = Some p" "acceptable p"
      "baseURL c' = TrimRight u (CHR ''/'')"
    by (auto simp: WithBaseURL_def acceptable_def split: option.splits if_splits)
  then show ?thesis by (auto simp: secure_base_def)
qed (use assms in \<open>auto simp: option_defs split: option.splits if_splits\<close>)

lemma apply_options_secure_base:
  "secure_base (baseURL c) \<Longrightarrow> apply_options (map option_of calls) c = Inr c' \<Longrightarrow>
     secure_base (baseURL c')"
  by (induction calls arbitrary: c) (auto split: sum.splits dest: option_of_secure_base)

lemma url_parse_default:
  "url_parse defaultBaseURL = Some \<lparr>Scheme = ''https'', Host = ''mail.proton.me'', Path = ''/api''\<rparr>"
  by (simp add: url_parse_def defaultBaseURL_def Cut_def has_ctl_byte_def char_nat_def getScheme_def
      is_alpha_def is_digit_def parseAuthority_def CutLast_def parseHost_def unreserved_def
      ascii_lower_def Let_def)

lemma secure_base_default: "secure_base (baseURL initial_client)"
proof -
  have "baseURL initial_client = TrimRight defaultBaseURL (CHR ''/'')"
    by (simp add: initial_client_def defaultBaseURL_def TrimRight_def)
  then show ?thesis
    using url_parse_default by (auto simp: secure_base_def acceptable_def)
qed

lemma NewClient_secure_base:
  "NewClient (map option_of calls) = Inr c \<Longrightarrow> secure_base (baseURL c)"
  using apply_options_secure_base [OF secure_base_default]
  by (auto simp: NewClient_def split: sum.splits if_splits)

section \<open>Properties\<close>

text \<open>
  No plaintext off the machine: whatever options a client is built from, the URL of
  every request it makes (the base URL followed by an API path, which starts with a slash)
  has the https scheme, or the http scheme with a loopback host.  Trimming the slashes of
  the base URL and appending the path cannot move the request to another host.
\<close>

theorem NewClient_no_plaintext:
  assumes "NewClient (map option_of calls) = Inr c"
    and "take 1 path = ''/''" and "url_parse (baseURL c @ path) = Some u"
  shows "Scheme u = ''https'' \<or> (Scheme u = ''http'' \<and> isLoopbackHost (Hostname u))"
  using secure_base_request [OF NewClient_secure_base [OF assms(1)] assms(2,3)]
  by (simp add: acceptable_def)

lemmas url_eval = url_parse_def Cut_def has_ctl_byte_def char_nat_def getScheme_def is_alpha_def
  is_digit_def parseAuthority_def CutLast_def parseHost_def unreserved_def ascii_lower_def Let_def
  Hostname_def isLoopbackHost_def EqualFold_def host_literal_def char_of_def bit_0

theorem NewClient_no_plaintext_witness:
  "\<exists>c u. NewClient (map option_of [AppVersion ''a'', BaseURL ''http://LocalHost:80/'']) = Inr c
     \<and> url_parse (baseURL c @ ''/auth'') = Some u \<and> Scheme u = ''http''
     \<and> isLoopbackHost (Hostname u)"
proof -
  let ?c = "initial_client\<lparr>appVersion := ''a'', baseURL := ''http://LocalHost:80''\<rparr>"
  let ?u = "\<lparr>Scheme = ''http'', Host = ''LocalHost:80'', Path = ''/auth''\<rparr>"
  have c: "NewClient (map option_of [AppVersion ''a'', BaseURL ''http://LocalHost:80/'']) = Inr ?c"
    by (simp add: NewClient_def WithAppVersion_def WithBaseURL_def url_eval TrimRight_def)
  have u: "url_parse (baseURL ?c @ ''/auth'') = Some ?u"
    by (simp add: url_eval)
  have "Scheme ?u = ''https'' \<or> (Scheme ?u = ''http'' \<and> isLoopbackHost (Hostname ?u))"
    by (rule NewClient_no_plaintext [OF c _ u]) simp
  then show ?thesis using c u by auto
qed

text \<open>
  The documentation of \<open>WithBaseURL\<close> allows http only for exactly \<open>localhost\<close>, up to case, and
  two addresses.  The folding of the code goes beyond ASCII: a host with the long s, here
  percent-encoded, passes too.
\<close>

lemma WithBaseURL_takes_long_s:
  "\<exists>c u. NewClient (map option_of [AppVersion ''a'', BaseURL ''http://localho%C5%BFt'']) = Inr c \<and>
     url_parse (baseURL c @ ''/auth'') = Some u \<and> Scheme u = ''http'' \<and>
     Hostname u = ''localho'' @ [CHR 0xC5, CHR 0xBF] @ ''t''"
proof -
  let ?c = "initial_client\<lparr>appVersion := ''a'', baseURL := ''http://localho%C5%BFt''\<rparr>"
  let ?u = "\<lparr>Scheme = ''http'', Host = ''localho'' @ [CHR 0xC5, CHR 0xBF] @ ''t'', Path = ''/auth''\<rparr>"
  have "NewClient (map option_of [AppVersion ''a'', BaseURL ''http://localho%C5%BFt'']) = Inr ?c"
    by (simp add: NewClient_def WithAppVersion_def WithBaseURL_def url_eval unhex_def TrimRight_def)
  moreover have "url_parse (baseURL ?c @ ''/auth'') = Some ?u"
    by (simp add: url_eval unhex_def)
  moreover have "Hostname ?u = ''localho'' @ [CHR 0xC5, CHR 0xBF] @ ''t''" by (simp add: url_eval)
  ultimately show ?thesis by (intro exI conjI) auto
qed

text \<open>
  What a list of options means, without running it: the error of the first option that is
  refused, else a client in which each setting is that of the last option for it.
\<close>

definition option_error :: "option_call \<Rightarrow> error option" where
  "option_error call =
     (case (option_of call (initial_client :: unit client)) of Inl e \<Rightarrow> Some e | Inr _ \<Rightarrow> None)"

definition last_setting :: "(option_call \<Rightarrow> 'a option) \<Rightarrow> 'a \<Rightarrow> option_call list \<Rightarrow> 'a" where
  "last_setting f d calls = foldl (\<lambda>a call. case f call of None \<Rightarrow> a | Some x \<Rightarrow> x) d calls"

fun base_setting :: "option_call \<Rightarrow> string option" where
  "base_setting (BaseURL u) = Some (TrimRight u (CHR ''/''))" | "base_setting _ = None"
fun http_setting :: "option_call \<Rightarrow> http_client option" where
  "http_setting (HTTPClient h) = h" | "http_setting _ = None"
fun version_setting :: "option_call \<Rightarrow> string option" where
  "version_setting (AppVersion v) = Some v" | "version_setting _ = None"
fun agent_setting :: "option_call \<Rightarrow> string option" where
  "agent_setting (UserAgent v) = Some v" | "agent_setting _ = None"
fun reauth_setting :: "option_call \<Rightarrow> callback option option" where
  "reauth_setting (ReAuth f) = Some f" | "reauth_setting _ = None"
fun logger_setting :: "option_call \<Rightarrow> logger option" where
  "logger_setting (Logger l) = l" | "logger_setting _ = None"

definition settings_of :: "option_call list \<Rightarrow> 'k client \<Rightarrow> 'k client" where
  "settings_of calls c = c
     \<lparr>baseURL := last_setting base_setting (baseURL c) calls,
      httpClient := last_setting http_setting (httpClient c) calls,
      appVersion := last_setting version_setting (appVersion c) calls,
      userAgent := last_setting agent_setting (userAgent c) calls,
      reauth := last_setting reauth_setting (reauth c) calls,
      logger := last_setting logger_setting (logger c) calls\<rparr>"

definition NewClient_spec :: "option_call list \<Rightarrow> error + 'k client" where
  "NewClient_spec calls =
     (case List.find (\<lambda>call. option_error call \<noteq> None) calls of
        Some call \<Rightarrow> Inl (the (option_error call))
      | None \<Rightarrow>
          (if \<exists>v. AppVersion v \<in> set calls then Inr (settings_of calls initial_client)
           else Inl (Opaque ''NewClient: app version is required (use WithAppVersion)'')))"

lemma last_setting_Nil [simp]: "last_setting f d [] = d"
  and last_setting_Cons [simp]: "last_setting f d (call # calls) =
    last_setting f (case f call of None \<Rightarrow> d | Some x \<Rightarrow> x) calls"
  by (simp_all add: last_setting_def)

text \<open>Whether an option is refused, and with which error, does not depend on the client.\<close>

lemma option_of_error: "option_error call = Some e \<Longrightarrow> option_of call c = Inl e"
  by (cases call) (auto simp: option_error_def option_defs split: option.splits if_splits)

lemma option_of_ok: "option_error call = None \<Longrightarrow> option_of call c = Inr (settings_of [call] c)"
  by (cases call)
     (auto simp: option_error_def option_defs settings_of_def split: option.splits if_splits)

lemma settings_of_Cons: "settings_of calls (settings_of [call] c) = settings_of (call # calls) c"
  by (simp add: settings_of_def)

lemma apply_options_spec:
  "apply_options (map option_of calls) c =
     (case List.find (\<lambda>call. option_error call \<noteq> None) calls of
        Some call \<Rightarrow> Inl (the (option_error call))
      | None \<Rightarrow> Inr (settings_of calls c))"
proof (induction calls arbitrary: c)
  case Nil
  then show ?case by (simp add: settings_of_def)
next
  case (Cons call calls)
  then show ?case
    by (cases "option_error call")
       (simp_all add: option_of_error option_of_ok settings_of_Cons split: option.split)
qed

lemma version_empty_iff:
  assumes "\<forall>call \<in> set calls. option_error call = None"
  shows "last_setting version_setting d calls = '''' \<longleftrightarrow> d = '''' \<and> \<not> (\<exists>v. AppVersion v \<in> set calls)"
  using assms
proof (induction calls arbitrary: d)
  case Nil
  then show ?case by simp
next
  case (Cons call calls)
  have "version_setting call = Some v \<Longrightarrow> v \<noteq> ''''" for v
    using Cons.prems by (cases call) (auto simp: option_error_def WithAppVersion_def split: if_splits)
  moreover have "version_setting call = None \<longleftrightarrow> \<not> (\<exists>v. call = AppVersion v)"
    by (cases call) auto
  ultimately show ?case using Cons by (cases "version_setting call") auto
qed

text \<open>
  C26.  \<open>NewClient\<close> does what its documentation says of a list of options: they are
  applied in order, the first one that is refused ends the construction with its error, the
  last one of a kind wins, and without an app version there is no client.
\<close>

theorem NewClient_meets_spec: "NewClient (map option_of calls) = NewClient_spec calls"
proof (cases "List.find (\<lambda>call. option_error call \<noteq> None) calls")
  case None
  then have "\<forall>call \<in> set calls. option_error call = None"
    by (auto simp: find_None_iff)
  from version_empty_iff [OF this] None show ?thesis
    by (simp add: NewClient_def NewClient_spec_def apply_options_spec settings_of_def initial_client_def)
next
  case (Some call)
  then show ?thesis by (simp add: NewClient_def NewClient_spec_def apply_options_spec)
qed

end
