(* ===== verification/Go_Utf8.thy ===== *)
theory Go_Utf8
  imports Go_Url
begin

text \<open>
  UTF-8 as unicode/utf8 has it: how a code point is written, how many bytes the sequence at the
  front of a text takes, and the replacement of what is no sequence.
\<close>

section \<open>Runes\<close>

definition utf8 :: "nat \<Rightarrow> string" where
  "utf8 n =
     (if n < 128 then [char_of n]
      else if n < 2048 then [char_of (192 + n div 64), char_of (128 + n mod 64)]
      else if n < 65536 then
        [char_of (224 + n div 4096), char_of (128 + n div 64 mod 64), char_of (128 + n mod 64)]
      else
        [char_of (240 + n div 262144), char_of (128 + n div 4096 mod 64),
         char_of (128 + n div 64 mod 64), char_of (128 + n mod 64)])"

text \<open>The length that a leading byte announces, and what its second byte may be.\<close>

definition rune_bytes :: "nat \<Rightarrow> nat" where
  "rune_bytes n =
     (if n < 128 then 1 else if 194 \<le> n \<and> n < 224 then 2 else if 224 \<le> n \<and> n < 240 then 3
      else if 240 \<le> n \<and> n < 245 then 4 else 0)"

definition second_byte :: "nat \<Rightarrow> nat \<Rightarrow> bool" where
  "second_byte n b \<longleftrightarrow>
     (if n = 224 then 160 else if n = 240 then 144 else 128) \<le> b \<and>
     b \<le> (if n = 237 then 159 else if n = 244 then 143 else 191)"

definition continues :: "char \<Rightarrow> bool" where
  "continues c \<longleftrightarrow> 128 \<le> char_nat c \<and> char_nat c < 192"

text \<open>
  \<open>utf8.DecodeRune\<close>: the number of bytes of the sequence at the front, 0 for \<open>RuneError\<close>.
\<close>

definition rune_size :: "string \<Rightarrow> nat" where
  "rune_size s =
     (case s of
        [] \<Rightarrow> 0
      | a # t \<Rightarrow>
          (let k = rune_bytes (char_nat a); more = take (k - 1) t
           in if k \<le> 1 then k
              else if length more = k - 1 \<and> second_byte (char_nat a) (char_nat (hd more)) \<and> list_all continues more
              then k else 0))"

lemma rune_size_Nil [simp]: "rune_size [] = 0"
  by (simp add: rune_size_def)

lemma rune_size_ascii [simp]: "char_nat a < 128 \<Longrightarrow> rune_size (a # s) = 1"
  by (simp add: rune_size_def rune_bytes_def)

lemma rune_size_one: "rune_size (a # s) = Suc 0 \<longleftrightarrow> char_nat a < 128"
  by (auto simp: rune_size_def rune_bytes_def Let_def)

lemma rune_size_length: "rune_size s \<le> length s"
proof (cases s)
  case (Cons a t)
  then show ?thesis by (auto simp: rune_size_def Let_def rune_bytes_def split: if_splits)
qed simp

text \<open>Only the bytes of the sequence count.\<close>

lemma rune_size_prefix:
  assumes "rune_size s = k" and "k \<noteq> 0"
  shows "rune_size (take k s @ t) = k"
proof -
  obtain a r where s: "s = a # r" using assms by (cases s) auto
  obtain j where j: "k = Suc j" using assms(2) by (cases k) auto
  from assms s have kb: "rune_bytes (char_nat a) = k"
    by (auto simp: rune_size_def Let_def split: if_splits)
  show ?thesis
  proof (cases j)
    case 0
    then show ?thesis using s j kb by (simp add: rune_size_def)
  next
    case (Suc i)
    with assms s j kb have "length (take j r) = j" "second_byte (char_nat a) (char_nat (hd (take j r)))" "list_all continues (take j r)"
      by (auto simp: rune_size_def Let_def split: if_splits)
    moreover have "hd (take j r @ t) = hd (take j r)" "take j (take j r @ t) = take j r"
      using calculation(1) Suc by (cases "take j r"; auto)+
    ultimately show ?thesis using s j kb Suc by (simp add: rune_size_def Let_def del: length_take take_append)
  qed
qed

lemma rune_size_high:
  assumes "rune_size (a # s) = k" and "1 < k" and "c \<in> set (take k (a # s))"
  shows "128 \<le> char_nat c"
proof -
  obtain j where j: "k = Suc j" using assms(2) by (cases k) auto
  from assms(1,2) have "rune_bytes (char_nat a) = k" "list_all continues (take (k - 1) s)"
    by (auto simp: rune_size_def Let_def split: if_splits)
  moreover from this(1) assms(2) have "128 \<le> char_nat a" by (auto simp: rune_bytes_def split: if_splits)
  ultimately show ?thesis using assms(3) j by (auto simp: list_all_iff continues_def)
qed

section \<open>Valid texts\<close>

function valid_utf8 :: "string \<Rightarrow> bool" where
  "valid_utf8 [] = True"
| "valid_utf8 (a # s) = (rune_size (a # s) \<noteq> 0 \<and> valid_utf8 (drop (rune_size (a # s) - 1) s))"
  by pat_completeness auto
termination by (relation "measure length") auto

text \<open>\<open>strings.ToValidUTF8\<close> with the replacement character, one for each byte that is no part of a sequence.\<close>

function to_valid :: "string \<Rightarrow> string" where
  "to_valid [] = []"
| "to_valid (a # s) =
     (let k = rune_size (a # s)
      in if k = 0 then utf8 65533 @ to_valid s else take k (a # s) @ to_valid (drop (k - 1) s))"
  by pat_completeness auto
termination by (relation "measure length") auto

declare valid_utf8.simps(2) [simp del] to_valid.simps(2) [simp del]

lemma take_drop_Cons: "k \<noteq> 0 \<Longrightarrow> take k (a # s) @ drop (k - Suc 0) s = a # s"
  by (cases k) simp_all

lemma to_valid_same: "valid_utf8 s \<Longrightarrow> to_valid s = s"
proof (induction s rule: valid_utf8.induct)
  case (2 a s)
  then show ?case by (simp add: valid_utf8.simps(2) [of a s] to_valid.simps(2) [of a s] Let_def take_drop_Cons)
qed simp

lemma valid_rune:
  assumes "rune_size s = k" and "k \<noteq> 0" and "valid_utf8 t"
  shows "valid_utf8 (take k s @ t)"
proof -
  obtain a r where s: "s = a # r" using assms by (cases s) auto
  obtain j where j: "k = Suc j" using assms(2) by (cases k) auto
  have "rune_size (a # take j r @ t) = k" using rune_size_prefix [OF assms(1,2), of t] s j by simp
  moreover have "length (take j r) = j" using rune_size_length [of s] assms(1) s j by simp
  ultimately show ?thesis using assms(3) s j by (simp add: valid_utf8.simps(2))
qed

lemma valid_ascii: "list_all (\<lambda>c. char_nat c < 128) s \<Longrightarrow> valid_utf8 s"
  by (induction s) (simp_all add: valid_utf8.simps(2))

lemma valid_Cons_ascii [simp]: "char_nat a < 128 \<Longrightarrow> valid_utf8 (a # s) \<longleftrightarrow> valid_utf8 s"
  by (simp add: valid_utf8.simps(2))

lemma char_nat_byte: "n < 256 \<Longrightarrow> char_nat (char_of n) = n"
  by (simp add: char_nat_def)

lemma div_div: "n div 64 div 64 = n div 4096" "n div 4096 div 64 = n div 262144" for n :: nat
  by (simp_all add: div_mult2_eq [symmetric])

lemmas rune_defs = rune_size_def rune_bytes_def second_byte_def continues_def

lemma valid_literal [simp]: "valid_utf8 (Char b0 b1 b2 b3 b4 b5 b6 False # s) \<longleftrightarrow> valid_utf8 s"
  by (rule valid_Cons_ascii) (simp add: char_nat_def of_char_Char)

text \<open>What is written for a code point that is not a surrogate is one sequence.\<close>

lemma rune_size_utf8:
  assumes "n < 1114112" and "n < 55296 \<or> 57344 \<le> n"
  shows "rune_size (utf8 n) = length (utf8 n)"
proof -
  consider "n < 128" | "128 \<le> n" "n < 2048" | "2048 \<le> n" "n < 65536" | "65536 \<le> n" by linarith
  then show ?thesis
  proof cases
    case 1
    then show ?thesis by (simp add: utf8_def rune_size_def rune_bytes_def char_nat_byte)
  next
    case 2
    define a where "a = n div 64"
    define b where "b = n mod 64"
    from 2 have "2 \<le> a" "a < 32" "b < 64" unfolding a_def b_def by (simp_all add: div_less_iff_less_mult less_eq_div_iff_mult_less_eq)
    moreover from 2 have "utf8 n = [char_of (192 + a), char_of (128 + b)]" by (simp add: utf8_def a_def b_def)
    ultimately show ?thesis by (simp add: rune_defs char_nat_byte Let_def)
  next
    case 3
    define a where "a = n div 4096"
    define b where "b = n div 64 mod 64"
    define c where "c = n mod 64"
    have n: "n = 4096 * a + 64 * b + c"
      using div_mult_mod_eq [of n 64] div_mult_mod_eq [of "n div 64" 64]
      by (simp only: a_def b_def c_def div_div)
    have "b < 64" "c < 64" by (simp_all add: b_def c_def)
    with 3 n have "a < 16" "a = 0 \<Longrightarrow> 32 \<le> b" by linarith+
    moreover from assms(2) n \<open>b < 64\<close> \<open>c < 64\<close> have "a = 13 \<Longrightarrow> b < 32" by linarith
    moreover note \<open>b < 64\<close> \<open>c < 64\<close>
    moreover from 3 have "utf8 n = [char_of (224 + a), char_of (128 + b), char_of (128 + c)]"
      by (simp add: utf8_def a_def b_def c_def)
    ultimately show ?thesis by (simp add: rune_defs char_nat_byte Let_def) linarith
  next
    case 4
    define a where "a = n div 262144"
    define b where "b = n div 4096 mod 64"
    define c where "c = n div 64 mod 64"
    define d where "d = n mod 64"
    have n: "n = 262144 * a + 4096 * b + 64 * c + d"
      using div_mult_mod_eq [of n 64] div_mult_mod_eq [of "n div 64" 64] div_mult_mod_eq [of "n div 4096" 64]
      by (simp only: a_def b_def c_def d_def div_div)
    have b: "b < 64" "c < 64" "d < 64" by (simp_all add: b_def c_def d_def)
    with 4 assms(1) n have "a < 5" "a = 0 \<Longrightarrow> 16 \<le> b" "a = 4 \<Longrightarrow> b < 16" by linarith+
    moreover note b
    moreover from 4 have "utf8 n = [char_of (240 + a), char_of (128 + b), char_of (128 + c), char_of (128 + d)]"
      by (simp add: utf8_def a_def b_def c_def d_def)
    ultimately show ?thesis by (simp add: rune_defs char_nat_byte Let_def) linarith
  qed
qed

lemma valid_utf8_rune:
  assumes "n < 1114112" and "n < 55296 \<or> 57344 \<le> n" and "valid_utf8 t"
  shows "valid_utf8 (utf8 n @ t)"
proof -
  have "utf8 n \<noteq> []" by (simp add: utf8_def)
  with valid_rune [OF rune_size_utf8 [OF assms(1,2)] _ assms(3)] show ?thesis by simp
qed

lemma to_valid_valid: "valid_utf8 (to_valid s)"
proof (induction s rule: to_valid.induct)
  case (2 a s)
  show ?case
  proof (cases "rune_size (a # s)")
    case 0
    with 2(1) [OF refl] valid_utf8_rune [of 65533] show ?thesis by (simp add: to_valid.simps(2) [of a s])
  next
    case (Suc k)
    with 2(2) [OF refl] valid_rune [OF refl, of "a # s"] show ?thesis by (simp add: to_valid.simps(2) [of a s] del: take_Suc_Cons)
  qed
qed simp

end
