(* ===== verification/Go_Json.thy ===== *)
theory Go_Json
  imports Errors Go_Utf8
begin

text \<open>
  The part of encoding/json that the client uses: JSON values, the printer behind
  \<open>Encoder.Encode\<close>, the parser behind \<open>Unmarshal\<close> and \<open>Decoder.Decode\<close>, and the
  decoding of a value into a Go struct, field by field.  A number keeps its literal, as in
  the library, and is read only when it is stored in an integer field.
  Strings are bytes: what is no UTF-8 sequence is replaced on the way out and on the way in.
\<close>

section \<open>Values and printing\<close>

datatype json =
    JNull
  | JBool bool
  | JNum string
  | JStr string
  | JArr "json list"
  | JObj "(string \<times> json) list"

definition quote_char :: char where "quote_char = CHR 0x22"
definition backslash :: char where "backslash = CHR 0x5C"

lemmas json_chars = quote_char_def backslash_def

definition lower_hex :: "nat \<Rightarrow> char" where
  "lower_hex n = (if n < 10 then char_of (48 + n) else char_of (87 + n))"

definition print_char :: "char \<Rightarrow> string" where
  "print_char c =
     (let n = char_nat c in
      if c = quote_char \<or> c = backslash then [backslash, c]
      else if n = 8 then [backslash, CHR ''b'']
      else if n = 12 then [backslash, CHR ''f'']
      else if n = 10 then [backslash, CHR ''n'']
      else if n = 13 then [backslash, CHR ''r'']
      else if n = 9 then [backslash, CHR ''t'']
      else if n < 32 \<or> c \<in> set ''<>&'' then
        [backslash, CHR ''u'', CHR ''0'', CHR ''0'', lower_hex (n div 16), lower_hex (n mod 16)]
      else [c])"

text \<open>
  Of a longer sequence only U+2028 and U+2029 are escaped; a byte that starts no sequence is
  printed as the escaped replacement character.
\<close>

definition is_separator :: "string \<Rightarrow> bool" where
  "is_separator r \<longleftrightarrow> r = utf8 8232 \<or> r = utf8 8233"

definition print_rune :: "string \<Rightarrow> string" where
  "print_rune r =
     (if is_separator r then
        [backslash, CHR ''u'', CHR ''2'', CHR ''0'', CHR ''2'', lower_hex (char_nat (last r) mod 16)]
      else r)"

function print_chars :: "string \<Rightarrow> string" where
  "print_chars [] = []"
| "print_chars (a # s) =
     (let k = rune_size (a # s)
      in if k = 0 then backslash # ''ufffd'' @ print_chars s
         else if k = 1 then print_char a @ print_chars s
         else print_rune (take k (a # s)) @ print_chars (drop (k - 1) s))"
  by pat_completeness auto
termination by (relation "measure length") auto

definition print_string :: "string \<Rightarrow> string" where
  "print_string s = quote_char # print_chars s @ [quote_char]"

fun json_print :: "json \<Rightarrow> string"
  and print_elems :: "json list \<Rightarrow> string"
  and print_members :: "(string \<times> json) list \<Rightarrow> string" where
  "json_print JNull = ''null''"
| "json_print (JBool b) = (if b then ''true'' else ''false'')"
| "json_print (JNum lit) = lit"
| "json_print (JStr s) = print_string s"
| "json_print (JArr vs) = ''['' @ print_elems vs @ '']''"
| "json_print (JObj ms) = ''{'' @ print_members ms @ ''}''"
| "print_elems [] = ''''"
| "print_elems [v] = json_print v"
| "print_elems (v # vs) = json_print v @ '','' @ print_elems vs"
| "print_members [] = ''''"
| "print_members [(k, v)] = print_string k @ '':'' @ json_print v"
| "print_members ((k, v) # ms) = print_string k @ '':'' @ json_print v @ '','' @ print_members ms"

definition json_encode :: "json \<Rightarrow> string" where
  "json_encode v = json_print v @ [CHR 0x0A]"

definition JInt :: "int \<Rightarrow> json" where
  "JInt i = JNum (Itoa i)"

section \<open>Parsing\<close>

definition is_ws :: "char \<Rightarrow> bool" where
  "is_ws c \<longleftrightarrow> char_nat c \<in> {32, 9, 10, 13}"

definition skip_ws :: "string \<Rightarrow> string" where
  "skip_ws s = dropWhile is_ws s"

fun hex4 :: "string \<Rightarrow> (nat \<times> string) option" where
  "hex4 (a # b # c # d # rest) =
     (case (unhex a, unhex b, unhex c, unhex d) of
        (Some p, Some q, Some r, Some s) \<Rightarrow> Some (((p * 16 + q) * 16 + r) * 16 + s, rest)
      | _ \<Rightarrow> None)"
| "hex4 _ = None"

text \<open>What follows \<open>\u\<close>: four hex digits, and the second half of a surrogate pair if there is one.\<close>

definition uescape :: "string \<Rightarrow> (string \<times> string) option" where
  "uescape s =
     (case hex4 s of
        None \<Rightarrow> None
      | Some (n, rest) \<Rightarrow>
          (if 55296 \<le> n \<and> n < 56320 then
             (case (take 2 rest = [backslash, CHR ''u''], hex4 (drop 2 rest)) of
                (True, Some (m, rest')) \<Rightarrow>
                  (if 56320 \<le> m \<and> m < 57344
                   then Some (utf8 (65536 + (n - 55296) * 1024 + (m - 56320)), rest')
                   else Some (utf8 65533, rest))
              | _ \<Rightarrow> Some (utf8 65533, rest))
           else if 56320 \<le> n \<and> n < 57344 then Some (utf8 65533, rest)
           else Some (utf8 n, rest)))"

lemma hex4_length: "hex4 s = Some (n, rest) \<Longrightarrow> length rest < length s"
  by (induction s rule: hex4.induct) (auto split: option.splits)

lemma uescape_length: "uescape s = Some (u, rest) \<Longrightarrow> length rest < length s"
  by (fastforce simp: uescape_def dest: hex4_length split: option.splits if_splits bool.splits)

definition simple_escape :: "char \<Rightarrow> char option" where
  "simple_escape e =
     (if e = quote_char \<or> e = backslash \<or> e = CHR ''/'' then Some e
      else if e = CHR ''b'' then Some (char_of (8 :: nat))
      else if e = CHR ''f'' then Some (char_of (12 :: nat))
      else if e = CHR ''n'' then Some (char_of (10 :: nat))
      else if e = CHR ''r'' then Some (char_of (13 :: nat))
      else if e = CHR ''t'' then Some (char_of (9 :: nat))
      else None)"

function parse_string :: "string \<Rightarrow> (string \<times> string) option" where
  "parse_string [] = None"
| "parse_string (c # cs) =
     (if c = quote_char then Some ([], cs)
      else if c = backslash then
        (case cs of
           [] \<Rightarrow> None
         | e # r \<Rightarrow>
             (if e = CHR ''u'' then
                (case uescape r of
                   None \<Rightarrow> None
                 | Some (u, t) \<Rightarrow>
                     map_option (\<lambda>(x, y). (u @ x, y)) (parse_string t))
              else
                (case simple_escape e of
                   None \<Rightarrow> None
                 | Some d \<Rightarrow> map_option (\<lambda>(x, y). (d # x, y)) (parse_string r))))
      else if char_nat c < 32 then None
      else
        (let k = rune_size (c # cs)
         in if k = 0 then map_option (\<lambda>(x, y). (utf8 65533 @ x, y)) (parse_string cs)
            else map_option (\<lambda>(x, y). (take k (c # cs) @ x, y)) (parse_string (drop (k - 1) cs))))"
  by pat_completeness auto
termination
  by (relation "measure length") (auto dest: uescape_length)

definition parse_number :: "string \<Rightarrow> (string \<times> string) option" where
  "parse_number s =
     (let (sg, s1) = (if take 1 s = ''-'' then (''-'', drop 1 s) else ('''', s));
          ds0 = takeWhile is_digit s1;
          ds = (if take 1 ds0 = ''0'' then ''0'' else ds0);
          s2 = drop (length ds) s1;
          (fr, s3, okf) =
            (if take 1 s2 = ''.'' then
               (let f = takeWhile is_digit (drop 1 s2)
                in (CHR ''.'' # f, drop (Suc (length f)) s2, f \<noteq> []))
             else ('''', s2, True));
          (ex, s4, oke) =
            (if take 1 s3 = ''e'' \<or> take 1 s3 = ''E'' then
               (let sx = (if take 1 (drop 1 s3) = ''+'' \<or> take 1 (drop 1 s3) = ''-''
                          then take 1 (drop 1 s3) else '''');
                    x = takeWhile is_digit (drop (1 + length sx) s3)
                in (take 1 s3 @ sx @ x, drop (1 + length sx + length x) s3, x \<noteq> []))
             else ('''', s3, True))
      in if ds \<noteq> '''' \<and> okf \<and> oke then Some (sg @ ds @ fr @ ex, s4) else None)"

fun parse_value :: "nat \<Rightarrow> string \<Rightarrow> (json \<times> string) option"
  and parse_elems :: "nat \<Rightarrow> string \<Rightarrow> (json list \<times> string) option"
  and parse_members :: "nat \<Rightarrow> string \<Rightarrow> ((string \<times> json) list \<times> string) option" where
  "parse_value 0 s = None"
| "parse_value (Suc n) s =
     (case skip_ws s of
        [] \<Rightarrow> None
      | c # r \<Rightarrow>
          (if c = CHR ''{'' then
             (if take 1 (skip_ws r) = ''}'' then Some (JObj [], drop 1 (skip_ws r))
              else map_option (\<lambda>(ms, t). (JObj ms, t)) (parse_members n r))
           else if c = CHR ''['' then
             (if take 1 (skip_ws r) = '']'' then Some (JArr [], drop 1 (skip_ws r))
              else map_option (\<lambda>(vs, t). (JArr vs, t)) (parse_elems n r))
           else if c = quote_char then map_option (\<lambda>(x, t). (JStr x, t)) (parse_string r)
           else if take 4 (c # r) = ''null'' then Some (JNull, drop 3 r)
           else if take 4 (c # r) = ''true'' then Some (JBool True, drop 3 r)
           else if take 5 (c # r) = ''false'' then Some (JBool False, drop 4 r)
           else map_option (\<lambda>(x, t). (JNum x, t)) (parse_number (c # r))))"
| "parse_elems 0 s = None"
| "parse_elems (Suc n) s =
     (case parse_value n s of
        None \<Rightarrow> None
      | Some (v, t) \<Rightarrow>
          (if take 1 (skip_ws t) = '','' then
             map_option (\<lambda>(vs, u). (v # vs, u)) (parse_elems n (drop 1 (skip_ws t)))
           else if take 1 (skip_ws t) = '']'' then Some ([v], drop 1 (skip_ws t))
           else None))"
| "parse_members 0 s = None"
| "parse_members (Suc n) s =
     (if take 1 (skip_ws s) \<noteq> [quote_char] then None
      else case parse_string (drop 1 (skip_ws s)) of
        None \<Rightarrow> None
      | Some (k, t) \<Rightarrow>
          (if take 1 (skip_ws t) \<noteq> '':'' then None
           else case parse_value n (drop 1 (skip_ws t)) of
             None \<Rightarrow> None
           | Some (v, u) \<Rightarrow>
               (if take 1 (skip_ws u) = '','' then
                  map_option (\<lambda>(ms, w). ((k, v) # ms, w)) (parse_members n (drop 1 (skip_ws u)))
                else if take 1 (skip_ws u) = ''}'' then Some ([(k, v)], drop 1 (skip_ws u))
                else None)))"

declare print_chars.simps(2) [simp del] parse_string.simps(2) [simp del]

lemma json_chars_differ [simp]:
  "quote_char \<noteq> CHR ''u''" "backslash \<noteq> CHR ''u''" "quote_char \<noteq> CHR ''{''" "quote_char \<noteq> CHR ''[''"
  by (simp_all add: json_chars)

lemma parse_string_quote [simp]: "parse_string (quote_char # cs) = Some ([], cs)"
  by (simp add: parse_string.simps(2))

lemma parse_string_escape [simp]:
  "parse_string (backslash # e # r) =
     (if e = CHR ''u''
      then (case uescape r of None \<Rightarrow> None | Some (u, t) \<Rightarrow> map_option (\<lambda>(x, y). (u @ x, y)) (parse_string t))
      else (case simple_escape e of None \<Rightarrow> None | Some d \<Rightarrow> map_option (\<lambda>(x, y). (d # x, y)) (parse_string r)))"
  by (simp add: parse_string.simps(2) json_chars split: option.splits)

lemma parse_string_ascii:
  "\<lbrakk>c \<noteq> quote_char; c \<noteq> backslash; 32 \<le> char_nat c; char_nat c < 128\<rbrakk> \<Longrightarrow>
     parse_string (c # cs) = map_option (\<lambda>(x, y). (c # x, y)) (parse_string cs)"
  by (simp add: parse_string.simps(2))

lemma parse_string_sequence:
  assumes k: "rune_size (r @ t) = length r" "1 < length r" "r = c # cs" "128 \<le> char_nat c"
  shows "parse_string (r @ t) = map_option (\<lambda>(x, y). (r @ x, y)) (parse_string t)"
  using assms by (auto simp: parse_string.simps(2) json_chars char_nat_def Let_def)

text \<open>
  A value consumes a character before it calls \<open>parse_elems\<close> or \<open>parse_members\<close>, and these
  consume one before they call themselves, so two units of fuel for each character of the text,
  and one more, are never used up.
\<close>

definition json_fuel :: "string \<Rightarrow> nat" where
  "json_fuel s = Suc (2 * length s)"

definition json_unmarshal :: "string \<Rightarrow> error + json" where
  "json_unmarshal s =
     (case parse_value (json_fuel s) s of
        Some (v, t) \<Rightarrow>
          (if skip_ws t = [] then Inr v else Inl (Opaque ''json: invalid character after top-level value''))
      | None \<Rightarrow> Inl (Opaque ''json: syntax error''))"

definition json_decode :: "string \<Rightarrow> error + json" where
  "json_decode s =
     (if skip_ws s = [] then Inl (Opaque ''EOF'')
      else case parse_value (json_fuel s) s of
             Some (v, t) \<Rightarrow> Inr v
           | None \<Rightarrow> Inl (Opaque ''json: syntax error''))"

section \<open>Decoding into Go values\<close>

text \<open>
  A decoder stores a JSON value over an existing Go value.  \<open>null\<close> leaves strings,
  numbers and structs as they are and makes pointers and slices nil.  A decoding error ends
  the decoding; the value is then never read by the client.
\<close>

type_synonym 'a decoder = "json \<Rightarrow> 'a \<Rightarrow> error + 'a"

definition type_error :: error where
  "type_error = Opaque ''json: cannot unmarshal value into Go value''"

fun dec_string :: "string decoder" where
  "dec_string (JStr s) old = Inr s"
| "dec_string JNull old = Inr old"
| "dec_string _ old = Inl type_error"

fun dec_int :: "int decoder" where
  "dec_int (JNum lit) old =
     (case parse_int lit of
        Some i \<Rightarrow> if - (2 ^ 63) \<le> i \<and> i < 2 ^ 63 then Inr i else Inl type_error
      | None \<Rightarrow> Inl type_error)"
| "dec_int JNull old = Inr old"
| "dec_int _ old = Inl type_error"

definition dec_pointer :: "'a decoder \<Rightarrow> 'a \<Rightarrow> 'a option decoder" where
  "dec_pointer d zero j old =
     (if j = JNull then Inr None
      else map_sum id Some (d j (case old of None \<Rightarrow> zero | Some x \<Rightarrow> x)))"

lemma map_sum_Some_iff: "map_sum f Some x = Inr y \<longleftrightarrow> (\<exists>z. x = Inr z \<and> y = Some z)"
  by (cases x) auto

fun dec_elems :: "'a decoder \<Rightarrow> 'a \<Rightarrow> json list \<Rightarrow> error + 'a list" where
  "dec_elems d zero [] = Inr []"
| "dec_elems d zero (j # js) =
     (case d j zero of
        Inl e \<Rightarrow> Inl e
      | Inr x \<Rightarrow> map_sum id (Cons x) (dec_elems d zero js))"

fun dec_slice :: "'a decoder \<Rightarrow> 'a \<Rightarrow> 'a list option decoder" where
  "dec_slice d zero (JArr js) old = map_sum id Some (dec_elems d zero js)"
| "dec_slice d zero JNull old = Inr None"
| "dec_slice d zero _ old = Inl type_error"

text \<open>A slice of which only the length and the elements are read: nil is the empty list.\<close>

definition dec_list :: "'a decoder \<Rightarrow> 'a \<Rightarrow> 'a list decoder" where
  "dec_list d zero j old =
     (case dec_slice d zero j (Some old) of
        Inl e \<Rightarrow> Inl e
      | Inr None \<Rightarrow> Inr []
      | Inr (Some xs) \<Rightarrow> Inr xs)"

type_synonym 'r fields = "(string \<times> 'r decoder) list"

definition field :: "string \<Rightarrow> ('r \<Rightarrow> 'a) \<Rightarrow> (('a \<Rightarrow> 'a) \<Rightarrow> 'r \<Rightarrow> 'r) \<Rightarrow> 'a decoder \<Rightarrow> string \<times> 'r decoder" where
  "field name get upd d =
     (name, \<lambda>j r. (case d j (get r) of Inl e \<Rightarrow> Inl e | Inr x \<Rightarrow> Inr (upd (\<lambda>_. x) r)))"

text \<open>A key selects the field of exactly that name, else the first that differs only in case.\<close>

definition find_field :: "'r fields \<Rightarrow> string \<Rightarrow> 'r decoder option" where
  "find_field fs key =
     (case map_of fs key of
        Some d \<Rightarrow> Some d
      | None \<Rightarrow> map_of (map (\<lambda>(k, d). (fold_name k, d)) fs) (fold_name key))"

fun dec_members :: "'r fields \<Rightarrow> (string \<times> json) list \<Rightarrow> 'r \<Rightarrow> error + 'r" where
  "dec_members fs [] r = Inr r"
| "dec_members fs ((k, j) # ms) r =
     (case find_field fs k of
        None \<Rightarrow> dec_members fs ms r
      | Some d \<Rightarrow> (case d j r of Inl e \<Rightarrow> Inl e | Inr r' \<Rightarrow> dec_members fs ms r'))"

fun dec_struct :: "'r fields \<Rightarrow> 'r decoder" where
  "dec_struct fs (JObj ms) r = dec_members fs ms r"
| "dec_struct fs JNull r = Inr r"
| "dec_struct fs _ r = Inl type_error"

lemma dec_int_JInt: "- (2 ^ 63) \<le> i \<Longrightarrow> i < 2 ^ 63 \<Longrightarrow> dec_int (JInt i) old = Inr i"
  by (simp add: JInt_def)

lemma dec_members_append:
  "dec_members fs (xs @ ys) r =
     (case dec_members fs xs r of Inl e \<Rightarrow> Inl e | Inr r' \<Rightarrow> dec_members fs ys r')"
  by (induction xs arbitrary: r) (auto split: option.splits sum.splits)

text \<open>Keys that no field claims do not change the result.\<close>

lemma dec_members_ignored:
  "\<forall>k \<in> set (map fst ms). find_field fs k = None \<Longrightarrow> dec_members fs ms r = Inr r"
  by (induction ms) auto

end
