(* ===== verification/Go_Bytes.thy ===== *)
theory Go_Bytes
  imports Go_Prelude
begin

unbundle bit_operations_syntax

text \<open>
  Byte strings and what the client uses of encoding/base64, crypto/sha512, crypto/subtle,
  bytes and math/big: standard base64 with its round trip, SHA-512 as FIPS 180-4 defines it,
  \<open>bytes.Replace\<close>, and the conversion between byte strings and big integers.
\<close>

type_synonym bytes = "8 word list"

section \<open>Strings as bytes\<close>

definition bytes_of :: "string \<Rightarrow> bytes" where
  "bytes_of s = map (\<lambda>c. word_of_nat (of_char c)) s"

definition string_of :: "bytes \<Rightarrow> string" where
  "string_of b = map (\<lambda>w. char_of (unat w)) b"

lemma string_of_bytes_of [simp]: "string_of (bytes_of s) = s"
  by (simp add: string_of_def bytes_of_def o_def unat_of_nat take_bit_eq_mod)

lemma length_bytes_of [simp]: "length (bytes_of s) = length s"
  and length_string_of [simp]: "length (string_of b) = length b"
  by (simp_all add: bytes_of_def string_of_def)

lemma unat_byte_less [simp]: "unat (w :: 8 word) < 256"
  using unsigned_less [of w, where 'a = nat] by simp

section \<open>Base64\<close>

definition b64_char :: "nat \<Rightarrow> char" where
  "b64_char n =
     (if n < 26 then char_of (65 + n)
      else if n < 52 then char_of (71 + n)
      else if n < 62 then char_of (n - 4)
      else if n = 62 then CHR ''+'' else CHR ''/'')"

definition b64_value :: "char \<Rightarrow> nat option" where
  "b64_value c =
     (let n = of_char c in
      if 65 \<le> n \<and> n \<le> 90 then Some (n - 65)
      else if 97 \<le> n \<and> n \<le> 122 then Some (n - 71)
      else if 48 \<le> n \<and> n \<le> 57 then Some (n + 4)
      else if n = 43 then Some 62
      else if n = 47 then Some 63
      else None)"

fun b64_encode :: "bytes \<Rightarrow> string" where
  "b64_encode [] = []"
| "b64_encode [a] =
     (let n = unat a * 65536
      in [b64_char (n div 262144), b64_char (n div 4096 mod 64), CHR ''='', CHR ''=''])"
| "b64_encode [a, b] =
     (let n = unat a * 65536 + unat b * 256
      in [b64_char (n div 262144), b64_char (n div 4096 mod 64), b64_char (n div 64 mod 64), CHR ''=''])"
| "b64_encode (a # b # c # r) =
     (let n = unat a * 65536 + unat b * 256 + unat c
      in [b64_char (n div 262144), b64_char (n div 4096 mod 64), b64_char (n div 64 mod 64),
          b64_char (n mod 64)] @ b64_encode r)"

fun b64_quads :: "string \<Rightarrow> bytes option" where
  "b64_quads [] = Some []"
| "b64_quads (p # q # r # s # rest) =
     (case (b64_value p, b64_value q) of
        (Some x, Some y) \<Rightarrow>
          (if r = CHR ''='' then
             (if s = CHR ''='' \<and> rest = [] then Some [word_of_nat ((x * 64 + y) div 16)] else None)
           else
             (case b64_value r of
                None \<Rightarrow> None
              | Some z \<Rightarrow>
                  (if s = CHR ''='' then
                     (if rest = []
                      then Some [word_of_nat ((x * 64 + y) div 16),
                                 word_of_nat (((x * 64 + y) * 64 + z) div 4 mod 256)]
                      else None)
                   else
                     (case b64_value s of
                        None \<Rightarrow> None
                      | Some v \<Rightarrow>
                          (let n = ((x * 64 + y) * 64 + z) * 64 + v
                           in map_option (\<lambda>t. [word_of_nat (n div 65536), word_of_nat (n div 256 mod 256),
                                              word_of_nat (n mod 256)] @ t) (b64_quads rest))))))
      | _ \<Rightarrow> None)"
| "b64_quads _ = None"

text \<open>\<open>DecodeString\<close> skips carriage returns and newlines.\<close>

definition b64_decode :: "string \<Rightarrow> bytes option" where
  "b64_decode s = b64_quads [c \<leftarrow> s. c \<noteq> CHR 0x0D \<and> c \<noteq> CHR 0x0A]"

lemma b64_value_char [simp]: "n < 64 \<Longrightarrow> b64_value (b64_char n) = Some n"
  by (auto simp: b64_value_def b64_char_def Let_def)

lemma of_char_b64_char: "n < 64 \<Longrightarrow> (of_char (b64_char n) :: nat) \<in> {43, 47} \<union> {48..57} \<union> {65..90} \<union> {97..122}"
  by (auto simp: b64_char_def)

lemma b64_char_plain: "n < 64 \<Longrightarrow> b64_char n \<noteq> CHR ''='' \<and> b64_char n \<noteq> CHR 0x0D \<and> b64_char n \<noteq> CHR 0x0A"
  using of_char_b64_char [of n] by auto

lemma byte_of_unat: "unat a * k div k = unat a" if "k > 0" for a :: "8 word" and k :: nat
  using that by simp

lemma split_64:
  fixes n :: nat
  shows "n div 262144 * 64 + n div 4096 mod 64 = n div 4096"
    and "n div 4096 * 64 + n div 64 mod 64 = n div 64"
    and "n div 64 * 64 + n mod 64 = n"
proof -
  have "n div 262144 = n div 4096 div 64" "n div 4096 = n div 64 div 64"
    by (simp_all add: div_mult2_eq [symmetric])
  then show "n div 262144 * 64 + n div 4096 mod 64 = n div 4096"
    "n div 4096 * 64 + n div 64 mod 64 = n div 64" "n div 64 * 64 + n mod 64 = n"
    by simp_all
qed

lemma b64_bytes_bound:
  fixes a b c :: "8 word"
  shows "unat a * 65536 + unat b * 256 + unat c < 16777216"
proof -
  have "unat a < 256" "unat b < 256" "unat c < 256" by simp_all
  then show ?thesis by linarith
qed

lemma b64_sextets_plain:
  fixes n :: nat
  assumes "n < 16777216"
  shows "b64_char (n div 262144) \<notin> {CHR ''='', CHR 0x0D, CHR 0x0A}"
    and "b64_char (n div 4096 mod 64) \<notin> {CHR ''='', CHR 0x0D, CHR 0x0A}"
    and "b64_char (n div 64 mod 64) \<notin> {CHR ''='', CHR 0x0D, CHR 0x0A}"
    and "b64_char (n mod 64) \<notin> {CHR ''='', CHR 0x0D, CHR 0x0A}"
  using assms by (simp_all add: b64_char_plain div_less_iff_less_mult)

lemma b64_encode_no_newline: "[c \<leftarrow> b64_encode b. c \<noteq> CHR 0x0D \<and> c \<noteq> CHR 0x0A] = b64_encode b"
proof (induction b rule: b64_encode.induct)
  case (2 a)
  define n where "n = unat a * 65536"
  have "n < 16777216" using b64_bytes_bound [of a 0 0] by (simp add: n_def)
  then show ?case using b64_sextets_plain [of n] by (simp add: Let_def n_def [symmetric])
next
  case (3 a b)
  define n where "n = unat a * 65536 + unat b * 256"
  have "n < 16777216" using b64_bytes_bound [of a b 0] by (simp add: n_def)
  then show ?case using b64_sextets_plain [of n] by (simp add: Let_def n_def [symmetric])
next
  case (4 a b c r)
  define n where "n = unat a * 65536 + unat b * 256 + unat c"
  have "n < 16777216" using b64_bytes_bound [of a b c] by (simp add: n_def)
  then show ?case using b64_sextets_plain [of n] 4 [OF n_def] by (simp add: Let_def n_def [symmetric])
qed simp

lemma b64_quads_sextets:
  fixes n :: nat
  assumes "n < 16777216"
  shows "b64_quads [b64_char (n div 262144), b64_char (n div 4096 mod 64), CHR ''='', CHR ''=''] =
           Some [word_of_nat (n div 65536)]"
    and "b64_quads [b64_char (n div 262144), b64_char (n div 4096 mod 64),
           b64_char (n div 64 mod 64), CHR ''=''] =
           Some [word_of_nat (n div 65536), word_of_nat (n div 256 mod 256)]"
    and "b64_quads (b64_char (n div 262144) # b64_char (n div 4096 mod 64) #
           b64_char (n div 64 mod 64) # b64_char (n mod 64) # r) =
           map_option (\<lambda>t. [word_of_nat (n div 65536), word_of_nat (n div 256 mod 256),
             word_of_nat (n mod 256)] @ t) (b64_quads r)"
proof -
  have v: "b64_value (b64_char (n div 262144)) = Some (n div 262144)"
    using assms by (intro b64_value_char) simp
  note * = v split_64 [of n] b64_char_plain div_mult2_eq [symmetric]
  show "b64_quads [b64_char (n div 262144), b64_char (n div 4096 mod 64), CHR ''='', CHR ''=''] =
      Some [word_of_nat (n div 65536)]"
    by (simp add: *)
  show "b64_quads [b64_char (n div 262144), b64_char (n div 4096 mod 64),
      b64_char (n div 64 mod 64), CHR ''=''] =
      Some [word_of_nat (n div 65536), word_of_nat (n div 256 mod 256)]"
    by (simp add: *)
  show "b64_quads (b64_char (n div 262144) # b64_char (n div 4096 mod 64) #
      b64_char (n div 64 mod 64) # b64_char (n mod 64) # r) =
      map_option (\<lambda>t. [word_of_nat (n div 65536), word_of_nat (n div 256 mod 256),
        word_of_nat (n mod 256)] @ t) (b64_quads r)"
    by (simp add: * Let_def append.simps [abs_def])
qed

lemma word_of_nat_unat [simp]: "word_of_nat (unat a) = (a :: 8 word)"
  by simp

lemma digits_256:
  fixes x y z :: nat
  assumes "y < 256" "z < 256"
  shows "(x * 65536 + y * 256 + z) div 65536 = x"
    and "(x * 65536 + y * 256 + z) div 256 mod 256 = y"
    and "(x * 65536 + y * 256 + z) mod 256 = z"
proof -
  have e: "x * 65536 + y * 256 + z = z + 256 * (x * 256 + y)" by simp
  have d: "(x * 65536 + y * 256 + z) div 256 = x * 256 + y"
    unfolding e using assms by simp
  have "(x * 65536 + y * 256 + z) div 65536 = (x * 65536 + y * 256 + z) div 256 div 256"
    by (simp only: div_mult2_eq [symmetric]) simp
  then have "(x * 65536 + y * 256 + z) div 65536 = (x * 256 + y) div 256" by (simp only: d)
  then show "(x * 65536 + y * 256 + z) div 65536 = x" using assms by simp
  show "(x * 65536 + y * 256 + z) div 256 mod 256 = y" using assms by (simp only: d) simp
  show "(x * 65536 + y * 256 + z) mod 256 = z" unfolding e mod_mult_self2 using assms by simp
qed

lemma bytes_of_24:
  fixes a b c :: "8 word"
  shows "(unat a * 65536 + unat b * 256 + unat c) div 65536 = unat a"
    and "(unat a * 65536 + unat b * 256 + unat c) div 256 mod 256 = unat b"
    and "(unat a * 65536 + unat b * 256 + unat c) mod 256 = unat c"
  by (simp_all only: digits_256 unat_byte_less)

lemma b64_quads_encode: "b64_quads (b64_encode b) = Some b"
proof (induction b rule: b64_encode.induct)
  case (2 a)
  then show ?case
    using b64_quads_sextets(1) [OF b64_bytes_bound [of a 0 0]] bytes_of_24 [of a 0 0]
    by (simp del: b64_quads.simps add: Let_def)
next
  case (3 a b)
  then show ?case
    using b64_quads_sextets(2) [OF b64_bytes_bound [of a b 0]] bytes_of_24 [of a b 0]
    by (simp del: b64_quads.simps add: Let_def)
next
  case (4 a b c r)
  from 4 [OF refl] show ?case
    by (simp only: b64_encode.simps Let_def append.simps bytes_of_24
        b64_quads_sextets(3) [OF b64_bytes_bound [of a b c]] word_of_nat_unat option.map)
qed simp

lemma b64_decode_encode [simp]: "b64_decode (b64_encode b) = Some b"
  by (simp add: b64_decode_def b64_encode_no_newline b64_quads_encode)

section \<open>SHA-512\<close>

text \<open>
  The constants are the first 64 bits of the fractional parts of the cube roots of the first 80
  primes, and of the square roots of the first 8: \<open>iroot k b n 0\<close> is the integer part of the
  \<open>k\<close>-th root of \<open>n\<close>, found bit by bit.
\<close>

fun iroot :: "nat \<Rightarrow> nat \<Rightarrow> nat \<Rightarrow> nat \<Rightarrow> nat" where
  "iroot k 0 n r = r"
| "iroot k (Suc b) n r = iroot k b n (if (r + 2 ^ b) ^ k \<le> n then r + 2 ^ b else r)"

definition sha512_K :: "64 word list" where
  "sha512_K =
     map (\<lambda>p. word_of_nat (iroot 3 68 (p * 2 ^ 192) 0))
       [p \<leftarrow> [2..<410]. list_all (\<lambda>d. p mod d \<noteq> 0) [2..<p]]"

definition sha512_H0 :: "64 word list" where
  "sha512_H0 = map (\<lambda>p. word_of_nat (iroot 2 68 (p * 2 ^ 128) 0)) [2, 3, 5, 7, 11, 13, 17, 19]"
definition rotr :: "nat \<Rightarrow> 64 word \<Rightarrow> 64 word" where
  "rotr n x = drop_bit n x OR push_bit (64 - n) x"

definition word_of_bytes :: "bytes \<Rightarrow> 64 word" where
  "word_of_bytes bs = foldl (\<lambda>acc b. push_bit 8 acc OR ucast b) 0 bs"

definition bytes_of_word :: "64 word \<Rightarrow> bytes" where
  "bytes_of_word x = map (\<lambda>i. ucast (drop_bit (8 * (7 - i)) x)) [0..<8]"

text \<open>Padding: a one bit, zeros, and the length in bits as a 128-bit integer.\<close>

definition sha512_pad :: "bytes \<Rightarrow> bytes" where
  "sha512_pad m =
     (let n = length m; z = (239 - n mod 128) mod 128
      in m @ [0x80] @ replicate z 0 @ replicate 8 0 @ bytes_of_word (word_of_nat (8 * n)))"

fun sha512_schedule :: "nat \<Rightarrow> 64 word list \<Rightarrow> 64 word list" where
  "sha512_schedule 0 w = w"
| "sha512_schedule (Suc n) w =
     (let t = length w; a = w ! (t - 15); b = w ! (t - 2);
          s0 = rotr 1 a XOR rotr 8 a XOR drop_bit 7 a;
          s1 = rotr 19 b XOR rotr 61 b XOR drop_bit 6 b
      in sha512_schedule n (w @ [w ! (t - 16) + s0 + w ! (t - 7) + s1]))"

fun sha512_round :: "64 word list \<Rightarrow> 64 word \<times> 64 word \<Rightarrow> 64 word list" where
  "sha512_round [a, b, c, d, e, f, g, h] (k, w) =
     (let t1 = h + (rotr 14 e XOR rotr 18 e XOR rotr 41 e) + ((e AND f) XOR (NOT e AND g)) + k + w;
          t2 = (rotr 28 a XOR rotr 34 a XOR rotr 39 a) + ((a AND b) XOR (a AND c) XOR (b AND c))
      in [t1 + t2, a, b, c, d + t1, e, f, g])"
| "sha512_round st _ = st"

definition sha512_block :: "64 word list \<Rightarrow> bytes \<Rightarrow> 64 word list" where
  "sha512_block st block =
     (let w = sha512_schedule 64 (map (\<lambda>i. word_of_bytes (take 8 (drop (8 * i) block))) [0..<16])
      in map2 (+) st (foldl sha512_round st (zip sha512_K w)))"

definition sha512_blocks :: "bytes \<Rightarrow> bytes list" where
  "sha512_blocks m = map (\<lambda>i. take 128 (drop (128 * i) m)) [0..<length m div 128]"

definition Sum512 :: "bytes \<Rightarrow> bytes" where
  "Sum512 m = concat (map bytes_of_word (foldl sha512_block sha512_H0 (sha512_blocks (sha512_pad m))))"

lemma length_sha512_round [simp]: "length (sha512_round st kw) = length st"
  by (induction st kw rule: sha512_round.induct) (simp_all add: Let_def)

lemma length_foldl_round [simp]: "length (foldl sha512_round st kws) = length st"
  by (induction kws arbitrary: st) simp_all

lemma length_sha512_block [simp]: "length (sha512_block st block) = length st"
  by (simp add: sha512_block_def Let_def)

lemma length_foldl_block [simp]: "length (foldl sha512_block st blocks) = length st"
  by (induction blocks arbitrary: st) simp_all

lemma length_concat_const: "(\<And>x. length (f x) = k) \<Longrightarrow> length (concat (map f xs)) = k * length xs"
  by (induction xs) simp_all

lemma length_Sum512 [simp]: "length (Sum512 m) = 64"
  by (simp add: Sum512_def length_concat_const [of bytes_of_word 8] bytes_of_word_def sha512_H0_def)

section \<open>bytes.Replace\<close>

text \<open>The first occurrence of \<open>old\<close>, replaced.\<close>

fun replace_first :: "bytes \<Rightarrow> bytes \<Rightarrow> bytes \<Rightarrow> bytes" where
  "replace_first [] old new = (if old = [] then new else [])"
| "replace_first (x # xs) old new =
     (if take (length old) (x # xs) = old then new @ drop (length old) (x # xs)
      else x # replace_first xs old new)"

lemma length_replace_first:
  "length old = length new \<Longrightarrow> length (replace_first s old new) = length s"
proof (induction s)
  case (Cons x xs)
  then show ?case
    using arg_cong [of "take (length old) (x # xs)" old length] by auto
qed auto

section \<open>Big integers (math/big)\<close>

definition SetBytes :: "bytes \<Rightarrow> int" where
  "SetBytes b = foldl (\<lambda>acc x. 256 * acc + uint x) 0 b"

function be_bytes :: "int \<Rightarrow> bytes" where
  "be_bytes n = (if n \<le> 0 then [] else be_bytes (n div 256) @ [word_of_int (n mod 256)])"
  by pat_completeness auto
termination
  by (relation "measure nat") auto

declare be_bytes.simps [simp del]

text \<open>\<open>Int.Bytes\<close>: the absolute value, big-endian, without leading zeros.\<close>

definition Int_Bytes :: "int \<Rightarrow> bytes" where
  "Int_Bytes n = be_bytes \<bar>n\<bar>"

function BitLen :: "int \<Rightarrow> nat" where
  "BitLen n = (if n = 0 then 0 else Suc (BitLen (\<bar>n\<bar> div 2)))"
  by pat_completeness auto
termination
  by (relation "measure (\<lambda>n. nat \<bar>n\<bar>)") auto

declare BitLen.simps [simp del]

definition Int_Exp :: "int \<Rightarrow> int \<Rightarrow> int \<Rightarrow> int" where
  "Int_Exp x y m = x ^ nat y mod m"

lemma foldl_SetBytes: "foldl (\<lambda>acc x. 256 * acc + uint x) a b = a * 256 ^ length b + SetBytes b"
  for b :: bytes
proof (induction b arbitrary: a)
  case Nil
  then show ?case by (simp add: SetBytes_def)
next
  case (Cons x b)
  have "SetBytes (x # b) = uint x * 256 ^ length b + SetBytes b"
    using Cons [of "uint x"] by (simp add: SetBytes_def)
  with Cons [of "256 * a + uint x"] show ?case by (simp add: algebra_simps)
qed

lemma SetBytes_append: "SetBytes (a @ b) = SetBytes a * 256 ^ length b + SetBytes b"
proof -
  have "SetBytes (a @ b) = foldl (\<lambda>acc x. 256 * acc + uint x) (SetBytes a) b"
    by (simp add: SetBytes_def)
  then show ?thesis by (simp only: foldl_SetBytes)
qed

lemma SetBytes_replicate_0 [simp]: "SetBytes (replicate n 0) = 0"
  by (induction n) (simp_all add: SetBytes_def)

lemma SetBytes_singleton [simp]: "SetBytes [x] = uint x"
  by (simp add: SetBytes_def)

lemma uint_byte_less [simp]: "uint (w :: 8 word) < 256"
  using unsigned_less [of w, where 'a = int] by simp

lemma SetBytes_nonneg [simp]: "0 \<le> SetBytes b"
proof (induction b rule: rev_induct)
  case (snoc x b)
  then show ?case by (simp add: SetBytes_append)
qed (simp add: SetBytes_def)

lemma SetBytes_less: "SetBytes b < 256 ^ length b"
proof (induction b rule: rev_induct)
  case (snoc x b)
  have "uint x < 256" by simp
  moreover have "SetBytes b * 256 \<le> (256 ^ length b - 1) * 256" using snoc by simp
  moreover have "(256 ^ length b - 1) * 256 = 256 ^ length b * 256 - (256 :: int)"
    by (simp add: left_diff_distrib)
  ultimately have "SetBytes b * 256 + uint x < 256 ^ length b * 256" by linarith
  then show ?case by (simp add: SetBytes_append)
qed (simp add: SetBytes_def)

lemma SetBytes_be_bytes: "0 \<le> n \<Longrightarrow> SetBytes (be_bytes n) = n"
proof (induction n rule: be_bytes.induct)
  case (1 n)
  show ?case
  proof (cases "n \<le> 0")
    case True
    with 1 show ?thesis by (simp add: be_bytes.simps [of 0] SetBytes_def)
  next
    case False
    then have "SetBytes (be_bytes (n div 256)) = n div 256" using 1 by simp
    moreover have "uint (word_of_int (n mod 256) :: 8 word) = n mod 256"
      by (simp add: uint_word_of_int)
    ultimately show ?thesis using False by (simp add: be_bytes.simps [of n] SetBytes_append)
  qed
qed

lemma length_be_bytes: "n < 256 ^ k \<Longrightarrow> length (be_bytes n) \<le> k"
proof (induction k arbitrary: n)
  case 0
  then show ?case by (simp add: be_bytes.simps [of n])
next
  case (Suc k)
  show ?case
  proof (cases "n \<le> 0")
    case False
    from Suc.prems have "n div 256 < 256 ^ k" by (simp add: div_less_iff_less_mult)
    from Suc.IH [OF this] False show ?thesis by (simp add: be_bytes.simps [of n])
  qed (simp add: be_bytes.simps [of n])
qed

lemma BitLen_bounds: "0 < n \<Longrightarrow> 2 ^ (BitLen n - 1) \<le> n \<and> n < 2 ^ BitLen n"
proof (induction n rule: BitLen.induct)
  case (1 n)
  show ?case
  proof (cases "n = 1")
    case True
    then show ?thesis by (simp add: BitLen.simps [of 1] BitLen.simps [of 0])
  next
    case False
    with "1.prems" have "2 \<le> n" by simp
    then have "0 < n div 2" by simp
    with 1 have IH: "2 ^ (BitLen (n div 2) - 1) \<le> n div 2" "n div 2 < 2 ^ BitLen (n div 2)" by auto
    have "BitLen (n div 2) \<noteq> 0" using \<open>0 < n div 2\<close> by (simp add: BitLen.simps [of "n div 2"])
    then obtain k where k: "BitLen (n div 2) = Suc k" by (cases "BitLen (n div 2)") auto
    have "BitLen n = Suc (BitLen (n div 2))" using "1.prems" by (simp add: BitLen.simps [of n])
    with IH k show ?thesis by auto
  qed
qed

end
