(* ===== verification/Random_Source.thy ===== *)
theory Random_Source
  imports Go_Bytes Errors
begin

unbundle bit_operations_syntax

text \<open>
  The reader of random bytes and \<open>rand.Int\<close> of crypto/rand.  A reader may end (or fail) after
  some bytes, or deliver bytes for ever, as \<open>rand.Reader\<close> does: it is a lazy list.  Loops over it
  are partial functions, and \<open>None\<close> means that they never end.
\<close>

section \<open>Readers\<close>

codatatype random = Ended | Next (next_byte: "8 word") (later: random)

text \<open>A reader that ends after given bytes, and one that delivers one byte for ever.\<close>

primrec source_of :: "bytes \<Rightarrow> random" where
  "source_of [] = Ended"
| "source_of (b # bs) = Next b (source_of bs)"

primcorec endless :: "8 word \<Rightarrow> random" where
  "endless b = Next b (endless b)"

text \<open>\<open>io.ReadFull\<close> for \<open>k\<close> bytes: what was read, fewer only at the end, and what is left.\<close>

primrec read_full :: "nat \<Rightarrow> random \<Rightarrow> bytes \<times> random" where
  "read_full 0 rd = ([], rd)"
| "read_full (Suc k) rd =
     (case rd of
        Ended \<Rightarrow> ([], Ended)
      | Next b rd1 \<Rightarrow> (case read_full k rd1 of (bs, rd2) \<Rightarrow> (b # bs, rd2)))"

lemma read_full_source: "read_full k (source_of bs) = (take k bs, source_of (drop k bs))"
proof (induction k arbitrary: bs)
  case (Suc k)
  then show ?case by (cases bs) simp_all
qed simp

declare source_of.simps(2) [simp del]

lemma read_full_endless: "read_full k (endless b) = (replicate k b, endless b)"
  by (induction k) (subst endless.code, simp)+

text \<open>The blocks of \<open>k\<close> bytes that successive reads get, and the reader after them.\<close>

definition reader_after :: "nat \<Rightarrow> nat \<Rightarrow> random \<Rightarrow> random" where
  "reader_after k j rd = ((\<lambda>rd. snd (read_full k rd)) ^^ j) rd"

definition block_at :: "nat \<Rightarrow> nat \<Rightarrow> random \<Rightarrow> bytes" where
  "block_at k j rd = fst (read_full k (reader_after k j rd))"

lemma reader_after_simps [simp]: "reader_after k 0 rd = rd" "reader_after k (Suc j) rd = reader_after k j (snd (read_full k rd))"
  by (simp_all add: reader_after_def funpow_swap1 [of "\<lambda>rd. snd (read_full k rd)"])

lemma block_at_simps [simp]: "block_at k 0 rd = fst (read_full k rd)" "block_at k (Suc j) rd = block_at k j (snd (read_full k rd))"
  by (simp_all add: block_at_def)

lemma block_at_endless [simp]: "block_at k j (endless b) = replicate k b"
  by (induction j) (simp_all add: read_full_endless)

lemma length_read_full: "length (fst (read_full k rd)) \<le> k"
  by (induction k arbitrary: rd) (auto split: random.split prod.split simp: prod_eq_iff)

lemma length_block_at: "length (block_at k j rd) \<le> k"
  by (simp add: block_at_def length_read_full)

section \<open>The first block that stops a loop\<close>

inductive picked :: "nat \<Rightarrow> (bytes \<Rightarrow> bool) \<Rightarrow> random \<Rightarrow> bytes \<Rightarrow> random \<Rightarrow> bool" for k stop where
  found: "read_full k rd = (buf, rd1) \<Longrightarrow> stop buf \<Longrightarrow> picked k stop rd buf rd1"
| skips: "read_full k rd = (buf, rd1) \<Longrightarrow> \<not> stop buf \<Longrightarrow> picked k stop rd1 buf' rd' \<Longrightarrow> picked k stop rd buf' rd'"

lemma picked_stops: "picked k stop rd buf rd' \<Longrightarrow> stop buf"
  by (induction rule: picked.induct)

lemma picked_narrow:
  assumes "picked k stop rd buf rd'" and "\<And>b. stop' b \<Longrightarrow> stop b"
  shows "(stop' buf \<longrightarrow> picked k stop' rd buf rd') \<and>
     (\<not> stop' buf \<longrightarrow> picked k stop' rd' buf2 rd2 \<longrightarrow> picked k stop' rd buf2 rd2)"
  using assms(1) by induction (use assms(2) in \<open>blast intro: picked.intros\<close>)+

text \<open>It is the block of the least index that stops the loop.\<close>

lemma picked_index:
  "picked k stop rd buf rd' \<longleftrightarrow>
     (\<exists>j. stop (block_at k j rd) \<and> (\<forall>i<j. \<not> stop (block_at k i rd)) \<and> buf = block_at k j rd \<and> rd' = reader_after k (Suc j) rd)"
proof
  assume "picked k stop rd buf rd'"
  then show "\<exists>j. stop (block_at k j rd) \<and> (\<forall>i<j. \<not> stop (block_at k i rd)) \<and> buf = block_at k j rd \<and> rd' = reader_after k (Suc j) rd"
  proof induction
    case (found rd buf rd1)
    then show ?case by (intro exI [of _ 0]) simp
  next
    case (skips rd buf rd1 buf' rd')
    then obtain j where "stop (block_at k j rd1)" "\<forall>i<j. \<not> stop (block_at k i rd1)" "buf' = block_at k j rd1" "rd' = reader_after k (Suc j) rd1"
      by blast
    with skips show ?case by (intro exI [of _ "Suc j"]) (auto simp: less_Suc_eq_0_disj)
  qed
next
  have "picked k stop rd (block_at k j rd) (reader_after k (Suc j) rd)"
    if "stop (block_at k j rd)" "\<forall>i<j. \<not> stop (block_at k i rd)" for j
    using that
  proof (induction j arbitrary: rd)
    case 0
    then show ?case by (intro picked.found) (simp_all add: prod_eq_iff)
  next
    case (Suc j)
    then have "picked k stop (snd (read_full k rd)) (block_at k j (snd (read_full k rd))) (reader_after k (Suc j) (snd (read_full k rd)))"
      by (metis Suc_less_eq block_at_simps(2))
    moreover have "\<not> stop (fst (read_full k rd))" using Suc.prems(2) by (metis block_at_simps(1) zero_less_Suc)
    ultimately show ?case by (simp add: picked.skips [of k rd "fst (read_full k rd)" "snd (read_full k rd)"])
  qed
  then show "\<exists>j. stop (block_at k j rd) \<and> (\<forall>i<j. \<not> stop (block_at k i rd)) \<and> buf = block_at k j rd \<and> rd' = reader_after k (Suc j) rd \<Longrightarrow>
      picked k stop rd buf rd'" by blast
qed

lemma picked_exists: "(\<exists>buf rd'. picked k stop rd buf rd') \<longleftrightarrow> (\<exists>j. stop (block_at k j rd))"
proof
  assume "\<exists>j. stop (block_at k j rd)"
  then obtain j where "stop (block_at k j rd)" "\<forall>i<j. \<not> stop (block_at k i rd)"
    using exists_least_iff [of "\<lambda>j. stop (block_at k j rd)"] by blast
  then show "\<exists>buf rd'. picked k stop rd buf rd'" unfolding picked_index by blast
qed (auto simp: picked_index)

section \<open>Numbers below a bound\<close>

text \<open>
  \<open>rand.Int\<close>: it reads as many bytes as the bound needs, masks the first
  one, and reads again until the number is below the bound.
\<close>

partial_function (option) rand_read :: "nat \<Rightarrow> nat \<Rightarrow> int \<Rightarrow> random \<Rightarrow> ((error, int) outcome \<times> random) option" where
  "rand_read k b limit rd =
     (case read_full k rd of (buf, rd1) \<Rightarrow>
        if length buf < k then Some (Err (Opaque (if buf = [] then ''EOF'' else ''unexpected EOF'')), rd1)
        else
          (let n = SetBytes (buf[0 := buf ! 0 AND mask b])
           in if n < limit then Some (Ok n, rd1) else rand_read k b limit rd1))"

definition rand_size :: "int \<Rightarrow> nat" where
  "rand_size limit = (BitLen (limit - 1) + 7) div 8"

definition top_bits :: "int \<Rightarrow> nat" where
  "top_bits limit = (let bitLen = BitLen (limit - 1) in if bitLen mod 8 = 0 then 8 else bitLen mod 8)"

definition rand_Int :: "int \<Rightarrow> (random, error, int) prog" where
  "rand_Int limit rd =
     (if limit \<le> 0 then panicP ''crypto/rand: argument to Int is <= 0'' rd
      else if BitLen (limit - 1) = 0 then returnP 0 rd
      else rand_read (rand_size limit) (top_bits limit) limit rd)"

text \<open>The number that a block of bytes stands for.\<close>

definition number_of :: "int \<Rightarrow> bytes \<Rightarrow> int" where
  "number_of limit buf = SetBytes (buf[0 := buf ! 0 AND mask (top_bits limit)])"

lemma rand_read_picked:
  "rand_read k b limit rd = Some (r, rd') \<Longrightarrow>
     \<exists>buf. picked k (\<lambda>buf. length buf < k \<or> SetBytes (buf[0 := buf ! 0 AND mask b]) < limit) rd buf rd' \<and>
       (if length buf < k then \<exists>e. r = Err e else r = Ok (SetBytes (buf[0 := buf ! 0 AND mask b])))"
proof -
  let ?stop = "\<lambda>k b limit buf. length buf < k \<or> SetBytes (buf[0 := buf ! 0 AND mask b]) < limit"
  let ?P = "\<lambda>k b limit rd (r, rd'). \<exists>buf. picked k (?stop k b limit) rd buf rd' \<and>
       (if length buf < k then \<exists>e. r = Err e else r = Ok (SetBytes (buf[0 := buf ! 0 AND mask b])))"
  assume "rand_read k b limit rd = Some (r, rd')"
  then have "?P k b limit rd (r, rd')"
  proof (rule rand_read.raw_induct [where P = ?P, rotated], goal_cases)
    case (1 f k b limit rd y)
    obtain buf rd1 where rd: "read_full k rd = (buf, rd1)" by (cases "read_full k rd")
    note found = picked.found [of k rd buf rd1 "?stop k b limit", OF rd]
    note skips = picked.skips [of k rd buf rd1 "?stop k b limit", OF rd]
    show ?case
    proof (cases "?stop k b limit buf")
      case True
      with 1(2) rd have "snd y = rd1 \<and> (if length buf < k then \<exists>e. fst y = Err e else fst y = Ok (SetBytes (buf[0 := buf ! 0 AND mask b])))"
        by (auto simp: Let_def split: if_splits)
      with found [OF True] show ?thesis by (cases y) auto
    next
      case False
      with 1(2) rd have "f k b limit rd1 = Some y" by (auto simp: Let_def split: if_splits)
      from 1(1) [OF this] skips [OF False] show ?thesis by (cases y) blast
    qed
  qed
  then show ?thesis by simp
qed

lemma rand_Int_unfold:
  assumes "1 < limit" and "read_full (rand_size limit) rd = (buf, rd1)"
  shows "rand_Int limit rd =
     (if length buf < rand_size limit then Some (Err (Opaque (if buf = [] then ''EOF'' else ''unexpected EOF'')), rd1)
      else if number_of limit buf < limit then Some (Ok (number_of limit buf), rd1)
      else rand_Int limit rd1)"
proof -
  have "BitLen (limit - 1) \<noteq> 0" using assms(1) by (subst BitLen.simps) simp
  then have "rand_Int limit = rand_read (rand_size limit) (top_bits limit) limit"
    using assms(1) by (intro ext) (simp add: rand_Int_def)
  then show ?thesis using assms(2) by (simp add: rand_read.simps [of _ _ _ rd] number_of_def Let_def)
qed

lemma rand_Int_picked:
  assumes "1 < limit" and "rand_Int limit rd = Some (r, rd')"
  shows "\<exists>buf. picked (rand_size limit) (\<lambda>buf. length buf < rand_size limit \<or> number_of limit buf < limit) rd buf rd' \<and>
     (if length buf < rand_size limit then \<exists>e. r = Err e else r = Ok (number_of limit buf))"
proof -
  have "BitLen (limit - 1) \<noteq> 0" using assms(1) by (subst BitLen.simps) simp
  with assms show ?thesis unfolding number_of_def by (intro rand_read_picked) (simp add: rand_Int_def)
qed

lemma number_of_nonneg: "0 \<le> number_of limit buf"
  by (simp add: number_of_def)

end
