(* ===== verification/Transport.thy ===== *)
theory Transport
  imports Client Go_Json Random_Source
begin

text \<open>
  The request path of protonmail.go: building a request, sending it with the single
  re-authentication hook on a 401 answer, decoding the answer, and what is logged on the way.

  The state of a call is the client, the state \<open>'w\<close> of the world outside (servers,
  network, clock), a counter that names response bodies and the trace of what the client
  did: requests handed to the HTTP client, response bodies obtained, drained and closed,
  callbacks invoked, records handed to the logger.  \<open>http.Client.Do\<close> and the
  re-authentication callback are the fields of an environment: any functions.  Its other
  fields say how many bytes of a request's body the transport reads, and read the clock
  (nanoseconds) and the random reader, which may end or deliver bytes for ever.
\<close>

section \<open>Headers\<close>

type_synonym header = "string \<rightharpoonup> string list"

definition validHeaderFieldByte :: "char \<Rightarrow> bool" where
  "validHeaderFieldByte c \<longleftrightarrow>
     is_alpha c \<or> is_digit c \<or> c \<in> set ''!#$%&*+-.^_|~'' \<or> char_nat c = 39 \<or> char_nat c = 96"

fun canonical_from :: "bool \<Rightarrow> string \<Rightarrow> string" where
  "canonical_from up [] = []"
| "canonical_from up (c # cs) =
     (if up then ascii_upper c else ascii_lower c) # canonical_from (c = CHR ''-'') cs"

definition CanonicalHeaderKey :: "string \<Rightarrow> string" where
  "CanonicalHeaderKey k = (if list_all validHeaderFieldByte k then canonical_from True k else k)"

definition Header_Set :: "string \<Rightarrow> string \<Rightarrow> header \<Rightarrow> header" where
  "Header_Set k v h = h(CanonicalHeaderKey k \<mapsto> [v])"

definition Header_Get :: "header \<Rightarrow> string \<Rightarrow> string" where
  "Header_Get h k = (case h (CanonicalHeaderKey k) of Some (v # _) \<Rightarrow> v | _ \<Rightarrow> '''')"

lemmas canonical_eval = CanonicalHeaderKey_def validHeaderFieldByte_def is_alpha_def is_digit_def
  char_nat_def ascii_upper_def ascii_lower_def Let_def char_of_def bit_0

lemma canonical_keys [simp]:
  "CanonicalHeaderKey ''Authorization'' = ''Authorization''"
  "CanonicalHeaderKey ''X-Pm-Uid'' = ''X-Pm-Uid''"
  "CanonicalHeaderKey ''x-pm-uid'' = ''X-Pm-Uid''"
  "CanonicalHeaderKey ''X-Pm-Appversion'' = ''X-Pm-Appversion''"
  "CanonicalHeaderKey ''X-Pm-Apiversion'' = ''X-Pm-Apiversion''"
  "CanonicalHeaderKey ''Content-Type'' = ''Content-Type''"
  "CanonicalHeaderKey ''User-Agent'' = ''User-Agent''"
  "CanonicalHeaderKey ''Accept'' = ''Accept''"
  by (simp_all add: canonical_eval)

definition redactedHeaders :: "header \<Rightarrow> header" where
  "redactedHeaders h =
     foldl (\<lambda>out k. if Header_Get out k \<noteq> '''' then Header_Set k ''[REDACTED]'' out else out)
       h [''Authorization'', ''x-pm-uid'', ''X-Pm-Uid'']"

section \<open>Requests, responses and the state of a call\<close>

text \<open>
  \<open>ReqBody\<close> holds the bytes still to be read from the body (\<open>None\<close>: a nil body), and
  \<open>GetBody\<close>, where it is set, what calling it gives.
\<close>

record request =
  Method :: string
  URL :: string
  URLPath :: string
  Header :: header
  ReqBody :: "string option"
  GetBody :: "(error + string) option"

record reply =
  rStatusCode :: int
  rStatus :: string
  rContent :: string

record response = reply +
  bodyId :: nat

datatype attr = AttrS string string | AttrI string int | AttrE string error

datatype level = Debug | Warn

datatype event =
    Sent request
  | BodyOpen nat
  | BodyDrain nat nat
  | BodyClose nat
  | ReAuthCall callback
  | Log level string "attr list"

record ('w, 'k) st =
  cl :: "'k client"
  world :: 'w
  nextBody :: nat
  trace :: "event list"

type_synonym ('w, 'k, 'a) io = "(('w, 'k) st, error, 'a) prog"

record ('w, 'k) env =
  Do :: "request \<Rightarrow> 'w \<Rightarrow> (error + reply) \<times> 'w"
  RunReAuth :: "callback \<Rightarrow> ('w, 'k, unit) io"
  Now :: "'w \<Rightarrow> int"
  Taken :: "request \<Rightarrow> 'w \<Rightarrow> nat"
  RandReader :: "'w \<Rightarrow> random"
  SetRandReader :: "random \<Rightarrow> 'w \<Rightarrow> 'w"

definition emit :: "event list \<Rightarrow> ('w, 'k) st \<Rightarrow> ('w, 'k) st" where
  "emit evs s = s\<lparr>trace := trace s @ evs\<rparr>"

lemma emit_simps [simp]:
  "cl (emit evs s) = cl s" "world (emit evs s) = world s" "nextBody (emit evs s) = nextBody s"
  "trace (emit evs s) = trace s @ evs"
  by (simp_all add: emit_def)

section \<open>Building requests\<close>

datatype body_arg = NilBody | BytesReader string | StreamReader string

definition setRequestAuthorization :: "'k client \<Rightarrow> request \<Rightarrow> request" where
  "setRequestAuthorization c req =
     (if uid c \<noteq> '''' \<and> accessToken c \<noteq> '''' then
        req\<lparr>Header := Header_Set ''Authorization'' (''Bearer '' @ accessToken c)
                        (Header_Set ''X-Pm-Uid'' (uid c) (Header req))\<rparr>
      else req)"

text \<open>
  \<open>http.NewRequestWithContext\<close> fails when the URL does not parse; for a
  \<open>bytes.Reader\<close> it sets \<open>GetBody\<close> too, for a stream it does not.
\<close>

definition http_NewRequest :: "string \<Rightarrow> string \<Rightarrow> body_arg \<Rightarrow> error + request" where
  "http_NewRequest meth u body =
     (case url_parse u of
        None \<Rightarrow> Inl (Opaque ''parse'')
      | Some p \<Rightarrow>
          Inr \<lparr>Method = meth, URL = u, URLPath = Path p, Header = Map.empty,
               ReqBody = (case body of NilBody \<Rightarrow> None | BytesReader b \<Rightarrow> Some b | StreamReader b \<Rightarrow> Some b),
               GetBody = (case body of BytesReader b \<Rightarrow> Some (Inr b) | _ \<Rightarrow> None)\<rparr>)"

definition newRequest :: "string \<Rightarrow> string \<Rightarrow> body_arg \<Rightarrow> ('w, 'k, request) io" where
  "newRequest meth path body s =
     (case http_NewRequest meth (baseURL (cl s) @ path) body of
        Inl e \<Rightarrow> Some (Err e, s)
      | Inr req \<Rightarrow>
          (let s1 = emit [Log Debug ''protonmail: request''
                            [AttrS ''method'' (Method req), AttrS ''path'' (URLPath req)]] s;
               req1 = req\<lparr>Header := Header_Set ''X-Pm-Appversion'' (appVersion (cl s)) (Header req)\<rparr>;
               req2 = req1\<lparr>Header := Header_Set ''X-Pm-Apiversion'' (Itoa APIVersion) (Header req1)\<rparr>
           in Some (Ok (setRequestAuthorization (cl s) req2), s1)))"

definition newJSONRequest :: "string \<Rightarrow> string \<Rightarrow> json \<Rightarrow> ('w, 'k, request) io" where
  "newJSONRequest meth path body =
     (let b = json_encode body in
      bindP (newRequest meth path (BytesReader b)) (\<lambda>req.
      bindP (modifyP (emit [Log Debug ''protonmail: request body prepared''
               [AttrS ''method'' (Method req), AttrS ''path'' (URLPath req),
                AttrI ''bytes'' (int (length b))]])) (\<lambda>_.
      returnP (req\<lparr>Header := Header_Set ''Content-Type'' ''application/json'' (Header req),
                   GetBody := Some (Inr b)\<rparr>))))"

section \<open>Sending requests\<close>

text \<open>
  \<open>http.Client.Do\<close>: the transport reads the request's body, all of it or a part, even when it
  fails, and the reader in \<open>req.Body\<close> keeps only what was not read.  The second result is the
  request as the caller then holds it; the trace keeps it as it was handed over.
\<close>

definition consumed :: "('w, 'k) env \<Rightarrow> 'w \<Rightarrow> request \<Rightarrow> request" where
  "consumed env w req = req\<lparr>ReqBody := map_option (drop (Taken env req w)) (ReqBody req)\<rparr>"

definition send ::
  "('w, 'k) env \<Rightarrow> request \<Rightarrow> ('w, 'k) st \<Rightarrow> (error + response) \<times> request \<times> ('w, 'k) st" where
  "send env req s =
     (case Do env req (world s) of
        (Inl e, w) \<Rightarrow> (Inl e, consumed env (world s) req, emit [Sent req] (s\<lparr>world := w\<rparr>))
      | (Inr rep, w) \<Rightarrow>
          (Inr \<lparr>rStatusCode = rStatusCode rep, rStatus = rStatus rep, rContent = rContent rep,
                bodyId = nextBody s\<rparr>,
           consumed env (world s) req,
           emit [Sent req, BodyOpen (nextBody s)]
             (s\<lparr>world := w, nextBody := Suc (nextBody s)\<rparr>)))"

definition drain_cap :: nat where "drain_cap = 64 * 1024"
definition error_drain_cap :: nat where "error_drain_cap = 1024 * 1024"

text \<open>The argument is the body's name and the bytes still unread; \<open>None\<close> is a nil \<open>ReadCloser\<close>.\<close>

definition drainAndClose :: "(nat \<times> string) option \<Rightarrow> ('w, 'k) st \<Rightarrow> ('w, 'k) st" where
  "drainAndClose rc s =
     (case rc of
        None \<Rightarrow> s
      | Some (n, unread) \<Rightarrow> emit [BodyDrain n (min drain_cap (length unread)), BodyClose n] s)"

text \<open>
  The body of \<open>do\<close> up to its recursive call: either the result of the call, or the request
  to send again.
\<close>

datatype attempt_result = Done "(error, response) outcome" | Again request

definition do_attempt ::
  "('w, 'k) env \<Rightarrow> request \<Rightarrow> ('w, 'k) st \<Rightarrow> (attempt_result \<times> ('w, 'k) st) option" where
  "do_attempt env req0 s =
     (case send env (req0\<lparr>Header := Header_Set ''User-Agent'' (userAgent (cl s)) (Header req0)\<rparr>) s of
        (Inl e, req, s1) \<Rightarrow> Some (Done (Err e), s1)
      | (Inr resp, req, s1) \<Rightarrow>
          (let hasAuth = Header req ''Authorization'' \<noteq> None;
               canRetry = ReqBody req = None \<or> GetBody req \<noteq> None;
               s2 = (if rStatusCode resp = StatusUnauthorized \<and> hasAuth \<and> \<not> canRetry
                     then emit [Log Debug ''protonmail: skipping 401 retry, request body not replayable''
                                  [AttrS ''method'' (Method req), AttrS ''path'' (URLPath req)]] s1
                     else s1)
           in if rStatusCode resp = StatusUnauthorized \<and> hasAuth \<and> reauth (cl s2) \<noteq> None \<and> canRetry then
                (let cb = the (reauth (cl s2));
                     s3 = drainAndClose (Some (bodyId resp, rContent resp)) s2;
                     s4 = emit [ReAuthCall cb] (s3\<lparr>cl := (cl s3)\<lparr>accessToken := ''''\<rparr>\<rparr>)
                 in case RunReAuth env cb s4 of
                      None \<Rightarrow> None
                    | Some (Panic msg, s5) \<Rightarrow> Some (Done (Panic msg), s5)
                    | Some (Err e, s5) \<Rightarrow> Some (Done (Err e), s5)
                    | Some (Ok _, s5) \<Rightarrow>
                        (let req1 = setRequestAuthorization (cl s5) req in
                         if ReqBody req1 \<noteq> None then
                           (case GetBody req1 of
                              None \<Rightarrow> Some (Done (Panic ''nil pointer dereference''), s5)
                            | Some (Inl e) \<Rightarrow> Some (Done (Err e), s5)
                            | Some (Inr b) \<Rightarrow> Some (Again (req1\<lparr>ReqBody := Some b\<rparr>), s5))
                         else Some (Again req1, s5)))
              else Some (Done (Ok resp), s2)))"

text \<open>
  \<open>do\<close>.  The recursion after a re-authentication is the code's own: it has no bound, so
  the function is partial and \<open>None\<close> means that it never returns.
\<close>

partial_function (option) do_request ::
  "('w, 'k) env \<Rightarrow> request \<Rightarrow> ('w, 'k) st \<Rightarrow> ((error, response) outcome \<times> ('w, 'k) st) option" where
  "do_request env req s =
     (case do_attempt env req s of
        None \<Rightarrow> None
      | Some (att, s1) \<Rightarrow>
          (case att of Done r \<Rightarrow> Some (r, s1) | Again req1 \<Rightarrow> do_request env req1 s1))"

section \<open>Responses\<close>

text \<open>
  The envelope every response struct embeds.  \<open>RawAPIError\<close> is an embedded pointer: the
  decoder allocates it as soon as the key \<open>Error\<close> occurs, whatever its value.
\<close>

record resp =
  RespCode :: int
  RawAPIError :: "string option"

definition resp_Err :: "'z resp_scheme \<Rightarrow> error option" where
  "resp_Err r =
     (case RawAPIError r of
        Some msg \<Rightarrow> Some (APIErr (Some \<lparr>Code = RespCode r, Message = msg, HTTPError = None\<rparr>))
      | None \<Rightarrow> None)"

definition resp_fields :: "'z resp_scheme fields" where
  "resp_fields =
     [field ''Code'' RespCode RespCode_update dec_int,
      field ''Error'' RawAPIError RawAPIError_update
        (\<lambda>j old. map_sum id Some (dec_string j (case old of None \<Rightarrow> '''' | Some m \<Rightarrow> m)))]"

definition zero_resp :: resp where
  "zero_resp = \<lparr>RespCode = 0, RawAPIError = None\<rparr>"

text \<open>The body of a non-2xx answer, when it parses as an error envelope with a message.\<close>

definition error_envelope :: "string \<Rightarrow> (int \<times> string) option" where
  "error_envelope body =
     (case json_unmarshal body of
        Inl _ \<Rightarrow> None
      | Inr j \<Rightarrow>
          (case dec_struct resp_fields j zero_resp of
             Inl _ \<Rightarrow> None
           | Inr raw \<Rightarrow>
               (case RawAPIError raw of
                  None \<Rightarrow> None
                | Some msg \<Rightarrow> if msg \<noteq> '''' then Some (RespCode raw, msg) else None)))"

text \<open>
  \<open>doJSON\<close>: \<open>dec\<close> and \<open>zero\<close> say what \<open>respData\<close> is decoded into, and
  \<open>err\<close> is its \<open>Err\<close> method if it has one.  The deferred \<open>Close\<close> is the last
  event of every path that obtained a response.
\<close>

definition doJSON ::
  "('w, 'k) env \<Rightarrow> request \<Rightarrow> 'r decoder \<Rightarrow> 'r \<Rightarrow> ('r \<Rightarrow> error option) option \<Rightarrow> ('w, 'k, 'r) io" where
  "doJSON env req0 dec zero err =
     (let req = req0\<lparr>Header := Header_Set ''Accept'' ''application/json'' (Header req0)\<rparr>;
          about = [AttrS ''method'' (Method req), AttrS ''path'' (URLPath req)] in
      bindP (do_request env req) (\<lambda>httpResp.
        if go_div (rStatusCode httpResp) 100 \<noteq> 2 then
          (let bodyBytes = take drain_cap (rContent httpResp);
               rest = drop drain_cap (rContent httpResp);
               drained = BodyDrain (bodyId httpResp) (min error_drain_cap (length rest));
               httpErr = \<lparr>StatusCode = rStatusCode httpResp, Status = rStatus httpResp, Body = bodyBytes\<rparr>
           in case error_envelope bodyBytes of
                Some (code, msg) \<Rightarrow>
                  bindP (modifyP (emit [drained,
                           Log Debug ''protonmail: api error response''
                             (about @ [AttrI ''status'' (rStatusCode httpResp), AttrI ''api_code'' code,
                                       AttrS ''api_message'' msg]),
                           BodyClose (bodyId httpResp)])) (\<lambda>_.
                  raiseP (APIErr (Some \<lparr>Code = code, Message = msg, HTTPError = Some httpErr\<rparr>)))
              | None \<Rightarrow>
                  bindP (modifyP (emit [drained, BodyClose (bodyId httpResp)])) (\<lambda>_.
                  raiseP (HTTPErr (Some httpErr))))
        else
          (case (case json_decode (rContent httpResp) of Inl e \<Rightarrow> Inl e | Inr j \<Rightarrow> dec j zero) of
             Inl e \<Rightarrow>
               bindP (modifyP (emit [BodyClose (bodyId httpResp)])) (\<lambda>_. raiseP e)
           | Inr respData \<Rightarrow>
               (let ok = Log Debug ''protonmail: response''
                           (about @ [AttrI ''status'' (rStatusCode httpResp)])
                in case (case err of None \<Rightarrow> None | Some f \<Rightarrow> f respData) of
                     Some e \<Rightarrow>
                       bindP (modifyP (emit [ok, Log Debug ''protonmail: request failed''
                                (about @ [AttrE ''error'' e]), BodyClose (bodyId httpResp)])) (\<lambda>_.
                       raiseP e)
                   | None \<Rightarrow>
                       bindP (modifyP (emit [ok, BodyClose (bodyId httpResp)])) (\<lambda>_.
                       returnP respData)))))"

end
