(* ===== verification/Retry.thy ===== *)
theory Retry
  imports Transport
begin

text \<open>
  What holds of \<open>do\<close>: when a request is sent again and in which form, when the call
  returns, and what becomes of the response bodies it obtains.
\<close>

section \<open>Induction over the attempts\<close>

lemma do_request_induct [consumes 1, case_names stop again]:
  assumes run: "do_request env req s = Some (r, s')"
    and stop: "\<And>req s r s'. do_attempt env req s = Some (Done r, s') \<Longrightarrow> P req s r s'"
    and again: "\<And>req s req1 s1 r s'. do_attempt env req s = Some (Again req1, s1) \<Longrightarrow>
                  do_request env req1 s1 = Some (r, s') \<Longrightarrow> P req1 s1 r s' \<Longrightarrow> P req s r s'"
  shows "P req s r s'"
proof -
  have "e = env \<longrightarrow> (case rs of (r, s') \<Rightarrow> do_request e req s = Some rs \<longrightarrow> P req s r s')" if run: "do_request e req s = Some rs" for e req s rs
  proof (rule do_request.raw_induct [where P = "\<lambda>e req s rs. e = env \<longrightarrow> (case rs of (r, s') \<Rightarrow> do_request e req s = Some rs \<longrightarrow> P req s r s')", OF _ run])
    fix f :: "('a, 'b) env \<Rightarrow> request \<Rightarrow> ('a, 'b) st \<Rightarrow> ((error, response) outcome \<times> ('a, 'b) st) option"
    fix e req0 s0 rs0
    assume IH: "\<And>e req s rs. f e req s = Some rs \<Longrightarrow> e = env \<longrightarrow> (case rs of (r, s') \<Rightarrow> do_request e req s = Some rs \<longrightarrow> P req s r s')"
      and step: "(case do_attempt e req0 s0 of None \<Rightarrow> None
        | Some (att, s1) \<Rightarrow> (case att of Done r \<Rightarrow> Some (r, s1) | Again req1 \<Rightarrow> f e req1 s1)) = Some rs0"
    show "e = env \<longrightarrow> (case rs0 of (r, s') \<Rightarrow> do_request e req0 s0 = Some rs0 \<longrightarrow> P req0 s0 r s')" 
    proof (intro impI)
      assume e: "e = env"
      obtain r0 s0' where rs0: "rs0 = (r0, s0')" by (cases rs0)
      obtain att s1 where att: "do_attempt env req0 s0 = Some (att, s1)"
        using step e by (auto split: option.splits)
      have "P req0 s0 r0 s0'" if full: "do_request env req0 s0 = Some rs0"
      proof (cases att)
        case (Done x)
        then show ?thesis using stop [of req0 s0] att step e rs0 by simp
      next
        case (Again req1)
        then have "do_request env req1 s1 = Some (r0, s0')" 
          using full att rs0 by (simp add: do_request.simps [of env req0])
        moreover have "f env req1 s1 = Some rs0" using Again step e att by simp
        ultimately show ?thesis using IH [of env req1 s1 rs0] again [of req0 s0 req1 s1 r0 s0'] Again att rs0
          by simp
      qed
      then show "case rs0 of (r, s') \<Rightarrow> do_request e req0 s0 = Some rs0 \<longrightarrow> P req0 s0 r s'" using rs0 e by simp
    qed
  qed
  with run show ?thesis by fastforce
qed
section \<open>One attempt\<close>

text \<open>Names for what \<open>do\<close> computes before it decides whether to send again.\<close>

definition with_agent :: "('w, 'k) st \<Rightarrow> request \<Rightarrow> request" where
  "with_agent s req = req\<lparr>Header := Header_Set ''User-Agent'' (userAgent (cl s)) (Header req)\<rparr>"

definition replayable :: "request \<Rightarrow> bool" where
  "replayable req \<longleftrightarrow> ReqBody req = None \<or> GetBody req \<noteq> None"

definition may_retry :: "('w, 'k) st \<Rightarrow> request \<Rightarrow> bool" where
  "may_retry s req \<longleftrightarrow> Header req ''Authorization'' \<noteq> None \<and> reauth (cl s) \<noteq> None \<and> replayable req"

definition sent_state :: "request \<Rightarrow> 'w \<Rightarrow> ('w, 'k) st \<Rightarrow> ('w, 'k) st" where
  "sent_state req w s = emit [Sent req, BodyOpen (nextBody s)] (s\<lparr>world := w, nextBody := Suc (nextBody s)\<rparr>)"

definition response_of :: "reply \<Rightarrow> nat \<Rightarrow> response" where
  "response_of rep n = \<lparr>rStatusCode = rStatusCode rep, rStatus = rStatus rep,
     rContent = rContent rep, bodyId = n\<rparr>"

lemma response_of_simps [simp]:
  "rStatusCode (response_of rep n) = rStatusCode rep" "rStatus (response_of rep n) = rStatus rep"
  "rContent (response_of rep n) = rContent rep" "bodyId (response_of rep n) = n"
  by (simp_all add: response_of_def)

text \<open>The state in which the callback runs: body closed, access token forgotten.\<close>

definition reauth_state :: "request \<Rightarrow> reply \<Rightarrow> 'w \<Rightarrow> ('w, 'k) st \<Rightarrow> ('w, 'k) st" where
  "reauth_state req rep w s =
     (let s1 = drainAndClose (Some (nextBody s, rContent rep)) (sent_state req w s)
      in emit [ReAuthCall (the (reauth (cl s)))] (s1\<lparr>cl := (cl s1)\<lparr>accessToken := ''''\<rparr>\<rparr>))"

definition skip_note :: "reply \<Rightarrow> request \<Rightarrow> event list" where
  "skip_note rep req =
     (if rStatusCode rep = StatusUnauthorized \<and> Header req ''Authorization'' \<noteq> None \<and> \<not> replayable req
      then [Log Debug ''protonmail: skipping 401 retry, request body not replayable''
              [AttrS ''method'' (Method req), AttrS ''path'' (URLPath req)]] else [])"

text \<open>What is sent after a callback that succeeded in state \<open>s\<close>.\<close>

definition next_request :: "request \<Rightarrow> ('w, 'k) st \<Rightarrow> attempt_result" where
  "next_request req s =
     (if ReqBody req \<noteq> None then
        (case GetBody req of
           None \<Rightarrow> Done (Panic ''nil pointer dereference'')
         | Some (Inl e) \<Rightarrow> Done (Err e)
         | Some (Inr b) \<Rightarrow> Again ((setRequestAuthorization (cl s) req)\<lparr>ReqBody := Some b\<rparr>))
      else Again (setRequestAuthorization (cl s) req))"

lemma with_agent_simps [simp]:
  "Header (with_agent s req) ''Authorization'' = Header req ''Authorization''"
  "Method (with_agent s req) = Method req" "URLPath (with_agent s req) = URLPath req"
  "URL (with_agent s req) = URL req"
  "ReqBody (with_agent s req) = ReqBody req" "GetBody (with_agent s req) = GetBody req"
  "replayable (with_agent s req) = replayable req" "may_retry t (with_agent s req) = may_retry t req"
  by (simp_all add: with_agent_def Header_Set_def replayable_def may_retry_def)

lemma setRequestAuthorization_simps [simp]:
  "Method (setRequestAuthorization c req) = Method req" "URL (setRequestAuthorization c req) = URL req"
  "URLPath (setRequestAuthorization c req) = URLPath req"
  "ReqBody (setRequestAuthorization c req) = ReqBody req"
  "GetBody (setRequestAuthorization c req) = GetBody req"
  by (simp_all add: setRequestAuthorization_def)

lemma setRequestAuthorization_keeps:
  "Header req ''Authorization'' \<noteq> None \<Longrightarrow>
     Header (setRequestAuthorization c req) ''Authorization'' \<noteq> None"
  by (simp add: setRequestAuthorization_def Header_Set_def)

lemma sent_state_simps [simp]:
  "cl (sent_state req w s) = cl s" "world (sent_state req w s) = w"
  "nextBody (sent_state req w s) = Suc (nextBody s)"
  "trace (sent_state req w s) = trace s @ [Sent req, BodyOpen (nextBody s)]"
  by (simp_all add: sent_state_def)

lemma reauth_state_simps [simp]:
  "cl (reauth_state req rep w s) = (cl s)\<lparr>accessToken := ''''\<rparr>"
  "world (reauth_state req rep w s) = w" "nextBody (reauth_state req rep w s) = Suc (nextBody s)"
  "trace (reauth_state req rep w s) = trace s @ [Sent req, BodyOpen (nextBody s),
     BodyDrain (nextBody s) (min drain_cap (length (rContent rep))), BodyClose (nextBody s),
     ReAuthCall (the (reauth (cl s)))]"
  by (simp_all add: reauth_state_def drainAndClose_def Let_def)

text \<open>What the transport has read of the body makes no difference once the body is taken anew.\<close>

lemma consumed_simps [simp]:
  "Header (consumed env w req) = Header req" "Method (consumed env w req) = Method req"
  "URLPath (consumed env w req) = URLPath req" "URL (consumed env w req) = URL req"
  "GetBody (consumed env w req) = GetBody req" "(ReqBody (consumed env w req) = None) = (ReqBody req = None)"
  by (simp_all add: consumed_def)

lemma next_request_consumed: "next_request (consumed env w req) s = next_request req s"
proof (cases "ReqBody req")
  case None
  then have "consumed env w req = req" by (simp add: consumed_def)
  then show ?thesis by simp
next
  case (Some b)
  then show ?thesis
    by (simp add: next_request_def consumed_def setRequestAuthorization_def split: option.split sum.split)
qed

text \<open>The three ways an attempt goes.\<close>

lemma do_attempt_transport_error:
  assumes "Do env (with_agent s req) (world s) = (Inl e, w)"
  shows "do_attempt env req s = Some (Done (Err e), emit [Sent (with_agent s req)] (s\<lparr>world := w\<rparr>))"
  using assms by (simp add: do_attempt_def send_def with_agent_def Let_def)

lemma send_answer:
  "Do env req (world s) = (Inr rep, w) \<Longrightarrow>
     send env req s = (Inr (response_of rep (nextBody s)), consumed env (world s) req, sent_state req w s)"
  by (simp add: send_def response_of_def sent_state_def)

lemma do_attempt_answer:
  assumes "Do env (with_agent s req) (world s) = (Inr rep, w)"
    and "rStatusCode rep \<noteq> StatusUnauthorized \<or> \<not> may_retry s req"
  shows "do_attempt env req s =
     Some (Done (Ok (response_of rep (nextBody s))),
           emit (skip_note rep (with_agent s req)) (sent_state (with_agent s req) w s))"
  using assms(2) send_answer [OF assms(1)]
  unfolding do_attempt_def with_agent_def [symmetric] Let_def
  by (auto simp: may_retry_def replayable_def skip_note_def emit_def)

lemma do_attempt_retry:
  assumes "Do env (with_agent s req) (world s) = (Inr rep, w)"
    and "rStatusCode rep = StatusUnauthorized" and "may_retry s req"
  shows "do_attempt env req s =
     (case RunReAuth env (the (reauth (cl s))) (reauth_state (with_agent s req) rep w s) of
        None \<Rightarrow> None
      | Some (Panic msg, s5) \<Rightarrow> Some (Done (Panic msg), s5)
      | Some (Err e, s5) \<Rightarrow> Some (Done (Err e), s5)
      | Some (Ok _, s5) \<Rightarrow> Some (next_request (with_agent s req) s5, s5))"
proof -
  let ?req = "consumed env (world s) (with_agent s req)"
  have "Header req ''Authorization'' \<noteq> None" "reauth (cl s) \<noteq> None" "ReqBody ?req = None \<or> GetBody ?req \<noteq> None"
    using assms(3) by (auto simp: may_retry_def replayable_def)
  then have "do_attempt env req s =
     (case RunReAuth env (the (reauth (cl s))) (reauth_state (with_agent s req) rep w s) of
        None \<Rightarrow> None
      | Some (Panic msg, s5) \<Rightarrow> Some (Done (Panic msg), s5)
      | Some (Err e, s5) \<Rightarrow> Some (Done (Err e), s5)
      | Some (Ok _, s5) \<Rightarrow> Some (next_request ?req s5, s5))"
    unfolding do_attempt_def with_agent_def [symmetric] Let_def send_answer [OF assms(1)] next_request_def
    using assms(2)
    by (auto simp: reauth_state_def Let_def simp del: not_None_eq split: option.split outcome.split sum.split prod.split)
  then show ?thesis unfolding next_request_consumed .
qed

lemmas do_attempt_simps = do_attempt_transport_error do_attempt_answer do_attempt_retry

text \<open>An attempt as a case analysis, for inductions.\<close>

lemma do_attempt_cases:
  obtains (transport) e w where "Do env (with_agent s req) (world s) = (Inl e, w)"
  | (answer) rep w where "Do env (with_agent s req) (world s) = (Inr rep, w)"
      "rStatusCode rep \<noteq> StatusUnauthorized \<or> \<not> may_retry s req"
  | (retry) rep w where "Do env (with_agent s req) (world s) = (Inr rep, w)"
      "rStatusCode rep = StatusUnauthorized" "may_retry s req"
  by (cases "Do env (with_agent s req) (world s)"; cases "fst (Do env (with_agent s req) (world s))")
     auto

lemma do_attempt_AgainD:
  assumes "do_attempt env req s = Some (Again req1, s1)"
  obtains rep w where "Do env (with_agent s req) (world s) = (Inr rep, w)"
    "rStatusCode rep = StatusUnauthorized" "may_retry s req"
    "RunReAuth env (the (reauth (cl s))) (reauth_state (with_agent s req) rep w s) = Some (Ok (), s1)"
    "next_request (with_agent s req) s1 = Again req1"
proof (cases rule: do_attempt_cases [of env s req])
  case (retry rep w)
  with assms show ?thesis
    by (intro that [OF retry]) (auto simp: do_attempt_retry split: option.splits outcome.splits prod.splits)
qed (use assms in \<open>auto simp: do_attempt_simps\<close>)

lemma next_request_Again:
  assumes "next_request req s = Again req1"
  shows "replayable req1 \<and> GetBody req1 = GetBody req \<and> Method req1 = Method req \<and> URL req1 = URL req
    \<and> Header req1 = Header (setRequestAuthorization (cl s) req)"
  using assms
  by (auto simp: next_request_def replayable_def split: if_splits option.splits sum.splits)

lemma do_request_single:
  assumes "\<not> may_retry s req"
  shows "do_request env req s =
     (case Do env (with_agent s req) (world s) of
        (Inl e, w) \<Rightarrow> Some (Err e, emit [Sent (with_agent s req)] (s\<lparr>world := w\<rparr>))
      | (Inr rep, w) \<Rightarrow>
          Some (Ok (response_of rep (nextBody s)),
                emit (skip_note rep (with_agent s req)) (sent_state (with_agent s req) w s)))"
  using assms
  by (subst do_request.simps)
     (auto simp: do_attempt_transport_error do_attempt_answer split: prod.split sum.split)

lemma do_request_accepted:
  assumes "Do env (with_agent s req) (world s) = (Inr rep, w)" "rStatusCode rep \<noteq> StatusUnauthorized"
  shows "do_request env req s =
     Some (Ok (response_of rep (nextBody s)), sent_state (with_agent s req) w s)"
  using assms
  by (subst do_request.simps) (simp add: do_attempt_answer skip_note_def emit_def)

section \<open>Retrying\<close>

text \<open>A request as \<open>newRequest\<close> and \<open>newJSONRequest\<close> build it: no body, or one that can be read again.\<close>

definition well_formed_request :: "request \<Rightarrow> bool" where
  "well_formed_request req \<longleftrightarrow>
     (ReqBody req = None \<and> GetBody req = None) \<or>
     (\<exists>b. ReqBody req = Some b \<and> GetBody req = Some (Inr b))"

text \<open>
  C11.  What a retry sends: when an attempt is answered with 401 and the callback succeeds,
  the next request is the same request, with its whole body again however much of it the
  transport has read before, in which only the authorization headers are those of the client
  after the callback.  With a user id and an access token set, they carry that token; without,
  the old ones stay.
\<close>

theorem retry_replays_request:
  assumes "well_formed_request req"
    and "do_attempt env req s = Some (Again req1, s1)"
  shows "req1 = setRequestAuthorization (cl s1) (with_agent s req) \<and>
     ReqBody req1 = ReqBody req \<and> well_formed_request req1 \<and>
     Header req1 ''Authorization'' =
       (if uid (cl s1) \<noteq> '''' \<and> accessToken (cl s1) \<noteq> ''''
        then Some [''Bearer '' @ accessToken (cl s1)] else Header req ''Authorization'')"
proof -
  from assms(2) have "next_request (with_agent s req) s1 = Again req1"
    by (rule do_attempt_AgainD)
  with assms(1) show ?thesis
    by (auto simp: next_request_def well_formed_request_def setRequestAuthorization_def Header_Set_def
        split: if_splits)
qed

text \<open>
  C12.  A body that cannot be read again is never sent again: a request with a streamed body
  goes out exactly once, no callback runs, the client keeps its credentials, and the caller
  gets the answer as it is, a 401 included.
\<close>

theorem stream_body_never_retried:
  assumes "ReqBody req = Some b" and "GetBody req = None"
  shows "\<exists>r s'. do_request env req s = Some (r, s') \<and> cl s' = cl s \<and>
     [e \<leftarrow> trace s'. \<exists>q. e = Sent q] = [e \<leftarrow> trace s. \<exists>q. e = Sent q] @ [Sent (with_agent s req)] \<and>
     [e \<leftarrow> trace s'. \<exists>c. e = ReAuthCall c] = [e \<leftarrow> trace s. \<exists>c. e = ReAuthCall c] \<and>
     (case fst (Do env (with_agent s req) (world s)) of
        Inl e \<Rightarrow> r = Err e | Inr rep \<Rightarrow> r = Ok (response_of rep (nextBody s)))"
proof -
  from assms have "\<not> may_retry s req" by (simp add: may_retry_def replayable_def)
  from do_request_single [OF this, of env] show ?thesis
    by (auto simp: skip_note_def split: prod.splits sum.splits)
qed

section \<open>The answer that is returned\<close>

text \<open>The requests in a trace, in the order they were sent.\<close>

definition requests :: "event list \<Rightarrow> request list" where
  "requests t = concat (map (\<lambda>e. case e of Sent q \<Rightarrow> [q] | _ \<Rightarrow> []) t)"

lemma requests_simps [simp]:
  "requests [] = []" "requests (t @ u) = requests t @ requests u"
  "requests (Sent q # t) = q # requests t" "requests (BodyOpen n # t) = requests t"
  "requests (BodyDrain n k # t) = requests t" "requests (BodyClose n # t) = requests t"
  "requests (ReAuthCall cb # t) = requests t" "requests (Log l m as # t) = requests t"
  by (simp_all add: requests_def)

lemma requests_skip_note [simp]: "requests (skip_note rep req) = []"
  by (simp add: skip_note_def)

text \<open>The answer \<open>do\<close> returns is the one to the request sent last, and no later exchange took place.\<close>

lemma do_request_answer:
  assumes "do_request env req s = Some (r, s')" and "r = Ok resp" and "well_formed_request req"
  shows "\<exists>q w rep. requests (trace s') \<noteq> [] \<and> last (requests (trace s')) = q \<and> Method q = Method req \<and> URL q = URL req \<and>
     ReqBody q = ReqBody req \<and> Do env q w = (Inr rep, world s') \<and> (\<exists>n. resp = response_of rep n)"
  using assms
proof (induction rule: do_request_induct)
  case (stop req s r s')
  show ?case
  proof (cases rule: do_attempt_cases [of env s req])
    case (answer rep w)
    with stop show ?thesis
      by (intro exI [of _ "with_agent s req"] exI [of _ "world s"] exI [of _ rep])
         (auto simp: do_attempt_answer)
  next
    case (retry rep w)
    with stop show ?thesis
      by (auto simp: do_attempt_retry next_request_def split: option.splits outcome.splits if_splits sum.splits)
  qed (use stop in \<open>simp add: do_attempt_transport_error\<close>)
next
  case (again req s req1 s1 r s')
  have "req1 = setRequestAuthorization (cl s1) (with_agent s req) \<and> ReqBody req1 = ReqBody req \<and> well_formed_request req1"
    using again.hyps(1) again.prems(2)
    by (auto elim!: do_attempt_AgainD simp: next_request_def well_formed_request_def setRequestAuthorization_def split: if_splits)
  with again.IH [OF again.prems(1)] show ?case by auto
qed

section \<open>Returning\<close>

text \<open>
  There is no bound on the number of re-authentications.  If the server answers 401 to
  every request with an Authorization header, and the callback (which runs when the access token has
  been forgotten) keeps reporting success as long as some condition P of the state holds that
  requests do not touch, then a request with such a header and a replayable body is sent
  again and again: the call never returns.
\<close>

theorem unbounded_reauthentication:
  assumes unauthorized: "\<And>q w. Header q ''Authorization'' \<noteq> None \<Longrightarrow>
      \<exists>rep w'. Do env q w = (Inr rep, w') \<and> rStatusCode rep = 401"
    and callback: "\<And>cb t. accessToken (cl t) = '''' \<Longrightarrow> P t \<Longrightarrow>
      \<exists>t'. RunReAuth env cb t = Some (Ok (), t') \<and> reauth (cl t') = reauth (cl t) \<and> P t'"
    and P: "\<And>q rep w t. P t \<Longrightarrow> P (reauth_state q rep w t)" "P s"
    and "may_retry s req" and "\<And>e. GetBody req \<noteq> Some (Inl e)"
  shows "do_request env req s = None"
proof (rule ccontr)
  assume "do_request env req s \<noteq> None"
  then obtain r s' where "do_request env req s = Some (r, s')" by auto
  then have "may_retry s req \<longrightarrow> (\<forall>e. GetBody req \<noteq> Some (Inl e)) \<longrightarrow> P s \<longrightarrow> False"
  proof (induction rule: do_request_induct)
    case (stop req s r s')
    show ?case
    proof (intro impI)
      assume may: "may_retry s req" and body: "\<forall>e. GetBody req \<noteq> Some (Inl e)" and Ps: "P s"
      obtain rep w where do: "Do env (with_agent s req) (world s) = (Inr rep, w)"
          "rStatusCode rep = StatusUnauthorized"
        using unauthorized [of "with_agent s req" "world s"] may
        by (auto simp: StatusUnauthorized_def may_retry_def)
      obtain t' where "RunReAuth env (the (reauth (cl s))) (reauth_state (with_agent s req) rep w s)
          = Some (Ok (), t')" using callback [OF _ P(1) [OF Ps]] by fastforce
      then have "next_request (with_agent s req) t' = Done r"
        using stop do_attempt_retry [OF do may] by auto
      then show False using may body
        by (auto simp: next_request_def may_retry_def replayable_def split: if_splits option.splits sum.splits)
    qed
  next
    case (again req s req1 s1 r s')
    from again.hyps(1) obtain rep w where may: "may_retry s req"
      and run: "RunReAuth env (the (reauth (cl s))) (reauth_state (with_agent s req) rep w s) = Some (Ok (), s1)"
      and nxt: "next_request (with_agent s req) s1 = Again req1" by (rule do_attempt_AgainD)
    show ?case
    proof (intro impI)
      assume "may_retry s req" and body: "\<forall>e. GetBody req \<noteq> Some (Inl e)" and Ps: "P s"
      have cb: "reauth (cl s1) = reauth (cl s) \<and> P s1"
        using callback [OF _ P(1) [OF Ps], of "with_agent s req" rep w "the (reauth (cl s))"] run by auto
      then have "may_retry s1 req1"
        using may next_request_Again [OF nxt] setRequestAuthorization_keeps [of "with_agent s req" "cl s1"]
        by (simp add: may_retry_def)
      then show False using again.IH next_request_Again [OF nxt] body cb by simp
    qed
  qed
  with assms(4-6) show False by blast
qed

text \<open>
  C30.  The call returns whenever the server gives up answering 401: if some measure of the
  outside world goes down with every 401 answer and the callback returns without raising
  it, every request has a result.
\<close>

theorem do_request_returns:
  assumes budget: "\<And>q w rep w'. Do env q w = (Inr rep, w') \<Longrightarrow> rStatusCode rep = 401 \<Longrightarrow> m w' < m w"
    and callback: "\<And>cb t. \<exists>r t'. RunReAuth env cb t = Some (r, t') \<and> m (world t') \<le> (m (world t) :: nat)"
  shows "\<exists>r s'. do_request env req s = Some (r, s')"
proof (induction "m (world s)" arbitrary: req s rule: less_induct)
  case less
  show ?case
  proof (cases rule: do_attempt_cases [of env s req])
    case (retry rep w)
    then have smaller: "m w < m (world s)" using budget by (simp add: StatusUnauthorized_def)
    obtain r t where run: "RunReAuth env (the (reauth (cl s))) (reauth_state (with_agent s req) rep w s)
        = Some (r, t)" and "m (world t) \<le> m w"
      using callback [of "the (reauth (cl s))" "reauth_state (with_agent s req) rep w s"] by auto
    then have less_t: "m (world t) < m (world s)" using smaller by simp
    show ?thesis
      by (subst do_request.simps)
         (use do_attempt_retry [OF retry] run less [OF less_t] in
           \<open>auto split: outcome.splits attempt_result.splits\<close>)
  qed (simp_all add: do_request.simps [of env req s] do_attempt_simps)
qed

section \<open>Response bodies\<close>

text \<open>
  Bodies are numbered as they are obtained.  The books are in order when every number handed
  out was opened once, in order, and no body was closed twice; a body that was opened and not
  closed is still open.
\<close>

fun opened :: "event list \<Rightarrow> nat list" where
  "opened [] = []"
| "opened (e # t) = (case e of BodyOpen n \<Rightarrow> n # opened t | _ \<Rightarrow> opened t)"

fun closed :: "event list \<Rightarrow> nat list" where
  "closed [] = []"
| "closed (e # t) = (case e of BodyClose n \<Rightarrow> n # closed t | _ \<Rightarrow> closed t)"

definition books_ok :: "('w, 'k) st \<Rightarrow> bool" where
  "books_ok s \<longleftrightarrow> opened (trace s) = [0..<nextBody s] \<and> distinct (closed (trace s))
     \<and> set (closed (trace s)) \<subseteq> {..<nextBody s}"

definition still_open :: "('w, 'k) st \<Rightarrow> nat set" where
  "still_open s = set (opened (trace s)) - set (closed (trace s))"

lemma opened_append [simp]: "opened (t @ u) = opened t @ opened u"
  by (induction t) (auto split: event.splits)

lemma closed_append [simp]: "closed (t @ u) = closed t @ closed u"
  by (induction t) (auto split: event.splits)

lemma books_cong:
  assumes "opened (trace t) = opened (trace s)" "closed (trace t) = closed (trace s)" "nextBody t = nextBody s"
  shows "books_ok t = books_ok s" "still_open t = still_open s"
  using assms by (simp_all add: books_ok_def still_open_def)

lemma still_open_less: "books_ok s \<Longrightarrow> n \<in> still_open s \<Longrightarrow> n < nextBody s"
  by (auto simp: books_ok_def still_open_def)

lemma books_sent_state:
  assumes "books_ok s"
  shows "books_ok (sent_state q w s)" "still_open (sent_state q w s) = insert (nextBody s) (still_open s)"
  using assms by (auto simp: books_ok_def still_open_def)

lemma books_close:
  assumes "books_ok s" "n \<in> still_open s" "opened evs = []" "closed evs = [n]"
  shows "books_ok (emit evs s)" "still_open (emit evs s) = still_open s - {n}"
  using assms by (auto simp: books_ok_def still_open_def)

lemma books_quiet:
  assumes "opened evs = []" "closed evs = []"
  shows "books_ok (emit evs s) = books_ok s" "still_open (emit evs s) = still_open s"
  using assms by (simp_all add: books_ok_def still_open_def)

lemma books_reauth_state:
  assumes "books_ok s"
  shows "books_ok (reauth_state q rep w s)" "still_open (reauth_state q rep w s) = still_open s"
  using assms by (auto simp: books_ok_def still_open_def)

lemma books_skip_note: "opened (skip_note rep req) = []" "closed (skip_note rep req) = []"
  by (simp_all add: skip_note_def)

text \<open>
  The contract of a re-authentication callback: it leaves the books in order and leaves no
  body open that was closed before.  What the client relies on is proved once under it.
\<close>

locale tidy_env =
  fixes env :: "('w, 'k) env"
  assumes callback_tidy:
    "books_ok s \<Longrightarrow> RunReAuth env cb s = Some (r, s') \<Longrightarrow>
       books_ok s' \<and> still_open s' = still_open s"
begin

lemma attempt_books:
  assumes "do_attempt env req s = Some (att, s')" and "books_ok s"
  shows "books_ok s' \<and>
    (case att of Done (Ok resp) \<Rightarrow> bodyId resp = nextBody s \<and> still_open s' = insert (bodyId resp) (still_open s)
     | _ \<Rightarrow> still_open s' = still_open s)"
proof (cases rule: do_attempt_cases [of env s req])
  case (transport e w)
  with assms show ?thesis
    by (auto simp: do_attempt_transport_error books_ok_def still_open_def)
next
  case (answer rep w)
  with assms show ?thesis
    by (auto simp: do_attempt_answer books_quiet books_skip_note books_sent_state)
next
  case (retry rep w)
  from assms(2) have "books_ok (reauth_state (with_agent s req) rep w s)"
    and "still_open (reauth_state (with_agent s req) rep w s) = still_open s"
    by (rule books_reauth_state)+
  with callback_tidy assms(1) do_attempt_retry [OF retry] show ?thesis
    by (fastforce simp: next_request_def split: option.splits outcome.splits if_splits sum.splits)
qed

lemma request_books:
  assumes "do_request env req s = Some (r, s')" and "books_ok s"
  shows "books_ok s' \<and>
    (case r of Ok resp \<Rightarrow> bodyId resp \<notin> still_open s \<and> still_open s' = insert (bodyId resp) (still_open s)
     | _ \<Rightarrow> still_open s' = still_open s)"
  using assms
proof (induction rule: do_request_induct)
  case (stop req s r s')
  from attempt_books [OF stop] stop show ?case
    by (auto dest: still_open_less split: outcome.splits)
next
  case (again req s req1 s1 r s')
  from attempt_books [OF again.hyps(1) again.prems] again.IH show ?case
    by (auto split: outcome.splits)
qed

lemma doJSON_books:
  assumes "doJSON env req dec zero err s = Some (r, s')" and "books_ok s"
  shows "books_ok s' \<and> still_open s' = still_open s"
proof -
  obtain r1 s1 where run: "do_request env
       (req\<lparr>Header := Header_Set ''Accept'' ''application/json'' (Header req)\<rparr>) s = Some (r1, s1)"
    using assms(1) by (auto simp: doJSON_def Let_def bindP_def split: option.splits)
  note b = request_books [OF run assms(2)]
  show ?thesis
  proof (cases r1)
    case (Ok resp)
    then obtain evs where s': "s' = emit evs s1" and "opened evs = []" and "closed evs = [bodyId resp]"
      using assms(1) run
      by (auto simp: doJSON_def Let_def prog_defs split: if_splits option.splits sum.splits prod.splits)
    then show ?thesis using b Ok books_close [of s1 "bodyId resp" evs] by auto
  qed (use assms(1) run b in \<open>auto simp: doJSON_def Let_def prog_defs\<close>)
qed

end

text \<open>
  No response body leaks and none is closed twice: whatever the server answers and
  whatever is decoded, when \<open>doJSON\<close> returns (with a result, an error or a panic)
  exactly the bodies that were open before are open, as long as the callback keeps the same
  rule.
\<close>

theorem doJSON_closes_bodies:
  assumes "\<And>cb t r t'. books_ok t \<Longrightarrow> RunReAuth env cb t = Some (r, t') \<Longrightarrow>
             books_ok t' \<and> still_open t' = still_open t"
    and "books_ok s" and "doJSON env req dec zero err s = Some (r, s')"
  shows "books_ok s' \<and> still_open s' = still_open s"
  by (rule tidy_env.doJSON_books [OF tidy_env.intro, OF assms(1) assms(3,2)])

end
