(* ===== verification/Replies.thy ===== *)
theory Replies
  imports Retry
begin

text \<open>
  What a caller of \<open>doJSON\<close> gets and what the logger sees: non-2xx answers become typed
  errors that match the sentinels by status, 2xx answers succeed exactly when they decode and
  carry no error envelope, and no log record depends on credentials or payloads.
\<close>

section \<open>doJSON after the answer\<close>

definition accept_json :: "request \<Rightarrow> request" where
  "accept_json req = req\<lparr>Header := Header_Set ''Accept'' ''application/json'' (Header req)\<rparr>"

lemma accept_json_simps [simp]:
  "Method (accept_json req) = Method req" "URLPath (accept_json req) = URLPath req"
  "URL (accept_json req) = URL req"
  "ReqBody (accept_json req) = ReqBody req" "GetBody (accept_json req) = GetBody req"
  "Header (accept_json req) ''Authorization'' = Header req ''Authorization''"
  by (simp_all add: accept_json_def Header_Set_def)

definition about :: "request \<Rightarrow> attr list" where
  "about req = [AttrS ''method'' (Method req), AttrS ''path'' (URLPath req)]"

lemma about_simps [simp]: "about (accept_json req) = about req"
  by (simp add: about_def)

definition http_error_of :: "response \<Rightarrow> http_error" where
  "http_error_of r = \<lparr>StatusCode = rStatusCode r, Status = rStatus r, Body = take drain_cap (rContent r)\<rparr>"

definition decoded :: "'r decoder \<Rightarrow> 'r \<Rightarrow> string \<Rightarrow> error + 'r" where
  "decoded dec zero content = (case json_decode content of Inl e \<Rightarrow> Inl e | Inr j \<Rightarrow> dec j zero)"

definition drained_event :: "response \<Rightarrow> event" where
  "drained_event r = BodyDrain (bodyId r) (min error_drain_cap (length (drop drain_cap (rContent r))))"

lemma doJSON_failed_request:
  "do_request env (accept_json req) s = Some (Err e, s1) \<Longrightarrow>
     doJSON env req dec zero err s = Some (Err e, s1)"
  by (simp add: doJSON_def accept_json_def [symmetric] Let_def bindP_def)

lemma doJSON_bad_status:
  assumes "do_request env (accept_json req) s = Some (Ok r, s1)" and "go_div (rStatusCode r) 100 \<noteq> 2"
  shows "doJSON env req dec zero err s =
     (case error_envelope (take drain_cap (rContent r)) of
        Some (code, msg) \<Rightarrow>
          Some (Err (APIErr (Some \<lparr>Code = code, Message = msg, HTTPError = Some (http_error_of r)\<rparr>)),
                emit [drained_event r,
                      Log Debug ''protonmail: api error response''
                        (about req @ [AttrI ''status'' (rStatusCode r), AttrI ''api_code'' code,
                                      AttrS ''api_message'' msg]),
                      BodyClose (bodyId r)] s1)
      | None \<Rightarrow>
          Some (Err (HTTPErr (Some (http_error_of r))),
                emit [drained_event r, BodyClose (bodyId r)] s1))"
  using assms
  by (simp add: doJSON_def accept_json_def [symmetric] Let_def prog_defs http_error_of_def
      drained_event_def about_def split: option.split prod.split)

lemma doJSON_good_status:
  assumes "do_request env (accept_json req) s = Some (Ok r, s1)" and "go_div (rStatusCode r) 100 = 2"
  shows "doJSON env req dec zero err s =
     (case decoded dec zero (rContent r) of
        Inl e \<Rightarrow> Some (Err e, emit [BodyClose (bodyId r)] s1)
      | Inr x \<Rightarrow>
          (let ok = Log Debug ''protonmail: response'' (about req @ [AttrI ''status'' (rStatusCode r)]) in
           case (case err of None \<Rightarrow> None | Some f \<Rightarrow> f x) of
             Some e \<Rightarrow>
               Some (Err e, emit [ok, Log Debug ''protonmail: request failed''
                                        (about req @ [AttrE ''error'' e]), BodyClose (bodyId r)] s1)
           | None \<Rightarrow> Some (Ok x, emit [ok, BodyClose (bodyId r)] s1)))"
  using assms
  by (auto simp: doJSON_def accept_json_def [symmetric] Let_def prog_defs decoded_def about_def
      split: option.split sum.split)

text \<open>What a call that succeeded has decoded, and from which answer.\<close>

lemma doJSON_OkD:
  assumes "doJSON env req dec zero err s = Some (Ok x, s')" and "well_formed_request req"
  obtains q w rep where "requests (trace s') \<noteq> []" "last (requests (trace s')) = q" "Method q = Method req"
    "URL q = URL req" "ReqBody q = ReqBody req" "Do env q w = (Inr rep, world s')"
    "200 \<le> rStatusCode rep" "rStatusCode rep < 300" "decoded dec zero (rContent rep) = Inr x"
    "case err of None \<Rightarrow> True | Some f \<Rightarrow> f x = None"
proof -
  obtain r1 s1 where run: "do_request env (accept_json req) s = Some (r1, s1)"
    using assms(1) by (auto simp: doJSON_def accept_json_def [symmetric] Let_def bindP_def split: option.splits)
  then obtain resp where r1: "r1 = Ok resp"
    using assms(1) by (cases r1) (auto simp: doJSON_def accept_json_def [symmetric] Let_def bindP_def)
  have "well_formed_request (accept_json req)" using assms(2) by (simp add: well_formed_request_def)
  from do_request_answer [OF run r1 this] obtain q w rep n where
    q: "requests (trace s1) \<noteq> []" "last (requests (trace s1)) = q" "Method q = Method req" "URL q = URL req"
      "ReqBody q = ReqBody req" "Do env q w = (Inr rep, world s1)" and resp: "resp = response_of rep n" by auto
  have good: "go_div (rStatusCode resp) 100 = 2"
  proof (rule ccontr)
    assume bad: "go_div (rStatusCode resp) 100 \<noteq> 2"
    from assms(1) show False
      unfolding doJSON_bad_status [OF run [unfolded r1] bad] by (auto split: option.splits prod.splits)
  qed
  from assms(1) have "world s' = world s1 \<and> requests (trace s') = requests (trace s1) \<and> decoded dec zero (rContent resp) = Inr x \<and>
      (case err of None \<Rightarrow> True | Some f \<Rightarrow> f x = None)"
    unfolding doJSON_good_status [OF run [unfolded r1] good]
    by (auto simp: Let_def split: sum.splits option.splits)
  then show ?thesis using q good resp by (intro that [of q w rep]) (simp_all add: go_div_100)
qed

section \<open>Errors\<close>

text \<open>
  C17.  Every non-2xx answer is a typed error that carries the status and at most 64 KiB of
  the body, whether or not the body is a Proton error envelope, and \<open>errors.Is\<close> works
  uniformly on it: it matches a sentinel exactly when the HTTP status is the one the
  sentinel stands for, or for \<open>ErrUnauthorized\<close> when the envelope's code is 8002 or 401.
  The credentials are left alone.
\<close>

theorem doJSON_error_classification:
  assumes "do_request env (accept_json req) s = Some (Ok r, s1)"
    and "\<not> (200 \<le> rStatusCode r \<and> rStatusCode r < 300)"
  shows "\<exists>e h s'. doJSON env req dec zero err s = Some (Err e, s') \<and> cl s' = cl s1 \<and>
     (e = HTTPErr (Some h) \<or> (\<exists>c m. e = APIErr (Some \<lparr>Code = c, Message = m, HTTPError = Some h\<rparr>))) \<and>
     StatusCode h = rStatusCode r \<and> Body h = take 65536 (rContent r) \<and>
     (\<forall>t. errors_Is e t \<longleftrightarrow>
        sentinel_status t = Some (rStatusCode r) \<or>
        (t = ErrUnauthorized \<and>
         (\<exists>c m. error_envelope (take 65536 (rContent r)) = Some (c, m) \<and> (c = 8002 \<or> c = 401))))"
proof -
  have "go_div (rStatusCode r) 100 \<noteq> 2" using assms(2) by (simp add: go_div_100)
  note run = doJSON_bad_status [OF assms(1) this, of dec zero err]
  have h: "StatusCode (http_error_of r) = rStatusCode r" "Body (http_error_of r) = take 65536 (rContent r)"
    by (simp_all add: http_error_of_def drain_cap_def)
  show ?thesis
  proof (cases "error_envelope (take drain_cap (rContent r))")
    case None
    with run h show ?thesis
      by (intro exI [of _ "HTTPErr (Some (http_error_of r))"] exI [of _ "http_error_of r"])
         (auto simp: HTTPError_Is_status drain_cap_def)
  next
    case (Some p)
    then obtain c m where p: "error_envelope (take drain_cap (rContent r)) = Some (c, m)" by (cases p) auto
    with run h show ?thesis
      by (intro exI [of _ "APIErr (Some \<lparr>Code = c, Message = m, HTTPError = Some (http_error_of r)\<rparr>)"]
            exI [of _ "http_error_of r"])
         (auto simp: HTTPError_Is_status APIError_Is_def status_defs drain_cap_def)
  qed
qed

text \<open>Decoders that leave the error envelope alone, as the fields of every response struct do.\<close>

definition keeps_envelope :: "('z resp_scheme) fields \<Rightarrow> bool" where
  "keeps_envelope fs \<longleftrightarrow>
     (\<forall>(k, d) \<in> set fs. \<forall>j r r'. d j r = Inr r' \<longrightarrow> RawAPIError r' = RawAPIError r)"

lemma find_field_member: "find_field fs k = Some d \<Longrightarrow> \<exists>k'. (k', d) \<in> set fs"
  by (auto simp: find_field_def split: option.splits dest!: map_of_SomeD)

lemma find_field_Error [simp]:
  "find_field (resp_fields @ fs) ''Error'' = Some (\<lambda>j r.
     case map_sum id Some (dec_string j (case RawAPIError r of None \<Rightarrow> '''' | Some m \<Rightarrow> m)) of
       Inl e \<Rightarrow> Inl e | Inr x \<Rightarrow> Inr (r\<lparr>RawAPIError := x\<rparr>))"
  by (simp add: find_field_def resp_fields_def field_def fun_eq_iff)

lemma resp_field_sets_envelope:
  assumes "keeps_envelope fs" and "find_field (resp_fields @ fs) k = Some d" and "d j r = Inr r'"
    and "RawAPIError r \<noteq> None"
  shows "RawAPIError r' \<noteq> None"
proof -
  obtain k' where "(k', d) \<in> set resp_fields \<or> (k', d) \<in> set fs"
    using find_field_member [OF assms(2)] by auto
  then show ?thesis
  proof
    assume "(k', d) \<in> set fs"
    then have "RawAPIError r' = RawAPIError r" using assms(1,3) by (auto simp: keeps_envelope_def)
    with assms(4) show ?thesis by simp
  next
    assume "(k', d) \<in> set resp_fields"
    then show ?thesis using assms(3,4)
      by (auto simp: resp_fields_def field_def split: sum.splits simp: map_sum_Some_iff)
  qed
qed

lemma dec_members_envelope:
  assumes "keeps_envelope fs"
  shows "dec_members (resp_fields @ fs) ms r = Inr r' \<Longrightarrow>
     RawAPIError r \<noteq> None \<or> ''Error'' \<in> set (map fst ms) \<Longrightarrow> RawAPIError r' \<noteq> None"
proof (induction ms arbitrary: r)
  case Nil
  then show ?case by simp
next
  case (Cons kj ms)
  obtain k j where kj: "kj = (k, j)" by (cases kj)
  show ?case
  proof (cases "find_field (resp_fields @ fs) k")
    case None
    then have "k \<noteq> ''Error''" by auto
    with None Cons kj show ?thesis by auto
  next
    case (Some d)
    with Cons.prems kj obtain r1 where r1: "d j r = Inr r1"
      and rest: "dec_members (resp_fields @ fs) ms r1 = Inr r'" by (auto split: sum.splits)
    have "RawAPIError r1 \<noteq> None \<or> ''Error'' \<in> set (map fst ms)"
    proof (cases "k = ''Error''")
      case True
      with Some r1 show ?thesis by (auto split: sum.splits simp: map_sum_Some_iff)
    next
      case False
      with Cons.prems(2) kj resp_field_sets_envelope [OF assms Some r1] show ?thesis by auto
    qed
    with Cons.IH rest show ?thesis by blast
  qed
qed

text \<open>
  C31.  A 2xx answer is a success exactly when it decodes and holds no error envelope; and as
  soon as the object has the key \<open>Error\<close>, whatever its value (a null or an empty string
  too), the call is an error.
\<close>

theorem doJSON_success_iff:
  assumes "do_request env (accept_json req) s = Some (Ok r, s1)"
    and "200 \<le> rStatusCode r \<and> rStatusCode r < 300" and "keeps_envelope fs"
  shows "((\<exists>s'. doJSON env req (dec_struct (resp_fields @ fs)) zero (Some resp_Err) s = Some (Ok x, s')) \<longleftrightarrow>
       (\<exists>j. json_decode (rContent r) = Inr j \<and> dec_struct (resp_fields @ fs) j zero = Inr x \<and> RawAPIError x = None))
    \<and> ((\<exists>ms. json_decode (rContent r) = Inr (JObj ms) \<and> ''Error'' \<in> set (map fst ms)) \<longrightarrow>
       (\<exists>e s'. doJSON env req (dec_struct (resp_fields @ fs)) zero (Some resp_Err) s = Some (Err e, s')))"
proof -
  have "go_div (rStatusCode r) 100 = 2" using assms(2) by (simp add: go_div_100)
  note run = doJSON_good_status [OF assms(1) this, of "dec_struct (resp_fields @ fs)" zero "Some resp_Err"]
  have envelope: "RawAPIError x \<noteq> None"
    if "json_decode (rContent r) = Inr (JObj ms)" "''Error'' \<in> set (map fst ms)"
      "decoded (dec_struct (resp_fields @ fs)) zero (rContent r) = Inr x" for ms x
    using that dec_members_envelope [OF assms(3)] by (fastforce simp: decoded_def)
  show ?thesis
  proof (cases "decoded (dec_struct (resp_fields @ fs)) zero (rContent r)")
    case (Inl e)
    with run show ?thesis by (auto simp: decoded_def split: sum.splits)
  next
    case (Inr y)
    then have dec: "\<exists>j. json_decode (rContent r) = Inr j \<and> dec_struct (resp_fields @ fs) j zero = Inr y"
      by (auto simp: decoded_def split: sum.splits)
    show ?thesis
    proof (cases "RawAPIError y")
      case None
      then have "\<not> (\<exists>ms. json_decode (rContent r) = Inr (JObj ms) \<and> ''Error'' \<in> set (map fst ms))"
        using envelope [OF _ _ Inr] by blast
      with run Inr None dec show ?thesis by (auto simp: resp_Err_def Let_def)
    next
      case (Some m)
      with run Inr dec show ?thesis by (auto simp: resp_Err_def Let_def)
    qed
  qed
qed

section \<open>Logging\<close>

definition log_records :: "event list \<Rightarrow> event list" where
  "log_records t = [e \<leftarrow> t. case e of Log _ _ _ \<Rightarrow> True | _ \<Rightarrow> False]"

lemma log_records_append [simp]: "log_records (t @ u) = log_records t @ log_records u"
  by (simp add: log_records_def)

definition request_log :: "string \<Rightarrow> string \<Rightarrow> nat \<Rightarrow> event list" where
  "request_log meth path n =
     [Log Debug ''protonmail: request'' [AttrS ''method'' meth, AttrS ''path'' path],
      Log Debug ''protonmail: request body prepared''
        [AttrS ''method'' meth, AttrS ''path'' path, AttrI ''bytes'' (int n)]]"

lemma newJSONRequest_Ok:
  assumes "newJSONRequest meth path body s = Some (Ok req, s')"
  shows "\<exists>p. url_parse (baseURL (cl s) @ path) = Some p \<and> Method req = meth \<and> URLPath req = Path p \<and>
     URL req = baseURL (cl s) @ path \<and> s' = emit (request_log meth (Path p) (length (json_encode body))) s \<and>
     well_formed_request req \<and> ReqBody req = Some (json_encode body)"
  using assms
  by (auto simp: newJSONRequest_def newRequest_def http_NewRequest_def prog_defs Let_def request_log_def
      emit_def well_formed_request_def split: option.splits)

text \<open>What is logged of an answer: its status, and code and message of an API error.\<close>

definition answer_log :: "string \<Rightarrow> string \<Rightarrow> int \<Rightarrow> (error, 'a) outcome \<Rightarrow> event list" where
  "answer_log meth path st r =
     (let what = [AttrS ''method'' meth, AttrS ''path'' path];
          response = Log Debug ''protonmail: response'' (what @ [AttrI ''status'' st])
      in case r of
           Ok x \<Rightarrow> [response]
         | Err (APIErr (Some a)) \<Rightarrow>
             (if HTTPError a = None
              then [response, Log Debug ''protonmail: request failed''
                      (what @ [AttrE ''error'' (APIErr (Some \<lparr>Code = Code a, Message = Message a, HTTPError = None\<rparr>))])]
              else [Log Debug ''protonmail: api error response''
                      (what @ [AttrI ''status'' st, AttrI ''api_code'' (Code a), AttrS ''api_message'' (Message a)])])
         | _ \<Rightarrow> [])"

lemma do_request_logs:
  assumes "do_request env req s = Some (r, s')" and "replayable req"
    and "\<And>cb t r t'. RunReAuth env cb t = Some (r, t') \<Longrightarrow> log_records (trace t') = log_records (trace t)"
  shows "log_records (trace s') = log_records (trace s)"
proof -
  have attempt: "log_records (trace s1) = log_records (trace s)"
    if run: "do_attempt env req s = Some (att, s1)" "replayable req" for req s att s1
  proof (cases rule: do_attempt_cases [of env s req])
    case (transport e w)
    with run show ?thesis by (auto simp: do_attempt_transport_error log_records_def)
  next
    case (answer rep w)
    with run show ?thesis by (auto simp: do_attempt_answer skip_note_def log_records_def)
  next
    case (retry rep w)
    then obtain r where "RunReAuth env (the (reauth (cl s))) (reauth_state (with_agent s req) rep w s) = Some (r, s1)"
      using run by (auto simp: do_attempt_retry split: option.splits outcome.splits)
    from assms(3) [OF this] show ?thesis by (simp add: log_records_def)
  qed
  from assms(1,2) show ?thesis
  proof (induction rule: do_request_induct)
    case (again req s req1 s1 r s')
    have "replayable req1" using again.hyps(1) by (auto elim!: do_attempt_AgainD dest: next_request_Again)
    with again attempt show ?case by simp
  qed (rule attempt)
qed

text \<open>
  C32.  What the logger gets from a call with a JSON body, with any number of retries by a
  callback that logs nothing itself and whatever the outcome: two records with the method, the path
  and the length of the body, and of the answer nothing, or its status and, for an API error, its
  code and message.  No header, no credential, no body and no other part of an answer is
  logged.
\<close>

theorem logs_hide_secrets:
  assumes silent: "\<And>cb t r t'. RunReAuth env cb t = Some (r, t') \<Longrightarrow> log_records (trace t') = log_records (trace t)"
    and "url_parse (baseURL (cl s) @ path) = Some p"
    and run: "bindP (newJSONRequest meth path b) (\<lambda>q. doJSON env q dec zero (Some resp_Err)) s = Some (r, s')"
  shows "\<exists>L. log_records (trace s') = log_records (trace s) @ request_log meth (Path p) (length (json_encode b)) @ L \<and>
     (L = [] \<and> (\<forall>x. r \<noteq> Ok x) \<or>
      (\<exists>w rep. Do env (last (requests (trace s'))) w = (Inr rep, world s') \<and> L = answer_log meth (Path p) (rStatusCode rep) r))"
proof -
  obtain req s1 where req: "newJSONRequest meth path b s = Some (Ok req, s1)"
    and call: "doJSON env req dec zero (Some resp_Err) s1 = Some (r, s')"
    using run assms(2) by (auto simp: newJSONRequest_def newRequest_def http_NewRequest_def prog_defs Let_def)
  from newJSONRequest_Ok [OF req] assms(2) have req1: "Method req = meth" "URLPath req = Path p"
    "s1 = emit (request_log meth (Path p) (length (json_encode b))) s" and wf: "well_formed_request req" by auto
  obtain r2 s2 where sent: "do_request env (accept_json req) s1 = Some (r2, s2)"
    using call by (auto simp: doJSON_def accept_json_def [symmetric] Let_def bindP_def split: option.splits)
  have wf': "well_formed_request (accept_json req)" "replayable (accept_json req)"
    using wf by (auto simp: well_formed_request_def replayable_def)
  have logs: "log_records (trace s2) = log_records (trace s) @ request_log meth (Path p) (length (json_encode b))"
    using do_request_logs [OF sent wf'(2) silent] req1(3) by (simp add: log_records_def request_log_def)
  have ab: "about req = [AttrS ''method'' meth, AttrS ''path'' (Path p)]" by (simp add: about_def req1)
  show ?thesis
  proof (cases r2)
    case (Ok resp)
    from do_request_answer [OF sent Ok wf'(1)] obtain w rep n where
      rep: "Do env (last (requests (trace s2))) w = (Inr rep, world s2)" "resp = response_of rep n" by auto
    have "world s' = world s2 \<and> requests (trace s') = requests (trace s2) \<and>
      (\<exists>L. log_records (trace s') = log_records (trace s2) @ L \<and>
         (L = [] \<and> (\<forall>x. r \<noteq> Ok x) \<or> L = answer_log meth (Path p) (rStatusCode rep) r))"
    proof (cases "go_div (rStatusCode resp) 100 = 2")
      case True
      show ?thesis using call rep(2) ab
        unfolding doJSON_good_status [OF sent [unfolded Ok] True]
        by (auto simp: Let_def log_records_def answer_log_def resp_Err_def split: sum.splits option.splits)
    next
      case False
      show ?thesis using call rep(2) ab
        unfolding doJSON_bad_status [OF sent [unfolded Ok] False]
        by (auto simp: Let_def log_records_def answer_log_def drained_event_def http_error_of_def split: option.splits prod.splits)
    qed
    with rep(1) logs show ?thesis by (metis append.assoc)
  next
    case (Err e)
    with call logs sent show ?thesis by (auto simp: doJSON_failed_request)
  next
    case (Panic msg)
    with call logs sent show ?thesis by (auto simp: doJSON_def accept_json_def [symmetric] Let_def bindP_def)
  qed
qed

text \<open>
  \<open>redactedHeaders\<close> hides the two credential headers whenever they have a value, under
  either spelling of the user id header, and changes nothing else.
\<close>

theorem redactedHeaders_spec:
  "redactedHeaders h k =
     (if k \<in> {''Authorization'', ''X-Pm-Uid''} \<and> Header_Get h k \<noteq> '''' then Some [''[REDACTED]'']
      else h k)"
  by (auto simp: redactedHeaders_def Header_Get_def Header_Set_def split: option.splits list.splits)
end
