(* ===== verification/Openpgp.thy ===== *)
theory Openpgp
  imports Go_Bytes Errors
begin

text \<open>
  The packages the client calls and that are not part of it: go-crypto/openpgp with armor and
  clearsign, and go-bcrypt.  Their functions are the fields of a record, an argument of the
  definitions that call them.  An \<open>openpgp.Entity\<close> is what the client reads of it:
  its private key and those of its subkeys (the type \<open>'p\<close>), which may be absent.
\<close>

record 'p entity =
  ePrivateKey :: "'p option"
  eSubkeys :: "'p option list"

record clearsign_block =
  cbBytes :: string
  cbPlaintext :: string
  cbSignature :: string

text \<open>
  A text or byte stream is a string.  \<open>ReadMessage\<close> gives the message and what reading its
  unverified body to the end gives; \<open>priv_Decrypt\<close> the unlocked key.
\<close>

record 'p lib =
  bcryptGenerate :: "bytes \<Rightarrow> int \<Rightarrow> bytes \<Rightarrow> error + bytes"
  clearsign_Decode :: "string \<Rightarrow> clearsign_block option"
  ReadArmoredKeyRing :: "string \<Rightarrow> error + 'p entity list"
  CheckDetachedSignature :: "'p entity list \<Rightarrow> string \<Rightarrow> string \<Rightarrow> error option"
  armor_Decode :: "string \<Rightarrow> error + string"
  ReadMessage :: "string \<Rightarrow> 'p entity list \<Rightarrow> error + (error + string)"
  CheckArmoredDetachedSignature :: "'p entity list \<Rightarrow> string \<Rightarrow> string \<Rightarrow> error option"
  priv_Decrypt :: "bytes \<Rightarrow> 'p \<Rightarrow> error + 'p"

end
