(* ===== verification/Account.thy ===== *)
theory Account
  imports Replies Openpgp
begin

text \<open>
  keys.go, users.go and addresses.go: the account's data, how it is decoded from JSON, the
  entity of an armored key, and the calls that fetch a recipient's public keys, the current user
  and the addresses.  The elements of a Go slice of pointers may be nil: they are options.
\<close>

section \<open>A call of the API\<close>

text \<open>\<open>newRequest\<close> or \<open>newJSONRequest\<close> followed by \<open>doJSON\<close>, as in every endpoint.\<close>

definition get_json ::
  "('w, 'k) env \<Rightarrow> string \<Rightarrow> string \<Rightarrow> 'z resp_scheme fields \<Rightarrow> 'z resp_scheme \<Rightarrow> ('w, 'k, 'z resp_scheme) io" where
  "get_json env meth path fs zero =
     bindP (newRequest meth path NilBody) (\<lambda>req.
     doJSON env req (dec_struct (resp_fields @ fs)) zero (Some resp_Err))"

definition call_json ::
  "('w, 'k) env \<Rightarrow> string \<Rightarrow> string \<Rightarrow> json \<Rightarrow> 'z resp_scheme fields \<Rightarrow> 'z resp_scheme \<Rightarrow> ('w, 'k, 'z resp_scheme) io" where
  "call_json env meth path body fs zero =
     bindP (newJSONRequest meth path body) (\<lambda>req.
     doJSON env req (dec_struct (resp_fields @ fs)) zero (Some resp_Err))"

section \<open>Private keys\<close>

definition PrivateKeyVerify :: int where "PrivateKeyVerify = 1"
definition PrivateKeyEncrypt :: int where "PrivateKeyEncrypt = 2"

record PrivateKey =
  pkID :: string
  pkVersion :: int
  pkFlags :: int
  pkPrivateKey :: string
  pkFingerprint :: string
  pkPrimary :: int
  pkActive :: int
  pkToken :: string
  pkSignature :: string

definition PrivateKey_fields :: "PrivateKey fields" where
  "PrivateKey_fields =
     [field ''ID'' pkID pkID_update dec_string,
      field ''Version'' pkVersion pkVersion_update dec_int,
      field ''Flags'' pkFlags pkFlags_update dec_int,
      field ''PrivateKey'' pkPrivateKey pkPrivateKey_update dec_string,
      field ''Fingerprint'' pkFingerprint pkFingerprint_update dec_string,
      field ''Primary'' pkPrimary pkPrimary_update dec_int,
      field ''Active'' pkActive pkActive_update dec_int,
      field ''Token'' pkToken pkToken_update dec_string,
      field ''Signature'' pkSignature pkSignature_update dec_string]"

definition zero_PrivateKey :: PrivateKey where
  "zero_PrivateKey = \<lparr>pkID = '''', pkVersion = 0, pkFlags = 0, pkPrivateKey = '''', pkFingerprint = '''',
     pkPrimary = 0, pkActive = 0, pkToken = '''', pkSignature = ''''\<rparr>"

definition dec_PrivateKeys :: "PrivateKey option list decoder" where
  "dec_PrivateKeys = dec_list (dec_pointer (dec_struct PrivateKey_fields) zero_PrivateKey) None"

definition PrivateKey_Entity :: "'p lib \<Rightarrow> PrivateKey \<Rightarrow> error + 'p entity" where
  "PrivateKey_Entity lib priv =
     (case ReadArmoredKeyRing lib (pkPrivateKey priv) of
        Inl e \<Rightarrow> Inl (Wrapped ''failed to read private key'' e)
      | Inr [] \<Rightarrow> Inl (Opaque ''private key is empty'')
      | Inr (e # _) \<Rightarrow> Inr e)"

section \<open>Public keys\<close>

definition RecipientInternal :: int where "RecipientInternal = 1"
definition RecipientExternal :: int where "RecipientExternal = 2"

record PublicKey =
  pubSend :: int
  pubPublicKey :: string

record PublicKeyResp =
  RecipientType :: int
  MIMEType :: string
  pkrKeys :: "PublicKey option list"

definition PublicKey_fields :: "PublicKey fields" where
  "PublicKey_fields =
     [field ''Send'' pubSend pubSend_update dec_int,
      field ''PublicKey'' pubPublicKey pubPublicKey_update dec_string]"

definition zero_PublicKey :: PublicKey where
  "zero_PublicKey = \<lparr>pubSend = 0, pubPublicKey = ''''\<rparr>"

definition PublicKeyResp_fields :: "PublicKeyResp fields" where
  "PublicKeyResp_fields =
     [field ''RecipientType'' RecipientType RecipientType_update dec_int,
      field ''MIMEType'' MIMEType MIMEType_update dec_string,
      field ''Keys'' pkrKeys pkrKeys_update
        (dec_list (dec_pointer (dec_struct PublicKey_fields) zero_PublicKey) None)]"

definition zero_PublicKeyResp :: PublicKeyResp where
  "zero_PublicKeyResp = \<lparr>RecipientType = 0, MIMEType = '''', pkrKeys = []\<rparr>"

definition PublicKey_Entity :: "'p lib \<Rightarrow> PublicKey \<Rightarrow> error + 'p entity" where
  "PublicKey_Entity lib pub =
     (case ReadArmoredKeyRing lib (pubPublicKey pub) of
        Inl e \<Rightarrow> Inl (Wrapped ''failed to read public key'' e)
      | Inr [] \<Rightarrow> Inl (Opaque ''public key is empty'')
      | Inr (e # _) \<Rightarrow> Inr e)"

text \<open>
  The fields of an embedded pointer: the decoder allocates it for the first key that names a field of
  it.  Without such a key the pointer stays nil, and \<open>GetPublicKeys\<close> returns nil without an
  error.
\<close>

record keys_resp = resp +
  krPublicKeyResp :: "PublicKeyResp option"

definition embed ::
  "('r \<Rightarrow> 'a option) \<Rightarrow> (('a option \<Rightarrow> 'a option) \<Rightarrow> 'r \<Rightarrow> 'r) \<Rightarrow> 'a \<Rightarrow> 'a fields \<Rightarrow> 'r fields" where
  "embed get upd zero fs =
     map (\<lambda>(k, d). (k, \<lambda>j r.
       case d j (case get r of None \<Rightarrow> zero | Some x \<Rightarrow> x) of
         Inl e \<Rightarrow> Inl e | Inr x \<Rightarrow> Inr (upd (\<lambda>_. Some x) r))) fs"

definition keys_resp_fields :: "keys_resp fields" where
  "keys_resp_fields = embed krPublicKeyResp krPublicKeyResp_update zero_PublicKeyResp PublicKeyResp_fields"

definition zero_keys_resp :: keys_resp where
  "zero_keys_resp = \<lparr>RespCode = 0, RawAPIError = None, krPublicKeyResp = None\<rparr>"

definition GetPublicKeys :: "('w, 'k) env \<Rightarrow> string \<Rightarrow> ('w, 'k, PublicKeyResp option) io" where
  "GetPublicKeys env email =
     bindP (get_json env ''GET'' (''/keys?'' @ ''Email='' @ QueryEscape email) keys_resp_fields zero_keys_resp)
       (\<lambda>respData. returnP (krPublicKeyResp respData))"

section \<open>The user\<close>

record User =
  usrID :: string
  usrName :: string
  UsedSpace :: int
  Currency :: string
  Credit :: int
  MaxSpace :: int
  MaxUpload :: int
  Role :: int
  Private :: int
  Subscribed :: int
  Services :: int
  Delinquent :: int
  usrKeys :: "PrivateKey option list"

definition User_fields :: "User fields" where
  "User_fields =
     [field ''ID'' usrID usrID_update dec_string,
      field ''Name'' usrName usrName_update dec_string,
      field ''UsedSpace'' UsedSpace UsedSpace_update dec_int,
      field ''Currency'' Currency Currency_update dec_string,
      field ''Credit'' Credit Credit_update dec_int,
      field ''MaxSpace'' MaxSpace MaxSpace_update dec_int,
      field ''MaxUpload'' MaxUpload MaxUpload_update dec_int,
      field ''Role'' Role Role_update dec_int,
      field ''Private'' Private Private_update dec_int,
      field ''Subscribed'' Subscribed Subscribed_update dec_int,
      field ''Services'' Services Services_update dec_int,
      field ''Delinquent'' Delinquent Delinquent_update dec_int,
      field ''Keys'' usrKeys usrKeys_update dec_PrivateKeys]"

definition zero_User :: User where
  "zero_User = \<lparr>usrID = '''', usrName = '''', UsedSpace = 0, Currency = '''', Credit = 0, MaxSpace = 0,
     MaxUpload = 0, Role = 0, Private = 0, Subscribed = 0, Services = 0, Delinquent = 0, usrKeys = []\<rparr>"

record user_resp = resp +
  urUser :: "User option"

definition user_resp_fields :: "user_resp fields" where
  "user_resp_fields = [field ''User'' urUser urUser_update (dec_pointer (dec_struct User_fields) zero_User)]"

definition zero_user_resp :: user_resp where
  "zero_user_resp = \<lparr>RespCode = 0, RawAPIError = None, urUser = None\<rparr>"

definition GetCurrentUser :: "('w, 'k) env \<Rightarrow> ('w, 'k, User option) io" where
  "GetCurrentUser env =
     bindP (get_json env ''GET'' ''/users'' user_resp_fields zero_user_resp)
       (\<lambda>respData. returnP (urUser respData))"

section \<open>Addresses\<close>

datatype AddressSend = AddressSendDisabled | AddressSendPrimary | AddressSendSecondary
datatype AddressStatus = AddressDisabled | AddressEnabled
datatype AddressType = AddressOriginal | AddressAlias | AddressCustom

text \<open>The \<open>iota\<close> numbers behind the names; other integers on the wire are kept as they are.\<close>

definition AddressSend_code :: "AddressSend \<Rightarrow> int" where
  "AddressSend_code a = (case a of AddressSendDisabled \<Rightarrow> 0 | AddressSendPrimary \<Rightarrow> 1 | AddressSendSecondary \<Rightarrow> 2)"

definition AddressStatus_code :: "AddressStatus \<Rightarrow> int" where
  "AddressStatus_code a = (case a of AddressDisabled \<Rightarrow> 0 | AddressEnabled \<Rightarrow> 1)"

definition AddressType_code :: "AddressType \<Rightarrow> int" where
  "AddressType_code a = (case a of AddressOriginal \<Rightarrow> 0 | AddressAlias \<Rightarrow> 1 | AddressCustom \<Rightarrow> 2)"

record Address =
  adrID :: string
  DomainID :: string
  adrEmail :: string
  adrSend :: int
  Receive :: int
  adrStatus :: int
  adrType :: int
  Order :: int
  DisplayName :: string
  adrSignature :: string
  HasKeys :: int
  adrKeys :: "PrivateKey option list"

definition Address_fields :: "Address fields" where
  "Address_fields =
     [field ''ID'' adrID adrID_update dec_string,
      field ''DomainID'' DomainID DomainID_update dec_string,
      field ''Email'' adrEmail adrEmail_update dec_string,
      field ''Send'' adrSend adrSend_update dec_int,
      field ''Receive'' Receive Receive_update dec_int,
      field ''Status'' adrStatus adrStatus_update dec_int,
      field ''Type'' adrType adrType_update dec_int,
      field ''Order'' Order Order_update dec_int,
      field ''DisplayName'' DisplayName DisplayName_update dec_string,
      field ''Signature'' adrSignature adrSignature_update dec_string,
      field ''HasKeys'' HasKeys HasKeys_update dec_int,
      field ''Keys'' adrKeys adrKeys_update dec_PrivateKeys]"

definition zero_Address :: Address where
  "zero_Address = \<lparr>adrID = '''', DomainID = '''', adrEmail = '''', adrSend = 0, Receive = 0, adrStatus = 0,
     adrType = 0, Order = 0, DisplayName = '''', adrSignature = '''', HasKeys = 0, adrKeys = []\<rparr>"

record addresses_resp = resp +
  arAddresses :: "Address option list"

definition addresses_resp_fields :: "addresses_resp fields" where
  "addresses_resp_fields =
     [field ''Addresses'' arAddresses arAddresses_update
        (dec_list (dec_pointer (dec_struct Address_fields) zero_Address) None)]"

definition zero_addresses_resp :: addresses_resp where
  "zero_addresses_resp = \<lparr>RespCode = 0, RawAPIError = None, arAddresses = []\<rparr>"

definition ListAddresses :: "('w, 'k) env \<Rightarrow> ('w, 'k, Address option list) io" where
  "ListAddresses env =
     bindP (get_json env ''GET'' ''/addresses'' addresses_resp_fields zero_addresses_resp)
       (\<lambda>respData. returnP (arAddresses respData))"

end
