(* ===== verification/Password.thy ===== *)
theory Password
  imports Go_Bytes Errors
begin

text \<open>
  password.go: the bcrypt hash with the prefix that Proton uses, the expanded hash that the
  SRP handshake starts from, and the password of a private key.  bcrypt is the package
  emersion/go-bcrypt: a function argument (password, cost and salt to a hash or an error).
\<close>

type_synonym bcrypt = "bytes \<Rightarrow> int \<Rightarrow> bytes \<Rightarrow> error + bytes"

definition bcryptCost :: int where
  "bcryptCost = 10"

definition hashBcrypt :: "bcrypt \<Rightarrow> bytes \<Rightarrow> bytes \<Rightarrow> (error, bytes) outcome" where
  "hashBcrypt bcrypt password salt =
     (case bcrypt password bcryptCost salt of
        Inl e \<Rightarrow> Err e
      | Inr hashed \<Rightarrow> Ok (replace_first hashed (bytes_of ''$2a$'') (bytes_of ''$2y$'')))"

definition expandHash :: "bytes \<Rightarrow> bytes" where
  "expandHash b =
     (let expanded = [];
          expanded = expanded @ Sum512 (b @ [0]);
          expanded = expanded @ Sum512 (b @ [1]);
          expanded = expanded @ Sum512 (b @ [2]);
          expanded = expanded @ Sum512 (b @ [3])
      in expanded)"

definition hashPassword :: "bcrypt \<Rightarrow> int \<Rightarrow> bytes \<Rightarrow> bytes \<Rightarrow> bytes \<Rightarrow> (error, bytes) outcome" where
  "hashPassword bcrypt version password salt modulus =
     (if version = 3 \<or> version = 4 then
        (let salt = salt @ bytes_of ''proton'' in
         case hashBcrypt bcrypt password salt of
           Ok hashed \<Rightarrow> Ok (expandHash (hashed @ modulus))
         | Err e \<Rightarrow> Err e
         | Panic msg \<Rightarrow> Panic msg)
      else Err (Opaque ''unsupported auth version''))"

text \<open>\<open>hashed[29:]\<close> panics when the hash is shorter.\<close>

definition computeKeyPassword :: "bcrypt \<Rightarrow> bytes \<Rightarrow> bytes \<Rightarrow> (error, bytes) outcome" where
  "computeKeyPassword bcrypt password salt =
     (case hashBcrypt bcrypt password salt of
        Ok hashed \<Rightarrow>
          (if length hashed < 29 then Panic ''slice bounds out of range'' else Ok (drop 29 hashed))
      | Err e \<Rightarrow> Err e
      | Panic msg \<Rightarrow> Panic msg)"

section \<open>Lengths and layout\<close>

lemma length_expandHash [simp]: "length (expandHash b) = 256"
  by (simp add: expandHash_def)

lemma expandHash_block:
  assumes "i < 4"
  shows "take 64 (drop (64 * i) (expandHash b)) = Sum512 (b @ [word_of_nat i])"
proof -
  from assms consider "i = 0" | "i = 1" | "i = 2" | "i = 3" by linarith
  then show ?thesis by cases (simp_all add: expandHash_def)
qed

text \<open>The bytes from position 4 on do not see the prefix being replaced at the front.\<close>

lemma replace_first_front:
  "replace_first (old @ rest) old new = new @ rest" if "old \<noteq> []"
  using that by (cases old) simp_all

definition bcrypt_format :: "bcrypt \<Rightarrow> bool" where
  "bcrypt_format bcrypt \<longleftrightarrow>
     (\<forall>p c s h. bcrypt p c s = Inr h \<longrightarrow> length h = 60 \<and> take 4 h = bytes_of ''$2a$'')"

lemma hashBcrypt_format:
  assumes "bcrypt_format bcrypt" and "bcrypt p bcryptCost s = Inr h"
  shows "hashBcrypt bcrypt p s = Ok (bytes_of ''$2y$'' @ drop 4 h)" and "length h = 60"
proof -
  from assms have h: "length h = 60" "take 4 h = bytes_of ''$2a$''" by (auto simp: bcrypt_format_def)
  then have "h = bytes_of ''$2a$'' @ drop 4 h" by (metis append_take_drop_id)
  then have "replace_first h (bytes_of ''$2a$'') (bytes_of ''$2y$'') = bytes_of ''$2y$'' @ drop 4 h"
    using replace_first_front [of "bytes_of ''$2a$''" "drop 4 h"] by (simp add: bytes_of_def)
  with assms(2) show "hashBcrypt bcrypt p s = Ok (bytes_of ''$2y$'' @ drop 4 h)"
    by (simp add: hashBcrypt_def)
  show "length h = 60" by (fact h(1))
qed

text \<open>
  C33.  The password hash of versions 3 and 4 is 256 bytes: the SHA-512 digests of the
  bcrypt hash under the salt extended with "proton", with the prefix $2y$, followed by the
  modulus and one of the bytes 0 to 3.  Every other version is refused whatever the password.
\<close>

theorem hashPassword_layout:
  assumes "bcrypt_format bcrypt" and "bcrypt p 10 (salt @ bytes_of ''proton'') = Inr h"
  shows "(version \<in> {3, 4} \<longrightarrow>
       (\<exists>out. hashPassword bcrypt version p salt modulus = Ok out \<and> length out = 256 \<and>
          (\<forall>i < 4. take 64 (drop (64 * i) out) =
             Sum512 (bytes_of ''$2y$'' @ drop 4 h @ modulus @ [word_of_nat i])))) \<and>
     (version \<notin> {3, 4} \<longrightarrow>
       hashPassword bcrypt version p salt modulus = Err (Opaque ''unsupported auth version''))"
  using hashBcrypt_format [of bcrypt p "salt @ bytes_of ''proton''" h] assms expandHash_block
  by (auto simp: hashPassword_def bcryptCost_def Let_def)

text \<open>
  The key password is the bcrypt digest alone: the last 31 of the 60 bytes, so that
  neither the prefix (rewritten or not), nor the cost, nor the salt is part of it; the slice
  never panics, and an error of bcrypt is returned as it is.
\<close>

theorem computeKeyPassword_digest:
  assumes "bcrypt_format bcrypt"
  shows "computeKeyPassword bcrypt p salt =
     (case bcrypt p 10 salt of Inl e \<Rightarrow> Err e | Inr h \<Rightarrow> Ok (drop 29 h)) \<and>
     (\<forall>out. computeKeyPassword bcrypt p salt = Ok out \<longrightarrow> length out = 31)"
proof (cases "bcrypt p 10 salt")
  case (Inl e)
  then show ?thesis by (simp add: computeKeyPassword_def hashBcrypt_def bcryptCost_def)
next
  case (Inr h)
  with hashBcrypt_format [OF assms, of p salt h] show ?thesis
    by (simp add: computeKeyPassword_def bcryptCost_def)
qed

section \<open>Witnesses\<close>

definition toy_bcrypt :: bcrypt where
  "toy_bcrypt p c s =
     (if length s = 0 then Inl (Opaque ''bcrypt: invalid salt length'')
      else Inr (take 60 (bytes_of ''$2a$10$'' @ s @ p @ replicate 60 0)))"

lemma toy_bcrypt_format: "bcrypt_format toy_bcrypt"
  by (auto simp: bcrypt_format_def toy_bcrypt_def bytes_of_def)

lemma hashPassword_layout_witness:
  "\<exists>out. hashPassword toy_bcrypt 4 (bytes_of ''pw'') (bytes_of ''salt'') [1, 2] = Ok out \<and> length out = 256"
  using hashPassword_layout [OF toy_bcrypt_format, of "bytes_of ''pw''" "bytes_of ''salt''" _ 4 "[1, 2]"]
  by (auto simp: toy_bcrypt_def)

lemma computeKeyPassword_digest_witness:
  "computeKeyPassword toy_bcrypt (bytes_of ''pw'') (replicate 22 7) =
     Ok (bytes_of ''pw'' @ replicate 29 0)"
  using computeKeyPassword_digest [OF toy_bcrypt_format, of "bytes_of ''pw''" "replicate 22 7"]
  by (simp add: toy_bcrypt_def bytes_of_def)

end
