(* ===== verification/Srp.thy ===== *)
theory Srp
  imports Password Openpgp Random_Source
begin

unbundle bit_operations_syntax

text \<open>
  srp.go: the Secure Remote Password handshake.  Little-endian numbers (\<open>itoa\<close>,
  \<open>atoi\<close>), the client's side of the protocol (\<open>generateProofs\<close>), the check of the
  server's proof, and \<open>srp\<close>, which prepares the inputs.

  \<open>randReader\<close> may end or deliver bytes for ever, so the loops that draw the secret are partial
  functions, and whether they end is a theorem of its own.  The packages openpgp and clearsign
  are the fields of a record of functions.
\<close>

section \<open>Little-endian integers\<close>

definition reverse_step :: "bytes \<Rightarrow> nat \<Rightarrow> bytes" where
  "reverse_step b i = (let j = length b - 1 - i in b[i := b ! j, j := b ! i])"

definition reverse :: "bytes \<Rightarrow> bytes" where
  "reverse b = foldl reverse_step b [0..<length b div 2]"

text \<open>\<open>make([]byte, n)\<close> panics when \<open>n\<close> is negative.\<close>

definition itoa :: "int \<Rightarrow> int \<Rightarrow> (error, bytes) outcome" where
  "itoa i l =
     (let b = reverse (Int_Bytes i); n = go_div l 8 - int (length b)
      in if n < 0 then Panic ''makeslice: len out of range'' else Ok (b @ replicate (nat n) 0))"

definition atoi :: "bytes \<Rightarrow> int" where
  "atoi b = SetBytes (reverse b)"

lemma length_reverse_step [simp]: "length (reverse_step b i) = length b"
  by (simp add: reverse_step_def Let_def)

lemma length_foldl_reverse_step [simp]: "length (foldl reverse_step b is) = length b"
  by (induction "is" arbitrary: b) simp_all

lemma reverse_prefix:
  assumes "2 * n \<le> length b" and "i < length b"
  shows "foldl reverse_step b [0..<n] ! i =
     (if i < n \<or> length b - n \<le> i then b ! (length b - 1 - i) else b ! i)"
  using assms
proof (induction n arbitrary: i)
  case (Suc n)
  define c where "c = foldl reverse_step b [0..<n]"
  have len: "length c = length b" by (simp add: c_def)
  have get: "c ! k = (if k < n \<or> length b - n \<le> k then b ! (length b - 1 - k) else b ! k)"
    if "k < length b" for k
    using Suc.IH [OF _ that] Suc.prems(1) by (simp add: c_def)
  have "foldl reverse_step b [0..<Suc n] ! i = reverse_step c n ! i" by (simp add: c_def)
  also have "\<dots> = (if i = length b - 1 - n then c ! n else if i = n then c ! (length b - 1 - n) else c ! i)"
    using Suc.prems len by (simp add: reverse_step_def Let_def nth_list_update)
  also have "\<dots> = (if i < Suc n \<or> length b - Suc n \<le> i then b ! (length b - 1 - i) else b ! i)"
  proof -
    consider "i = length b - 1 - n" | "i = n" "i \<noteq> length b - 1 - n" | "i \<noteq> n" "i \<noteq> length b - 1 - n" by blast
    then show ?thesis
    proof cases
      case 1
      then have "length b - 1 - i = n" "\<not> length b - n \<le> n" "n < length b" using Suc.prems by arith+
      with 1 get [of n] Suc.prems show ?thesis by simp
    next
      case 2
      have "\<not> (length b - 1 - n < n \<or> length b - n \<le> length b - 1 - n)" using Suc.prems by arith
      with 2 show ?thesis using get [of "length b - 1 - n"] Suc.prems by simp
    next
      case 3
      then have "(i < Suc n \<or> length b - Suc n \<le> i) = (i < n \<or> length b - n \<le> i)"
        using Suc.prems by auto
      with 3 get [OF Suc.prems(2)] show ?thesis by simp
    qed
  qed
  finally show ?case .
qed simp

text \<open>The loop that swaps the ends reverses the slice.\<close>

lemma reverse_rev: "reverse b = rev b"
proof (rule nth_equalityI)
  fix i
  assume i: "i < length (reverse b)"
  then have "i < length b" by (simp add: reverse_def)
  moreover have "b ! i = b ! (length b - 1 - i)"
    if "\<not> (i < length b div 2 \<or> length b - length b div 2 \<le> i)"
  proof -
    from that have "i = length b - 1 - i" by linarith
    then show ?thesis by simp
  qed
  ultimately show "reverse b ! i = rev b ! i"
    using reverse_prefix [of "length b div 2" b i] by (auto simp: reverse_def rev_nth)
qed (simp add: reverse_def)

lemma SetBytes_replicate_append [simp]: "SetBytes (replicate n 0 @ b) = SetBytes b"
  by (simp add: SetBytes_append)

lemma go_div_8: "0 \<le> l \<Longrightarrow> go_div l 8 = l div 8"
  by (cases "l = 0") (simp_all add: go_div_def)

lemma itoa_Ok:
  assumes "0 \<le> i" "i < 256 ^ n" "l = 8 * int n"
  shows "\<exists>b. itoa i l = Ok b \<and> length b = n \<and> atoi b = i"
proof -
  have "length (be_bytes i) \<le> n" using assms(2) by (rule length_be_bytes)
  with assms show ?thesis
    by (simp add: itoa_def go_div_8 Let_def reverse_rev Int_Bytes_def atoi_def SetBytes_be_bytes)
qed

lemma atoi_bounds: "0 \<le> atoi b" "atoi b < 256 ^ length b"
  using SetBytes_less [of "rev b"] by (simp_all add: atoi_def reverse_rev)

section \<open>The client's proofs\<close>

record proofs =
  clientEphemeral :: bytes
  clientProof :: bytes
  expectedServerProof :: bytes

definition generator :: int where
  "generator = 2"

text \<open>The two nested loops that pick the secret.\<close>

partial_function (option) draw_secret :: "int \<Rightarrow> int \<Rightarrow> random \<Rightarrow> ((error, int) outcome \<times> random) option" where
  "draw_secret modulusMinusOne l rd =
     (case rand_Int modulusMinusOne rd of
        None \<Rightarrow> None
      | Some (r, rd1) \<Rightarrow>
          (case r of
             Ok clientSecret \<Rightarrow>
               (if clientSecret \<le> l * 2 then draw_secret modulusMinusOne l rd1
                else Some (Ok clientSecret, rd1))
           | Err e \<Rightarrow> Some (Err e, rd1)
           | Panic msg \<Rightarrow> Some (Panic msg, rd1)))"

definition scrambling :: "(bytes \<Rightarrow> bytes) \<Rightarrow> int \<Rightarrow> int \<Rightarrow> int \<Rightarrow> (error, int) outcome" where
  "scrambling hash l A B =
     bindO (itoa A l) (\<lambda>a.
     bindO (itoa B l) (\<lambda>b.
     Ok (atoi (hash (a @ b)))))"

partial_function (option) pick_ephemeral ::
  "(bytes \<Rightarrow> bytes) \<Rightarrow> int \<Rightarrow> int \<Rightarrow> int \<Rightarrow> random \<Rightarrow> ((error, int \<times> int \<times> int) outcome \<times> random) option" where
  "pick_ephemeral hash l modulus serverEphemeral rd =
     (case draw_secret (modulus - 1) l rd of
        None \<Rightarrow> None
      | Some (r, rd1) \<Rightarrow>
          (case r of
             Err e \<Rightarrow> Some (Err e, rd1)
           | Panic msg \<Rightarrow> Some (Panic msg, rd1)
           | Ok clientSecret \<Rightarrow>
               (case scrambling hash l (Int_Exp generator clientSecret modulus) serverEphemeral of
                  Err e \<Rightarrow> Some (Err e, rd1)
                | Panic msg \<Rightarrow> Some (Panic msg, rd1)
                | Ok scramblingParam \<Rightarrow>
                    (if scramblingParam = 0 then pick_ephemeral hash l modulus serverEphemeral rd1
                     else Some (Ok (clientSecret, Int_Exp generator clientSecret modulus, scramblingParam),
                                rd1)))))"

definition generateProofs ::
  "int \<Rightarrow> (bytes \<Rightarrow> bytes) \<Rightarrow> bytes \<Rightarrow> bytes \<Rightarrow> bytes \<Rightarrow> (random, error, proofs) prog" where
  "generateProofs l hash modulusBytes hashedBytes serverEphemeralBytes =
     bindP (liftP (itoa generator l)) (\<lambda>g.
     let multiplier = atoi (hash (g @ modulusBytes));
         modulus = atoi modulusBytes;
         hashed = atoi hashedBytes;
         serverEphemeral = atoi serverEphemeralBytes;
         modulusMinusOne = modulus - 1
     in if int (BitLen modulus) \<noteq> l then raiseP (Opaque ''SRP modulus has incorrect size'')
     else if modulus = 0 then panicP ''division by zero''
     else
       let multiplier = multiplier mod modulus in
       if multiplier \<le> 1 \<or> multiplier \<ge> modulusMinusOne then
         raiseP (Opaque ''SRP multiplier is out of bounds'')
       else if generator \<le> 1 \<or> generator \<ge> modulusMinusOne then
         raiseP (Opaque ''SRP generator is out of bounds'')
       else if serverEphemeral \<le> 1 \<or> serverEphemeral \<ge> modulusMinusOne then
         raiseP (Opaque ''SRP server ephemeral is out of bounds'')
       else
         bindP (pick_ephemeral hash l modulus serverEphemeral)
           (\<lambda>(clientSecret, clientEphemeral, scramblingParam).
         let subtracted = serverEphemeral - Int_Exp generator hashed modulus * multiplier mod modulus;
             subtracted = (if subtracted < 0 then subtracted + modulus else subtracted);
             exponent = (scramblingParam * hashed + clientSecret) mod modulusMinusOne;
             sharedSession = Int_Exp subtracted exponent modulus
         in bindP (liftP (itoa clientEphemeral l)) (\<lambda>a.
            bindP (liftP (itoa serverEphemeral l)) (\<lambda>b.
            bindP (liftP (itoa sharedSession l)) (\<lambda>k.
            let clientProof = hash (a @ b @ k);
                serverProof = hash (a @ clientProof @ k)
            in returnP \<lparr>clientEphemeral = a, clientProof = clientProof,
                        expectedServerProof = serverProof\<rparr>)))))"

text \<open>\<open>ConstantTimeCompare\<close> of crypto/subtle: the differences of all bytes, gathered.\<close>

definition ConstantTimeCompare :: "bytes \<Rightarrow> bytes \<Rightarrow> int" where
  "ConstantTimeCompare x y =
     (if length x \<noteq> length y then 0
      else if foldl (\<lambda>v (a, b). v OR (a XOR b)) 0 (zip x y) = 0 then 1 else 0)"

definition VerifyServerProof :: "proofs \<Rightarrow> string \<Rightarrow> error option" where
  "VerifyServerProof p serverProofString =
     (case b64_decode serverProofString of
        None \<Rightarrow> Some (Wrapped ''malformed SRP server proof'' (Opaque ''illegal base64 data''))
      | Some serverProof \<Rightarrow>
          (if ConstantTimeCompare (expectedServerProof p) serverProof \<noteq> 1
           then Some (Opaque ''invalid SRP server proof'')
           else None))"

section \<open>What the loops deliver\<close>

text \<open>
  The nested loops read one block of bytes after another: a block is used up when its number
  is not below the bound, when the secret is too small, or when the scrambling parameter is 0.
\<close>

definition secret_size :: "int \<Rightarrow> nat" where
  "secret_size N = rand_size (N - 1)"

definition in_range :: "int \<Rightarrow> int \<Rightarrow> bytes \<Rightarrow> bool" where
  "in_range l limit buf \<longleftrightarrow> 2 * l < number_of limit buf \<and> number_of limit buf < limit"

definition good_secret :: "(bytes \<Rightarrow> bytes) \<Rightarrow> int \<Rightarrow> int \<Rightarrow> int \<Rightarrow> bytes \<Rightarrow> bool" where
  "good_secret hash l N B buf \<longleftrightarrow> in_range l (N - 1) buf \<and>
     scrambling hash l (Int_Exp generator (number_of (N - 1) buf) N) B \<noteq> Ok 0"

lemma draw_secret_picked:
  assumes "1 < limit" and "draw_secret limit l rd = Some (r, rd')"
  shows "\<exists>buf. picked (rand_size limit) (\<lambda>buf. length buf < rand_size limit \<or> in_range l limit buf) rd buf rd' \<and>
     (if length buf < rand_size limit then \<exists>e. r = Err e else r = Ok (number_of limit buf))"
proof -
  let ?stop = "\<lambda>limit l buf. length buf < rand_size limit \<or> in_range l limit buf"
  let ?P = "\<lambda>limit l rd (r, rd'). 1 < limit \<longrightarrow> (\<exists>buf. picked (rand_size limit) (?stop limit l) rd buf rd' \<and>
     (if length buf < rand_size limit then \<exists>e. r = Err e else r = Ok (number_of limit buf)))"
  from assms(2) have "?P limit l rd (r, rd')"
  proof (rule draw_secret.raw_induct [where P = ?P, rotated], goal_cases)
    case (1 f limit l rd y)
    obtain r2 rd2 where y: "y = (r2, rd2)" by (cases y)
    show ?case unfolding y
    proof (intro case_prodI impI)
      assume limit: "1 < limit"
      obtain r1 rd1 where int: "rand_Int limit rd = Some (r1, rd1)"
        using 1(2) by (auto split: option.splits)
      from rand_Int_picked [OF limit int] obtain buf where
        pick: "picked (rand_size limit) (\<lambda>buf. length buf < rand_size limit \<or> number_of limit buf < limit) rd buf rd1"
        and r1: "if length buf < rand_size limit then \<exists>e. r1 = Err e else r1 = Ok (number_of limit buf)" by blast
      have sub: "?stop limit l b \<Longrightarrow> length b < rand_size limit \<or> number_of limit b < limit" for b
        by (auto simp: in_range_def)
      note narrow = picked_narrow [OF pick, of "?stop limit l", OF sub]
      show "\<exists>buf. picked (rand_size limit) (?stop limit l) rd buf rd2 \<and>
         (if length buf < rand_size limit then \<exists>e. r2 = Err e else r2 = Ok (number_of limit buf))"
      proof (cases "?stop limit l buf")
        case True
        with 1(2) int r1 y have "rd2 = rd1" "r2 = r1" by (auto simp: in_range_def split: if_splits)
        with narrow True r1 show ?thesis by (intro exI [of _ buf]) simp
      next
        case False
        moreover have "number_of limit buf < limit" using False picked_stops [OF pick] by simp
        ultimately have "f limit l rd1 = Some (r2, rd2)" using 1(2) int r1 y by (auto simp: in_range_def split: if_splits)
        from 1(1) [OF this] limit obtain buf' where "picked (rand_size limit) (?stop limit l) rd1 buf' rd2"
          "if length buf' < rand_size limit then \<exists>e. r2 = Err e else r2 = Ok (number_of limit buf')" by auto
        with narrow False show ?thesis by blast
      qed
    qed
  qed
  with assms(1) show ?thesis by simp
qed

lemma draw_secret_unfold:
  assumes "1 < limit" and rd: "read_full (rand_size limit) rd = (buf, rd1)"
  shows "length buf < rand_size limit \<Longrightarrow> \<exists>e. draw_secret limit l rd = Some (Err e, rd1)"
    and "\<not> length buf < rand_size limit \<Longrightarrow> in_range l limit buf \<Longrightarrow> draw_secret limit l rd = Some (Ok (number_of limit buf), rd1)"
    and "\<not> length buf < rand_size limit \<Longrightarrow> \<not> in_range l limit buf \<Longrightarrow> draw_secret limit l rd = draw_secret limit l rd1"
  using rand_Int_unfold [OF assms]
  by (auto simp: draw_secret.simps [of limit l rd] in_range_def) (simp_all add: draw_secret.simps [of limit l rd1])

lemma Int_Exp_bounds: "0 < m \<Longrightarrow> 0 \<le> Int_Exp x y m \<and> Int_Exp x y m < m"
  by (simp add: Int_Exp_def)

text \<open>The scrambling parameter always has a value here.\<close>

lemma scrambling_Ok:
  assumes "2 < modulus" "modulus < 256 ^ n" "l = 8 * int n" "0 \<le> B" "B < modulus"
  obtains u where "scrambling hash l (Int_Exp generator a modulus) B = Ok u"
proof -
  have "0 \<le> Int_Exp generator a modulus" "Int_Exp generator a modulus < 256 ^ n"
    using Int_Exp_bounds [of modulus generator a] assms by auto
  then obtain x where "itoa (Int_Exp generator a modulus) l = Ok x" using itoa_Ok assms(3) by blast
  moreover obtain y where "itoa B l = Ok y" using itoa_Ok [of B n l] assms by auto
  ultimately show ?thesis using that by (simp add: scrambling_def)
qed

text \<open>The block that decides the handshake, and what it decides.\<close>

definition decides :: "(bytes \<Rightarrow> bytes) \<Rightarrow> int \<Rightarrow> int \<Rightarrow> int \<Rightarrow> bytes \<Rightarrow> bool" where
  "decides hash l N B buf \<longleftrightarrow> length buf < secret_size N \<or> good_secret hash l N B buf"

definition decided :: "(bytes \<Rightarrow> bytes) \<Rightarrow> int \<Rightarrow> int \<Rightarrow> int \<Rightarrow> bytes \<Rightarrow> (error, int \<times> int \<times> int) outcome \<Rightarrow> bool" where
  "decided hash l N B buf r \<longleftrightarrow>
     (if length buf < secret_size N then \<exists>e. r = Err e
      else (let a = number_of (N - 1) buf; A = Int_Exp generator a N
            in \<exists>u. scrambling hash l A B = Ok u \<and> r = Ok (a, A, u)))"

lemma pick_ephemeral_unfold:
  assumes mod: "2 < N" "N < 256 ^ n" "l = 8 * int n" "0 \<le> B" "B < N"
    and rd: "read_full (secret_size N) rd = (buf, rd1)"
  shows "decides hash l N B buf \<Longrightarrow> \<exists>r. pick_ephemeral hash l N B rd = Some (r, rd1) \<and> decided hash l N B buf r"
    and "\<not> decides hash l N B buf \<Longrightarrow> pick_ephemeral hash l N B rd = pick_ephemeral hash l N B rd1"
proof -
  obtain u where u: "scrambling hash l (Int_Exp generator (number_of (N - 1) buf) N) B = Ok u"
    by (rule scrambling_Ok [OF mod])
  have "1 < N - 1" using mod(1) by simp
  note draw = draw_secret_unfold [OF this rd [unfolded secret_size_def]]
  show "\<exists>r. pick_ephemeral hash l N B rd = Some (r, rd1) \<and> decided hash l N B buf r" if "decides hash l N B buf"
  proof (cases "length buf < rand_size (N - 1)")
    case True
    with draw(1) [of l] show ?thesis
      by (auto simp: pick_ephemeral.simps [of hash l N B rd] decided_def secret_size_def)
  next
    case False
    with draw(2) [of l] that u show ?thesis
      by (simp add: pick_ephemeral.simps [of hash l N B rd] decides_def decided_def good_secret_def secret_size_def Let_def)
  qed
  show "pick_ephemeral hash l N B rd = pick_ephemeral hash l N B rd1" if not: "\<not> decides hash l N B buf"
  proof (cases "in_range l (N - 1) buf")
    case True
    with not draw(2) [of l] u show ?thesis
      by (subst pick_ephemeral.simps) (auto simp: decides_def good_secret_def secret_size_def)
  next
    case False
    with not draw(3) [of l] show ?thesis
      by (simp add: pick_ephemeral.simps [of hash l N B rd] pick_ephemeral.simps [of hash l N B rd1] decides_def secret_size_def)
  qed
qed

text \<open>Where it returns, the first block that decides is the one that decided.\<close>

lemma pick_ephemeral_picked:
  assumes "2 < N" "N < 256 ^ n" "l = 8 * int n" "0 \<le> B" "B < N"
    and "pick_ephemeral hash l N B rd = Some (r, rd')"
  shows "\<exists>buf. picked (secret_size N) (decides hash l N B) rd buf rd' \<and> decided hash l N B buf r"
proof -
  let ?P = "\<lambda>hash l N B rd (r, rd'). 2 < N \<longrightarrow> N < 256 ^ n \<longrightarrow> l = 8 * int n \<longrightarrow> 0 \<le> B \<longrightarrow> B < N \<longrightarrow>
    (\<exists>buf. picked (secret_size N) (decides hash l N B) rd buf rd' \<and> decided hash l N B buf r)"
  from assms(6) have "?P hash l N B rd (r, rd')"
  proof (rule pick_ephemeral.raw_induct [where P = ?P, rotated], goal_cases)
    case (1 f hash l N B rd y)
    obtain r2 rd2 where y: "y = (r2, rd2)" by (cases y)
    show ?case unfolding y
    proof (intro case_prodI impI)
      assume mod: "2 < N" "N < 256 ^ n" "l = 8 * int n" "0 \<le> B" "B < N"
      obtain r1 rd1 where draw: "draw_secret (N - 1) l rd = Some (r1, rd1)"
        using 1(2) by (auto split: option.splits)
      have "1 < N - 1" using mod(1) by simp
      from draw_secret_picked [OF this draw] obtain buf where
        pick: "picked (secret_size N) (\<lambda>buf. length buf < secret_size N \<or> in_range l (N - 1) buf) rd buf rd1"
        and r1: "if length buf < secret_size N then \<exists>e. r1 = Err e else r1 = Ok (number_of (N - 1) buf)"
        unfolding secret_size_def by blast
      have sub: "decides hash l N B b \<Longrightarrow> length b < secret_size N \<or> in_range l (N - 1) b" for b
        by (auto simp: decides_def good_secret_def)
      note narrow = picked_narrow [OF pick, of "decides hash l N B", OF sub]
      obtain u where u: "scrambling hash l (Int_Exp generator (number_of (N - 1) buf) N) B = Ok u"
        by (rule scrambling_Ok [OF mod])
      show "\<exists>buf. picked (secret_size N) (decides hash l N B) rd buf rd2 \<and> decided hash l N B buf r2"
      proof (cases "decides hash l N B buf")
        case True
        with 1(2) draw r1 u y have "rd2 = rd1 \<and> decided hash l N B buf r2"
          by (auto simp: decides_def decided_def good_secret_def Let_def split: if_splits)
        with narrow True show ?thesis by blast
      next
        case False
        then have "f hash l N B rd1 = Some (r2, rd2)"
          using 1(2) draw r1 u y picked_stops [OF pick] by (auto simp: decides_def good_secret_def split: if_splits)
        from 1(1) [OF this] mod obtain buf' where "picked (secret_size N) (decides hash l N B) rd1 buf' rd2"
          "decided hash l N B buf' r2" by auto
        with narrow False show ?thesis by blast
      qed
    qed
  qed
  with assms(1-5) show ?thesis by simp
qed

lemma pick_ephemeral_run:
  assumes mod: "2 < N" "N < 256 ^ n" "l = 8 * int n" "0 \<le> B" "B < N"
  shows "picked (secret_size N) (decides hash l N B) rd buf rd' \<Longrightarrow>
    \<exists>r. pick_ephemeral hash l N B rd = Some (r, rd') \<and> decided hash l N B buf r"
proof (induction rule: picked.induct)
  case (found rd buf rd1)
  then show ?case using pick_ephemeral_unfold(1) [OF mod] by blast
next
  case (skips rd buf rd1 buf' rd')
  then show ?case using pick_ephemeral_unfold(2) [OF mod skips.hyps(1,2)] by simp
qed

lemma decided_OkD:
  assumes "decided hash l N B buf (Ok (a, A, u))" "decides hash l N B buf"
  shows "2 * l < a \<and> a < N - 1 \<and> A = 2 ^ nat a mod N \<and> u \<noteq> 0 \<and> scrambling hash l A B = Ok u"
  using assms
  by (auto simp: decided_def decides_def good_secret_def in_range_def Int_Exp_def generator_def Let_def split: if_splits)

lemma pick_ephemeral_spec:
  assumes "2 < N" "N < 256 ^ n" "l = 8 * int n" "0 \<le> B" "B < N"
    and "pick_ephemeral hash l N B rd = Some (r, rd')"
  shows "case r of
        Ok (a, A, u) \<Rightarrow> 2 * l < a \<and> a < N - 1 \<and> A = 2 ^ nat a mod N \<and> u \<noteq> 0 \<and>
          scrambling hash l A B = Ok u
      | Err e \<Rightarrow> True | Panic msg \<Rightarrow> False"
proof -
  obtain buf where pick: "picked (secret_size N) (decides hash l N B) rd buf rd'" and r: "decided hash l N B buf r"
    using pick_ephemeral_picked [OF assms] by blast
  show ?thesis
  proof (cases r)
    case (Ok t)
    obtain a A u where t: "t = (a, A, u)" by (cases t)
    from decided_OkD [OF r [unfolded Ok t] picked_stops [OF pick]] show ?thesis
      unfolding Ok t outcome.case prod.case .
  qed (use r in \<open>auto simp: decided_def Let_def split: if_splits\<close>)
qed

lemma modulus_bounds:
  assumes "int (BitLen (atoi m)) = 8 * int n" "0 < n"
  shows "2 ^ (8 * n - 1) \<le> atoi m" and "atoi m < 256 ^ n"
proof -
  have b: "BitLen (atoi m) = 8 * n" using assms(1) by linarith
  have "atoi m \<noteq> 0" using b assms(2) by (auto simp: BitLen.simps)
  then have "0 < atoi m" using atoi_bounds(1) [of m] by linarith
  from BitLen_bounds [OF this] b show "2 ^ (8 * n - 1) \<le> atoi m" "atoi m < 256 ^ n"
    by (simp_all add: power_mult)
qed

text \<open>The values that pass every check of \<open>generateProofs\<close>.\<close>

definition srp_accepts :: "int \<Rightarrow> int \<Rightarrow> int \<Rightarrow> int \<Rightarrow> bool" where
  "srp_accepts l N k B \<longleftrightarrow> int (BitLen N) = l \<and> 1 < k \<and> k < N - 1 \<and> 2 < N - 1 \<and> 1 < B \<and> B < N - 1"

definition srp_multiplier :: "int \<Rightarrow> (bytes \<Rightarrow> bytes) \<Rightarrow> bytes \<Rightarrow> int" where
  "srp_multiplier l hash m =
     (case itoa generator l of Ok g \<Rightarrow> atoi (hash (g @ m)) mod atoi m | _ \<Rightarrow> 0)"

text \<open>The client's session key for the secret \<open>a\<close>, as the code computes it.\<close>

definition client_session :: "int \<Rightarrow> int \<Rightarrow> int \<Rightarrow> int \<Rightarrow> int \<Rightarrow> int \<Rightarrow> int" where
  "client_session N k x B a u =
     (let t = B - (2 ^ nat x mod N) * k mod N; t = (if t < 0 then t + N else t)
      in t ^ nat ((u * x + a) mod (N - 1)) mod N)"

lemma generator_itoa:
  assumes "l = 8 * int n" "0 < n"
  obtains g where "itoa generator l = Ok g"
proof -
  have "(2 :: int) < 256 ^ n" using power_increasing [of 1 n "256 :: int"] assms(2) by simp
  then show ?thesis using that itoa_Ok [of generator n l] assms by (auto simp: generator_def)
qed

lemma generateProofs_refused:
  assumes l: "l = 8 * int n" "0 < n"
    and not: "\<not> srp_accepts l (atoi m) (srp_multiplier l hash m) (atoi sb)"
  shows "\<exists>e. generateProofs l hash m h sb rd = Some (Err e, rd)"
proof -
  obtain g where g: "itoa generator l = Ok g" by (rule generator_itoa [OF l])
  have k: "srp_multiplier l hash m = atoi (hash (g @ m)) mod atoi m" using g by (simp add: srp_multiplier_def)
  have "atoi m \<noteq> 0" if "int (BitLen (atoi m)) = l" using that l by (auto simp: BitLen.simps)
  then show ?thesis using not g
    by (auto simp: generateProofs_def srp_accepts_def Let_def k raiseP_def generator_def)
qed

text \<open>What follows the loops: the proofs for a secret \<open>a\<close> with its number \<open>A\<close> and scrambling parameter \<open>u\<close>.\<close>

lemma generateProofs_accepted:
  assumes l: "l = 8 * int n" "0 < n"
    and acc: "srp_accepts l N k B" and N: "N = atoi m" and k: "k = srp_multiplier l hash m" and B: "B = atoi sb"
  shows "2 < N" "N < 256 ^ n" "0 \<le> B" "B < N"
    and "generateProofs l hash m h sb rd = bindP (pick_ephemeral hash l N B)
        (\<lambda>(a, A, u). let S = client_session N k (atoi h) B a u in
           bindP (liftP (itoa A l)) (\<lambda>a. bindP (liftP (itoa B l)) (\<lambda>b. bindP (liftP (itoa S l)) (\<lambda>s.
           returnP \<lparr>clientEphemeral = a, clientProof = hash (a @ b @ s),
                    expectedServerProof = hash (a @ hash (a @ b @ s) @ s)\<rparr>)))) rd"
proof -
  obtain g where g: "itoa generator l = Ok g" by (rule generator_itoa [OF l])
  have k': "k = atoi (hash (g @ m)) mod N" using g by (simp add: k srp_multiplier_def N)
  have acc': "int (BitLen N) = l" "1 < k" "k < N - 1" "2 < N - 1" "1 < B" "B < N - 1"
    using acc by (auto simp: srp_accepts_def)
  then show "2 < N" "0 \<le> B" "B < N" by linarith+
  show "N < 256 ^ n" using modulus_bounds [of m n] acc'(1) l N by simp
  show "generateProofs l hash m h sb rd = bindP (pick_ephemeral hash l N B)
        (\<lambda>(a, A, u). let S = client_session N k (atoi h) B a u in
           bindP (liftP (itoa A l)) (\<lambda>a. bindP (liftP (itoa B l)) (\<lambda>b. bindP (liftP (itoa S l)) (\<lambda>s.
           returnP \<lparr>clientEphemeral = a, clientProof = hash (a @ b @ s),
                    expectedServerProof = hash (a @ hash (a @ b @ s) @ s)\<rparr>)))) rd"
    using acc' g
    by (simp add: generateProofs_def Let_def k' [symmetric] N [symmetric] B [symmetric] generator_def
        client_session_def Int_Exp_def)
qed

lemma generateProofs_finish:
  assumes l: "l = 8 * int n" "0 < n"
    and acc: "srp_accepts l N k B" and N: "N = atoi m" and k: "k = srp_multiplier l hash m" and B: "B = atoi sb"
    and pick: "pick_ephemeral hash l N B rd = Some (Ok (a, A, u), rd')"
  shows "\<exists>S ab bb sbytes. 2 * l < a \<and> a < N - 1 \<and> A = 2 ^ nat a mod N \<and>
     itoa A l = Ok ab \<and> itoa B l = Ok bb \<and> u = atoi (hash (ab @ bb)) \<and> u \<noteq> 0 \<and>
     S = client_session N k (atoi h) B a u \<and> itoa S l = Ok sbytes \<and>
     generateProofs l hash m h sb rd =
       Some (Ok \<lparr>clientEphemeral = ab, clientProof = hash (ab @ bb @ sbytes),
                 expectedServerProof = hash (ab @ hash (ab @ bb @ sbytes) @ sbytes)\<rparr>, rd')"
proof -
  note run = generateProofs_accepted [OF l acc N k B]
  have spec: "2 * l < a" "a < N - 1" "A = 2 ^ nat a mod N" "u \<noteq> 0" "scrambling hash l A B = Ok u"
    using pick_ephemeral_spec [OF run(1,2) l(1) run(3,4) pick] by auto
  define S where "S = client_session N k (atoi h) B a u"
  have ranges: "0 \<le> A" "A < 256 ^ n" "0 \<le> S" "S < 256 ^ n" "0 \<le> B" "B < 256 ^ n"
    using spec run(1-4)
    by (auto simp: S_def client_session_def Let_def intro: order.strict_trans [OF pos_mod_bound])
  then obtain ab bb sbytes where it: "itoa A l = Ok ab" "itoa B l = Ok bb" "itoa S l = Ok sbytes"
    using itoa_Ok l(1) by metis
  have u: "u = atoi (hash (ab @ bb))" using spec it by (simp add: scrambling_def)
  have "generateProofs l hash m h sb rd =
       Some (Ok \<lparr>clientEphemeral = ab, clientProof = hash (ab @ bb @ sbytes),
                 expectedServerProof = hash (ab @ hash (ab @ bb @ sbytes) @ sbytes)\<rparr>, rd')"
    unfolding run(5) using pick it
    by (simp add: bindP_def [of "pick_ephemeral hash l N B"] returnP_def S_def [symmetric] Let_def)
  with spec it u show ?thesis unfolding S_def by blast
qed

lemma generateProofs_OkD:
  assumes l: "l = 8 * int n" "0 < n" and run: "generateProofs l hash m h sb rd = Some (Ok p, rd')"
    and eq: "N = atoi m" "k = srp_multiplier l hash m" "B = atoi sb"
  obtains a A u S ab bb sbytes where "srp_accepts l N k B" "2 * l < a" "a < N - 1" "A = 2 ^ nat a mod N"
    "itoa A l = Ok ab" "itoa B l = Ok bb" "u = atoi (hash (ab @ bb))" "u \<noteq> 0"
    "S = client_session N k (atoi h) B a u" "itoa S l = Ok sbytes" "clientEphemeral p = ab"
    "clientProof p = hash (ab @ bb @ sbytes)"
    "expectedServerProof p = hash (ab @ hash (ab @ bb @ sbytes) @ sbytes)"
proof -
  have acc: "srp_accepts l N k B"
  proof (rule ccontr)
    assume "\<not> srp_accepts l N k B"
    with generateProofs_refused [OF l, of m hash sb h rd] run eq show False by auto
  qed
  obtain a A u rd1 where "pick_ephemeral hash l N B rd = Some (Ok (a, A, u), rd1)"
    using run generateProofs_accepted(5) [OF l acc eq, of h rd]
    by (auto simp: bindP_def split: option.splits outcome.splits)
  from generateProofs_finish [OF l acc eq this, of h] run obtain S ab bb sbytes
    where *: "2 * l < a \<and> a < N - 1 \<and> A = 2 ^ nat a mod N \<and> itoa A l = Ok ab \<and> itoa B l = Ok bb \<and>
     u = atoi (hash (ab @ bb)) \<and> u \<noteq> 0 \<and> S = client_session N k (atoi h) B a u \<and> itoa S l = Ok sbytes \<and>
     p = \<lparr>clientEphemeral = ab, clientProof = hash (ab @ bb @ sbytes),
          expectedServerProof = hash (ab @ hash (ab @ bb @ sbytes) @ sbytes)\<rparr>" by auto
  from * acc show ?thesis by (elim conjE) (rule that, assumption+, simp_all)
qed

text \<open>The handshake ends with the first block of bytes that decides it, and only with one.\<close>

lemma generateProofs_decided:
  assumes l: "l = 8 * int n" "0 < n"
    and acc: "srp_accepts l N k B" and eq: "N = atoi m" "k = srp_multiplier l hash m" "B = atoi sb"
    and pick: "picked (secret_size N) (decides hash l N B) rd buf rd'"
  shows "\<exists>r. generateProofs l hash m h sb rd = Some (r, rd') \<and>
     (if length buf < secret_size N then \<exists>e. r = Err e else \<exists>p. r = Ok p)"
proof -
  note run = generateProofs_accepted [OF l acc eq]
  obtain r where r: "pick_ephemeral hash l N B rd = Some (r, rd')" "decided hash l N B buf r"
    using pick_ephemeral_run [OF run(1,2) l(1) run(3,4) pick] by blast
  show ?thesis
  proof (cases "length buf < secret_size N")
    case True
    with r run(5) show ?thesis by (auto simp: decided_def bindP_def)
  next
    case False
    with r(2) obtain a A u where "r = Ok (a, A, u)" by (auto simp: decided_def Let_def)
    with generateProofs_finish [OF l acc eq r(1) [unfolded this], of h] False show ?thesis by auto
  qed
qed

lemma generateProofs_SomeD:
  assumes l: "l = 8 * int n" "0 < n"
    and acc: "srp_accepts l N k B" and eq: "N = atoi m" "k = srp_multiplier l hash m" "B = atoi sb"
    and run: "generateProofs l hash m h sb rd = Some (r, rd')"
  shows "\<exists>buf rd1. picked (secret_size N) (decides hash l N B) rd buf rd1"
proof -
  note acc' = generateProofs_accepted [OF l acc eq]
  obtain r1 rd1 where "pick_ephemeral hash l N B rd = Some (r1, rd1)"
    using run acc'(5) [of h rd] by (auto simp: bindP_def split: option.splits)
  from pick_ephemeral_picked [OF acc'(1,2) l(1) acc'(3,4) this] show ?thesis by blast
qed

lemma generateProofs_no_panic:
  assumes l: "l = 8 * int n" "0 < n" and run: "generateProofs l hash m h sb rd = Some (r, rd')"
  shows "r \<noteq> Panic msg"
proof (cases "srp_accepts l (atoi m) (srp_multiplier l hash m) (atoi sb)")
  case True
  from generateProofs_SomeD [OF l True refl refl refl run] obtain buf rd1 where
    "picked (secret_size (atoi m)) (decides hash l (atoi m) (atoi sb)) rd buf rd1" by blast
  from generateProofs_decided [OF l True refl refl refl this, of h] run show ?thesis by (auto split: if_splits)
next
  case False
  from generateProofs_refused [OF l False, of h rd] run show ?thesis by auto
qed

lemma srp_accepts_modulus:
  assumes "srp_accepts l (atoi m) k B" "l = 8 * int n" "0 < n"
  shows "1 < atoi m" "atoi m < 256 ^ n"
  using assms modulus_bounds [of m n] by (auto simp: srp_accepts_def)

lemma itoa_power:
  assumes "l = 8 * int n" "1 < N" "N < 256 ^ n" and "itoa (2 ^ a mod N) l = Ok b"
  shows "length b = n" "atoi b = 2 ^ a mod N"
proof -
  have "2 ^ a mod N < 256 ^ n" using pos_mod_bound [of N "2 ^ a"] assms(2,3) by linarith
  with itoa_Ok [OF _ this assms(1)] assms(2,4) show "length b = n" "atoi b = 2 ^ a mod N" by auto
qed

section \<open>Numbers on the wire\<close>

lemma digit_256:
  fixes p q x y :: int
  assumes "p * 256 + x = q * 256 + y" "0 \<le> x" "x < 256" "0 \<le> y" "y < 256"
  shows "p = q \<and> x = y"
proof -
  have "p = (p * 256 + x) div 256" "q = (q * 256 + y) div 256" using assms(2-) by simp_all
  with assms(1) have "p = q" by simp
  with assms(1) show ?thesis by simp
qed

lemma SetBytes_inject: "length a = length b \<Longrightarrow> SetBytes a = SetBytes b \<Longrightarrow> a = b"
proof (induction a arbitrary: b rule: rev_induct)
  case (snoc x a)
  obtain c y where b: "b = c @ [y]" using snoc.prems(1) by (cases b rule: rev_cases) auto
  have "SetBytes a * 256 + uint x = SetBytes c * 256 + uint y"
    using snoc.prems(2) by (simp add: b SetBytes_append)
  moreover have "uint x < 256" "uint y < 256" by simp_all
  ultimately have "SetBytes a = SetBytes c \<and> uint x = uint y"
    by (intro digit_256) simp_all
  with snoc b show ?case by (auto simp: word_uint_eq_iff)
qed simp

text \<open>
  \<open>itoa\<close> writes exactly the numbers that fit: a number below 256 to the power n
  becomes n bytes (for a length of 8 n bits) that \<open>atoi\<close> reads back, any other number
  panics; and \<open>atoi\<close> of n bytes is always such a number.
\<close>

theorem itoa_atoi:
  assumes "l = 8 * int n" and "0 \<le> i"
  shows "(i < 256 ^ n \<longrightarrow> (\<exists>b. itoa i l = Ok b \<and> length b = n \<and> atoi b = i)) \<and>
     (256 ^ n \<le> i \<longrightarrow> (\<exists>msg. itoa i l = Panic msg)) \<and>
     (\<forall>b. length b = n \<longrightarrow> itoa (atoi b) l = Ok b)"
proof (intro conjI impI allI)
  show "\<exists>b. itoa i l = Ok b \<and> length b = n \<and> atoi b = i" if "i < 256 ^ n"
    using itoa_Ok assms that by blast
  show "\<exists>msg. itoa i l = Panic msg" if big: "256 ^ n \<le> i"
  proof -
    have "256 ^ n \<le> SetBytes (be_bytes i)" using big assms(2) by (simp add: SetBytes_be_bytes)
    also have "\<dots> < 256 ^ length (be_bytes i)" by (rule SetBytes_less)
    finally have "n < length (be_bytes i)" by simp
    then show ?thesis using assms
      by (simp add: itoa_def go_div_8 Let_def reverse_rev Int_Bytes_def)
  qed
  show "itoa (atoi b) l = Ok b" if len: "length b = n" for b
  proof -
    obtain c where c: "itoa (atoi b) l = Ok c" "length c = n" "atoi c = atoi b"
      using itoa_Ok [OF atoi_bounds, of l b] assms(1) len by auto
    then have "SetBytes (rev c) = SetBytes (rev b)" by (simp add: atoi_def reverse_rev)
    then have "rev c = rev b" using SetBytes_inject [of "rev c" "rev b"] c(2) len by simp
    with c show ?thesis by simp
  qed
qed

section \<open>The handshake\<close>


text \<open>
  C2.  A server cannot choose the session key: unless the modulus has exactly the required
  size and the multiplier, the generator and the server's number all lie strictly between 1
  and the modulus less one, the handshake is refused, before any secret is drawn.  When it is not
  refused, the client's number is a power of the generator with a secret larger than
  twice the size, and it takes exactly the required number of bytes.
\<close>

theorem generateProofs_bounds:
  assumes "l = 8 * int n" and "0 < n"
  shows "(\<not> srp_accepts l (atoi m) (srp_multiplier l hash m) (atoi sb) \<longrightarrow>
       (\<exists>e. generateProofs l hash m h sb rd = Some (Err e, rd))) \<and>
     (\<forall>p rd'. generateProofs l hash m h sb rd = Some (Ok p, rd') \<longrightarrow>
       length (clientEphemeral p) = n \<and>
       (\<exists>a. 2 * l < a \<and> a < atoi m - 1 \<and> atoi (clientEphemeral p) = 2 ^ nat a mod atoi m))"
proof (intro conjI impI allI)
  show "\<exists>e. generateProofs l hash m h sb rd = Some (Err e, rd)"
    if "\<not> srp_accepts l (atoi m) (srp_multiplier l hash m) (atoi sb)"
    using generateProofs_refused [OF assms that] .
next
  fix p rd'
  assume run: "generateProofs l hash m h sb rd = Some (Ok p, rd')"
  obtain a where a: "2 * l < a" "a < atoi m - 1" "itoa (2 ^ nat a mod atoi m) l = Ok (clientEphemeral p)"
    and acc: "srp_accepts l (atoi m) (srp_multiplier l hash m) (atoi sb)"
    by (rule generateProofs_OkD [OF assms run refl refl refl]) auto
  note N = srp_accepts_modulus [OF acc assms]
  from itoa_power [OF assms(1) N a(3)] a(1,2)
  show "length (clientEphemeral p) = n"
    and "\<exists>a. 2 * l < a \<and> a < atoi m - 1 \<and> atoi (clientEphemeral p) = 2 ^ nat a mod atoi m"
    by auto
qed

text \<open>The server's session key, from its verifier \<open>v\<close> and its secret \<open>b\<close>.\<close>

definition server_session :: "int \<Rightarrow> int \<Rightarrow> int \<Rightarrow> int \<Rightarrow> int \<Rightarrow> int" where
  "server_session N v b A u = (A * v ^ nat u mod N) ^ nat b mod N"

lemma power_mod_order:
  fixes g N :: int
  assumes "g ^ m mod N = 1"
  shows "g ^ (e mod m) mod N = g ^ e mod N"
proof -
  have "g ^ e = (g ^ m) ^ (e div m) * g ^ (e mod m)"
    by (simp flip: power_mult power_add)
  then have "g ^ e mod N = ((g ^ m) ^ (e div m) mod N) * g ^ (e mod m) mod N"
    by (simp add: mod_mult_left_eq)
  also have "(g ^ m) ^ (e div m) mod N = ((g ^ m) mod N) ^ (e div m) mod N" by (simp add: power_mod)
  also have "\<dots> = 1 mod N" using assms by simp
  finally show ?thesis by (simp add: mod_mult_left_eq)
qed

lemma sessions_agree:
  assumes "2 ^ nat (N - 1) mod N = (1 :: int)" and "1 < N" and "0 \<le> x" "0 \<le> a" "0 \<le> u" "0 \<le> b"
    and v: "v = 2 ^ nat x mod N" and B: "B = (k * v + 2 ^ nat b) mod N"
  shows "client_session N k x B a u = server_session N v b (2 ^ nat a mod N) u"
proof -
  define t where "t = B - v * k mod N"
  have "t mod N = 2 ^ nat b mod N"
    unfolding t_def B by (simp add: mod_simps mult.commute)
  moreover have "- N < t" "t < N" using assms(2) pos_mod_bound [of N] pos_mod_sign [of N]
    unfolding t_def B by (smt (verit))+
  ultimately have t: "(if t < 0 then t + N else t) = 2 ^ nat b mod N"
    by (smt (verit) mod_pos_pos_trivial mod_add_self2)
  define e where "e = u * x + a"
  have e: "0 \<le> e" "nat e = nat u * nat x + nat a"
    using assms by (simp_all add: e_def nat_add_distrib nat_mult_distrib)
  have "nat (e mod (N - 1)) = nat e mod nat (N - 1)" using e(1) assms(2) by (simp add: nat_mod_distrib)
  then have "client_session N k x B a u = (2 ^ nat b mod N) ^ (nat e mod nat (N - 1)) mod N"
    by (simp only: client_session_def Let_def v [symmetric] t_def [symmetric] t e_def [symmetric])
  also have "\<dots> = (2 ^ (nat e mod nat (N - 1)) mod N) ^ nat b mod N"
    by (simp add: power_mod mult.commute flip: power_mult)
  also have "\<dots> = (2 ^ nat e) ^ nat b mod N" using power_mod_order [OF assms(1)] by (simp add: power_mod)
  also have "\<dots> = server_session N v b (2 ^ nat a mod N) u"
    by (simp add: server_session_def v e(2) power_mod mod_simps power_add mult.commute flip: power_mult)
       (metis (no_types, lifting) mod_mult_left_eq mod_mult_right_eq mult.commute power_mod power_mult)
  finally show ?thesis .
qed

text \<open>
  C1.  Agreement with an honest server.  The server holds a verifier v (the power of 2
  by the password hash) and a secret b, and sends k v plus the power of 2 by b; 2 has an order
  dividing the modulus less one, as for every odd prime.  Then the client's proof, and
  the proof it expects back, are made from the session key that the server computes from
  the number it receives, without ever knowing the password.
\<close>

theorem srp_agreement:
  assumes "l = 8 * int n" and "0 < n"
    and run: "generateProofs l hash m h sb rd = Some (Ok p, rd')"
    and "N = atoi m" and "2 ^ nat (N - 1) mod N = (1 :: int)" and "0 \<le> b"
    and "v = 2 ^ nat (atoi h) mod N" and "k = srp_multiplier l hash m"
    and "atoi sb = (k * v + 2 ^ nat b) mod N"
  shows "\<exists>B S. itoa (atoi sb) l = Ok B \<and>
     itoa (server_session N v b (atoi (clientEphemeral p)) (atoi (hash (clientEphemeral p @ B)))) l = Ok S \<and>
     clientProof p = hash (clientEphemeral p @ B @ S) \<and>
     expectedServerProof p = hash (clientEphemeral p @ clientProof p @ S)"
proof -
  obtain a A u S ab bb sbytes where acc: "srp_accepts l N k (atoi sb)"
    and a: "2 * l < a" "A = 2 ^ nat a mod N" "itoa A l = Ok ab" "itoa (atoi sb) l = Ok bb"
    and u: "u = atoi (hash (ab @ bb))" and S: "S = client_session N k (atoi h) (atoi sb) a u" "itoa S l = Ok sbytes"
    and p: "clientEphemeral p = ab" "clientProof p = hash (ab @ bb @ sbytes)"
      "expectedServerProof p = hash (ab @ hash (ab @ bb @ sbytes) @ sbytes)"
    by (rule generateProofs_OkD [OF assms(1,2) run assms(4,8) refl])
  note N = srp_accepts_modulus [OF acc [unfolded assms(4)] assms(1,2), folded assms(4)]
  from itoa_power [OF assms(1) N] a(2,3) have A: "atoi ab = A" by simp
  have "0 \<le> a" "0 \<le> u" "0 \<le> atoi h" using a(1) assms(1) u atoi_bounds(1) by auto
  from sessions_agree [OF assms(5) N(1) this(3,1,2) assms(6,7,9)] have "S = server_session N v b A u"
    using S(1) a(2) by simp
  with a S u A p show ?thesis by auto
qed

lemma or_zero_iff: "(v OR w = 0) = (v = 0 \<and> w = (0 :: 8 word))"
  by (auto simp: bit_eq_iff bit_simps)

lemma gathered_differences:
  "length x = length y \<Longrightarrow> foldl (\<lambda>v (a, b). v OR (a XOR b)) v (zip x y) = 0 \<longleftrightarrow> v = 0 \<and> x = y"
  for v :: "8 word"
proof (induction x y arbitrary: v rule: list_induct2)
  case (Cons a x b y)
  have "a XOR b = 0 \<longleftrightarrow> a = b" by (metis word_bw_same(3) xor_self_eq xor.right_neutral xor.left_commute)
  with Cons show ?case by (auto simp: or_zero_iff)
qed simp

lemma ConstantTimeCompare_iff: "ConstantTimeCompare x y = 1 \<longleftrightarrow> x = y"
  using gathered_differences [of x y 0] by (auto simp: ConstantTimeCompare_def)

text \<open>
  A session is established only on the expected proof: \<open>VerifyServerProof\<close>
  accepts a string exactly when it decodes, as base64, to the expected bytes.
\<close>

theorem VerifyServerProof_iff:
  "VerifyServerProof p answer = None \<longleftrightarrow> b64_decode answer = Some (expectedServerProof p)"
  by (auto simp: VerifyServerProof_def ConstantTimeCompare_iff split: option.split)

section \<open>The inputs of the handshake\<close>

definition newline :: char where
  "newline = CHR 0x0A"

fun lines :: "string list \<Rightarrow> string" where
  "lines [] = []"
| "lines [l] = l"
| "lines (l # ls) = l @ [newline] @ lines ls"

definition modulusPubkey :: string where
  "modulusPubkey = lines
     [''-----BEGIN PGP PUBLIC KEY BLOCK-----'',
      '''',
      ''xjMEXAHLgxYJKwYBBAHaRw8BAQdAFurWXXwjTemqjD7CXjXVyKf0of7n9Ctm'',
      ''L8v9enkzggHNEnByb3RvbkBzcnAubW9kdWx1c8J3BBAWCgApBQJcAcuDBgsJ'',
      ''BwgDAgkQNQWFxOlRjyYEFQgKAgMWAgECGQECGwMCHgEAAPGRAP9sauJsW12U'',
      ''MnTQUZpsbJb53d0Wv55mZIIiJL2XulpWPQD/V6NglBd96lZKBmInSXX/kXat'',
      ''Sv+y0io+LR8i2+jV+AbOOARcAcuDEgorBgEEAZdVAQUBAQdAeJHUz1c9+KfE'',
      ''kSIgcBRE3WuXC4oj5a2/U3oASExGDW4DAQgHwmEEGBYIABMFAlwBy4MJEDUF'',
      ''hcTpUY8mAhsMAAD/XQD8DxNI6E78meodQI+wLsrKLeHn32iLvUqJbVDhfWSU'',
      ''WO4BAMcm1u02t4VKw++ttECPt+HUgPUq5pqQWe5Q2cW4TMsE'',
      ''=Y4Mw'',
      ''-----END PGP PUBLIC KEY BLOCK-----'']"

definition decodeModulus :: "'p lib \<Rightarrow> string \<Rightarrow> (error, bytes) outcome" where
  "decodeModulus lib msg =
     (case clearsign_Decode lib msg of
        None \<Rightarrow> Err (Opaque ''invalid SRP modulus signed PGP block'')
      | Some block \<Rightarrow>
          (case ReadArmoredKeyRing lib modulusPubkey of
             Inl e \<Rightarrow> Err (Wrapped ''cannot read modulus pubkey'' e)
           | Inr modulusKeyring \<Rightarrow>
               (case CheckDetachedSignature lib modulusKeyring (cbBytes block) (cbSignature block) of
                  Some e \<Rightarrow> Err (Wrapped ''failed to check modulus signature'' e)
                | None \<Rightarrow>
                    (case b64_decode (cbPlaintext block) of
                       None \<Rightarrow> Err (Wrapped ''malformed SRP modulus'' (Opaque ''illegal base64 data''))
                     | Some b \<Rightarrow> Ok b))))"

record AuthInfo =
  version :: int
  modulus :: string
  serverEphemeral :: string
  salt :: string
  srpSession :: string

definition base64_input :: "string \<Rightarrow> string \<Rightarrow> (error, bytes) outcome" where
  "base64_input what s =
     (case b64_decode s of
        None \<Rightarrow> Err (Wrapped what (Opaque ''illegal base64 data''))
      | Some b \<Rightarrow> Ok b)"

definition srp :: "'p lib \<Rightarrow> bytes \<Rightarrow> AuthInfo \<Rightarrow> (random, error, proofs) prog" where
  "srp lib password info =
     bindP (liftP (decodeModulus lib (modulus info))) (\<lambda>modulus.
     bindP (liftP (base64_input ''malformed SRP server ephemeral'' (serverEphemeral info))) (\<lambda>serverEphemeral.
     bindP (liftP (base64_input ''malformed SRP salt'' (salt info))) (\<lambda>salt.
     bindP (liftP (hashPassword (bcryptGenerate lib) (version info) password salt modulus)) (\<lambda>hashed.
     generateProofs 2048 expandHash modulus hashed serverEphemeral))))"

text \<open>
  C4.  The modulus is never the server's own choice: \<open>srp\<close> gets to the proofs only with the
  plaintext of a clear-signed message whose signature the built-in Proton key ring accepts;
  with a signature that does not check it returns an error, and no randomness is used.
\<close>

theorem srp_needs_signed_modulus:
  "(\<forall>p rd'. srp lib password info rd = Some (Ok p, rd') \<longrightarrow>
      (\<exists>block ring m. clearsign_Decode lib (modulus info) = Some block \<and>
         ReadArmoredKeyRing lib modulusPubkey = Inr ring \<and>
         CheckDetachedSignature lib ring (cbBytes block) (cbSignature block) = None \<and>
         b64_decode (cbPlaintext block) = Some m \<and> BitLen (atoi m) = 2048)) \<and>
   (\<forall>block ring e. clearsign_Decode lib (modulus info) = Some block \<longrightarrow>
      ReadArmoredKeyRing lib modulusPubkey = Inr ring \<longrightarrow>
      CheckDetachedSignature lib ring (cbBytes block) (cbSignature block) = Some e \<longrightarrow>
      srp lib password info rd = Some (Err (Wrapped ''failed to check modulus signature'' e), rd))"
proof (intro conjI allI impI)
  fix p rd'
  assume "srp lib password info rd = Some (Ok p, rd')"
  then obtain m sb h where m: "decodeModulus lib (modulus info) = Ok m"
    and run: "generateProofs 2048 expandHash m h sb rd = Some (Ok p, rd')"
    by (auto simp: srp_def bindP_Some_Ok liftP_def)
  obtain N k B where "srp_accepts 2048 N k B" "N = atoi m"
    by (rule generateProofs_OkD [OF _ _ run refl refl refl, of 256]) auto
  then have "BitLen (atoi m) = 2048" by (simp add: srp_accepts_def)
  with m show "\<exists>block ring m. clearsign_Decode lib (modulus info) = Some block \<and>
         ReadArmoredKeyRing lib modulusPubkey = Inr ring \<and>
         CheckDetachedSignature lib ring (cbBytes block) (cbSignature block) = None \<and>
         b64_decode (cbPlaintext block) = Some m \<and> BitLen (atoi m) = 2048"
    by (auto simp: decodeModulus_def split: option.splits sum.splits)
next
  fix block ring e
  assume "clearsign_Decode lib (modulus info) = Some block"
    "ReadArmoredKeyRing lib modulusPubkey = Inr ring"
    "CheckDetachedSignature lib ring (cbBytes block) (cbSignature block) = Some e"
  then show "srp lib password info rd = Some (Err (Wrapped ''failed to check modulus signature'' e), rd)"
    by (simp add: srp_def decodeModulus_def raiseP_def)
qed

section \<open>Witnesses\<close>

text \<open>A toy hash and a modulus of one byte: 251, of which 2 is a quadratic residue.\<close>

definition toy_hash :: "bytes \<Rightarrow> bytes" where
  "toy_hash b = [foldl (+) 0 b]"

lemmas srp_eval = itoa_def reverse_def reverse_step_def atoi_def SetBytes_def Int_Bytes_def
  be_bytes.simps BitLen.simps go_div_def toy_hash_def generator_def Let_def

lemma toy_size [simp]: "secret_size 251 = 1" "top_bits 250 = 8" "rand_size 250 = 1"
  by (simp_all add: secret_size_def rand_size_def top_bits_def srp_eval)

lemma toy_number [simp]: "number_of 250 [b] = uint b"
proof -
  have "b AND mask 8 = b" by (rule bit_word_eqI) (simp add: bit_simps)
  then show ?thesis by (simp add: number_of_def SetBytes_def)
qed

lemma toy_run:
  "\<exists>p. generateProofs 8 toy_hash [251] [5] [192] (source_of [101]) = Some (Ok p, Ended)"
proof -
  have r: "rand_Int 250 (source_of [101]) = Some (Ok 101, Ended)"
    by (subst rand_Int_unfold [of 250 _ "[101]" Ended]) (simp_all add: read_full_source)
  have A: "Int_Exp generator 101 251 = 2" by (simp add: Int_Exp_def generator_def)
  have u: "scrambling toy_hash 8 2 192 = Ok 194" by (simp add: scrambling_def srp_eval)
  have "pick_ephemeral toy_hash 8 251 192 (source_of [101]) = Some (Ok (101, 2, 194), Ended)"
    using r by (simp add: pick_ephemeral.simps [of toy_hash 8 251] draw_secret.simps [of 250] A u)
  moreover have "atoi [251] = 251" "int (BitLen 251) = 8" "atoi [192] = 192" "atoi [5] = 5"
    "itoa 2 8 = Ok [2]" "itoa 192 8 = Ok [192]" "atoi (toy_hash [2, 251]) = 253"
    by (simp_all add: srp_eval)
  moreover have "itoa 157 8 = Ok [157]" by (simp add: srp_eval)
  ultimately show ?thesis
    by (simp add: generateProofs_def generator_def Let_def Int_Exp_def bindP_def liftP_def returnP_def)
qed

lemma itoa_atoi_witness:
  "(\<exists>b. itoa 513 16 = Ok b \<and> length b = 2 \<and> atoi b = 513) \<and> (\<exists>msg. itoa 65536 16 = Panic msg) \<and>
   itoa (atoi [7, 9]) 16 = Ok [7, 9]"
  using itoa_atoi [of 16 2 513] itoa_atoi [of 16 2 65536] by simp


lemma generateProofs_bounds_witness:
  "(\<exists>e. generateProofs 8 toy_hash [251] [5] [250] (source_of [101]) = Some (Err e, source_of [101])) \<and>
   (\<exists>p. generateProofs 8 toy_hash [251] [5] [192] (source_of [101]) = Some (Ok p, Ended) \<and> length (clientEphemeral p) = 1)"
proof -
  have "\<not> srp_accepts 8 (atoi [251]) (srp_multiplier 8 toy_hash [251]) (atoi [250])"
    by (simp add: srp_accepts_def srp_eval)
  then show ?thesis
    using generateProofs_bounds [of 8 1 "[251]" toy_hash "[250]" "[5]" "source_of [101]"]
      generateProofs_bounds [of 8 1 "[251]" toy_hash "[192]" "[5]" "source_of [101]"] toy_run by auto
qed

lemma srp_agreement_witness:
  "\<exists>p B S. generateProofs 8 toy_hash [251] [5] [192] (source_of [101]) = Some (Ok p, Ended) \<and>
     clientProof p = toy_hash (clientEphemeral p @ B @ S)"
proof -
  obtain p where run: "generateProofs 8 toy_hash [251] [5] [192] (source_of [101]) = Some (Ok p, Ended)"
    using toy_run by blast
  have k: "srp_multiplier 8 toy_hash [251] = 2" by (simp add: srp_multiplier_def srp_eval)
  have atois: "atoi [251] = 251" "atoi [192] = 192" "atoi [5] = 5" by (simp_all add: srp_eval)
  have "\<exists>B S. itoa (atoi [192]) 8 = Ok B \<and>
     itoa (server_session 251 32 7 (atoi (clientEphemeral p)) (atoi (toy_hash (clientEphemeral p @ B)))) 8 = Ok S \<and>
     clientProof p = toy_hash (clientEphemeral p @ B @ S) \<and>
     expectedServerProof p = toy_hash (clientEphemeral p @ clientProof p @ S)"
    by (rule srp_agreement [of 8 1 toy_hash "[251]" "[5]" "[192]" "source_of [101]" p Ended 251 7 32 2])
       (simp_all add: run k atois)
  with run show ?thesis by blast
qed

end
