(* ===== verification/Auth.thy ===== *)
theory Auth
  imports Account Srp
begin

text \<open>
  auth.go: the authentication flow.  \<open>AuthInfo\<close> and \<open>Auth\<close> (SRP and the check of the
  server's proof), \<open>AuthTOTP\<close>, \<open>AuthRefresh\<close>, \<open>ListKeySalts\<close>, the unlocking of the private
  keys, and \<open>Logout\<close>.  The functions that share a name with their type get a suffix.
\<close>

section \<open>AuthInfo\<close>

record AuthInfoResp = resp +
  airVersion :: int
  airModulus :: string
  airServerEphemeral :: string
  airSalt :: string
  airSRPSession :: string

definition AuthInfoResp_fields :: "AuthInfoResp fields" where
  "AuthInfoResp_fields =
     [field ''Version'' airVersion airVersion_update dec_int,
      field ''Modulus'' airModulus airModulus_update dec_string,
      field ''ServerEphemeral'' airServerEphemeral airServerEphemeral_update dec_string,
      field ''Salt'' airSalt airSalt_update dec_string,
      field ''SRPSession'' airSRPSession airSRPSession_update dec_string]"

definition zero_AuthInfoResp :: AuthInfoResp where
  "zero_AuthInfoResp = \<lparr>RespCode = 0, RawAPIError = None, airVersion = 0, airModulus = '''',
     airServerEphemeral = '''', airSalt = '''', airSRPSession = ''''\<rparr>"

definition authInfo :: "AuthInfoResp \<Rightarrow> AuthInfo" where
  "authInfo r =
     \<lparr>version = airVersion r, modulus = airModulus r, serverEphemeral = airServerEphemeral r,
      salt = airSalt r, srpSession = airSRPSession r\<rparr>"

record authInfoReq =
  aiqUsername :: string

definition authInfoReq_json :: "authInfoReq \<Rightarrow> json" where
  "authInfoReq_json r = JObj [(''Username'', JStr (aiqUsername r))]"

definition Client_AuthInfo :: "('w, 'k) env \<Rightarrow> string \<Rightarrow> ('w, 'k, AuthInfo) io" where
  "Client_AuthInfo env username =
     bindP (call_json env ''POST'' ''/auth/info'' (authInfoReq_json \<lparr>aiqUsername = username\<rparr>)
              AuthInfoResp_fields zero_AuthInfoResp)
       (\<lambda>respData. returnP (authInfo respData))"

section \<open>Auth\<close>

definition PasswordSingle :: int where "PasswordSingle = 1"
definition PasswordTwo :: int where "PasswordTwo = 2"

text \<open>\<open>U2F\<close> is an \<open>interface{}\<close>: any JSON value, nil for null.\<close>

record two_factor =
  Enabled :: int
  U2F :: "json option"
  TOTP :: int

record Auth =
  ExpiresAt :: int
  Scope :: string
  UID :: string
  AccessToken :: string
  RefreshToken :: string
  UserID :: string
  EventID :: string
  PasswordMode :: int
  TwoFactor :: two_factor

record authResp = resp +
  arAuth :: Auth
  ExpiresIn :: int
  TokenType :: string
  ServerProof :: string

definition two_factor_fields :: "two_factor fields" where
  "two_factor_fields =
     [field ''Enabled'' Enabled Enabled_update dec_int,
      field ''U2F'' U2F U2F_update (\<lambda>j _. Inr (if j = JNull then None else Some j)),
      field ''TOTP'' TOTP TOTP_update dec_int]"

text \<open>
  \<open>time.Time\<close> accepts a string in RFC 3339 form.  The value that is read for \<open>ExpiresAt\<close> is
  overwritten by \<open>auth\<close> before anyone sees it, so only its validity is modelled.
\<close>

definition days_in :: "int \<Rightarrow> int \<Rightarrow> int" where
  "days_in m y =
     (if m = 2 then (if y mod 4 = 0 \<and> (y mod 100 \<noteq> 0 \<or> y mod 400 = 0) then 29 else 28)
      else if m \<in> {4, 6, 9, 11} then 30 else 31)"

definition num_at :: "string \<Rightarrow> nat \<Rightarrow> nat \<Rightarrow> int" where
  "num_at s i k = (case parse_nat (take k (drop i s)) of Some n \<Rightarrow> int n | None \<Rightarrow> - 1)"

definition in_rfc3339 :: "string \<Rightarrow> bool" where
  "in_rfc3339 s =
     (let y = num_at s 0 4; m = num_at s 5 2; d = num_at s 8 2;
          rest = drop 19 s;
          frac = takeWhile is_digit (drop 1 rest);
          zone = (if take 1 rest = ''.'' then drop (Suc (length frac)) rest else rest)
      in length s \<ge> 20 \<and> s ! 4 = CHR ''-'' \<and> s ! 7 = CHR ''-'' \<and> s ! 10 = CHR ''T'' \<and>
         s ! 13 = CHR '':'' \<and> s ! 16 = CHR '':'' \<and>
         0 \<le> y \<and> 1 \<le> m \<and> m \<le> 12 \<and> 1 \<le> d \<and> d \<le> days_in m y \<and>
         num_at s 11 2 \<in> {0..23} \<and> num_at s 14 2 \<in> {0..59} \<and> num_at s 17 2 \<in> {0..59} \<and>
         (take 1 rest = ''.'' \<longrightarrow> frac \<noteq> []) \<and>
         (zone = ''Z'' \<or>
          (length zone = 6 \<and> (zone ! 0 = CHR ''+'' \<or> zone ! 0 = CHR ''-'') \<and> zone ! 3 = CHR '':'' \<and>
           num_at zone 1 2 \<in> {0..23} \<and> num_at zone 4 2 \<in> {0..59})))"

fun dec_time :: "int decoder" where
  "dec_time (JStr s) old = (if in_rfc3339 s then Inr old else Inl type_error)"
| "dec_time JNull old = Inr old"
| "dec_time _ old = Inl type_error"

definition Auth_fields :: "Auth fields" where
  "Auth_fields =
     [field ''ExpiresAt'' ExpiresAt ExpiresAt_update dec_time,
      field ''Scope'' Scope Scope_update dec_string,
      field ''UID'' UID UID_update dec_string,
      field ''AccessToken'' AccessToken AccessToken_update dec_string,
      field ''RefreshToken'' RefreshToken RefreshToken_update dec_string,
      field ''UserID'' UserID UserID_update dec_string,
      field ''EventID'' EventID EventID_update dec_string,
      field ''PasswordMode'' PasswordMode PasswordMode_update dec_int,
      field ''2FA'' TwoFactor TwoFactor_update (dec_struct two_factor_fields)]"

text \<open>The fields of an embedded struct are fields of the struct that embeds it.\<close>

definition promote :: "('r \<Rightarrow> 'a) \<Rightarrow> (('a \<Rightarrow> 'a) \<Rightarrow> 'r \<Rightarrow> 'r) \<Rightarrow> 'a fields \<Rightarrow> 'r fields" where
  "promote get upd fs = map (\<lambda>(k, d). field k get upd d) fs"

definition authResp_fields :: "authResp fields" where
  "authResp_fields =
     promote arAuth arAuth_update Auth_fields @
     [field ''ExpiresIn'' ExpiresIn ExpiresIn_update dec_int,
      field ''TokenType'' TokenType TokenType_update dec_string,
      field ''ServerProof'' ServerProof ServerProof_update dec_string]"

definition zero_Auth :: Auth where
  "zero_Auth = \<lparr>ExpiresAt = 0, Scope = '''', UID = '''', AccessToken = '''', RefreshToken = '''',
     UserID = '''', EventID = '''', PasswordMode = 0, TwoFactor = \<lparr>Enabled = 0, U2F = None, TOTP = 0\<rparr>\<rparr>"

definition zero_authResp :: authResp where
  "zero_authResp = \<lparr>RespCode = 0, RawAPIError = None, arAuth = zero_Auth, ExpiresIn = 0,
     TokenType = '''', ServerProof = ''''\<rparr>"

text \<open>\<open>time.Duration(n) * time.Second\<close> is a product of 64-bit integers: it wraps.\<close>

definition seconds :: "int \<Rightarrow> int" where
  "seconds n = sint (word_of_int (n * 1000000000) :: 64 word)"

definition auth :: "int \<Rightarrow> authResp \<Rightarrow> Auth" where
  "auth now r = (arAuth r)\<lparr>ExpiresAt := now + seconds (ExpiresIn r)\<rparr>"

text \<open>A program on the random reader, run on the reader of the world.\<close>

definition with_randReader :: "('w, 'k) env \<Rightarrow> (random, error, 'a) prog \<Rightarrow> ('w, 'k, 'a) io" where
  "with_randReader env m s =
     (case m (RandReader env (world s)) of
        None \<Rightarrow> None
      | Some (r, rd) \<Rightarrow> Some (r, s\<lparr>world := SetRandReader env rd (world s)\<rparr>))"

record authReq =
  aqUsername :: string
  aqSRPSession :: string
  aqClientEphemeral :: string
  aqClientProof :: string

definition authReq_json :: "authReq \<Rightarrow> json" where
  "authReq_json r = JObj
     [(''Username'', JStr (aqUsername r)), (''SRPSession'', JStr (aqSRPSession r)),
      (''ClientEphemeral'', JStr (aqClientEphemeral r)), (''ClientProof'', JStr (aqClientProof r))]"

definition Client_Auth ::
  "('w, 'p entity) env \<Rightarrow> 'p lib \<Rightarrow> string \<Rightarrow> string \<Rightarrow> AuthInfo option \<Rightarrow> ('w, 'p entity, Auth) io" where
  "Client_Auth env lib username password info =
     bindP (case info of None \<Rightarrow> Client_AuthInfo env username | Some i \<Rightarrow> returnP i) (\<lambda>info.
     bindP (mapErrP (Wrapped ''SRP failed during auth'')
              (with_randReader env (srp lib (bytes_of password) info))) (\<lambda>proofs.
     bindP (call_json env ''POST'' ''/auth''
              (authReq_json \<lparr>aqUsername = username, aqSRPSession = srpSession info,
                 aqClientEphemeral = b64_encode (clientEphemeral proofs),
                 aqClientProof = b64_encode (clientProof proofs)\<rparr>)
              authResp_fields zero_authResp) (\<lambda>respData.
     (case VerifyServerProof proofs (ServerProof respData) of
        Some e \<Rightarrow> raiseP e
      | None \<Rightarrow>
          bindP (getP (\<lambda>s. auth (Now env (world s)) respData)) (\<lambda>auth.
          bindP (modifyP (\<lambda>s. s\<lparr>cl := (cl s)\<lparr>uid := UID auth, accessToken := AccessToken auth\<rparr>\<rparr>)) (\<lambda>_.
          returnP auth))))))"

section \<open>Second factor and refresh\<close>

record scope_resp = resp +
  srScope :: string

definition Client_AuthTOTP :: "('w, 'k) env \<Rightarrow> string \<Rightarrow> ('w, 'k, string) io" where
  "Client_AuthTOTP env code =
     bindP (call_json env ''POST'' ''/auth/2fa'' (JObj [(''TwoFactorCode'', JStr code)])
              [field ''Scope'' srScope srScope_update dec_string]
              \<lparr>RespCode = 0, RawAPIError = None, srScope = ''''\<rparr>)
       (\<lambda>respData. returnP (srScope respData))"

record authRefreshReq =
  rqRefreshToken :: string
  rqResponseType :: string
  rqGrantType :: string
  rqRedirectURI :: string

definition authRefreshReq_json :: "authRefreshReq \<Rightarrow> json" where
  "authRefreshReq_json r = JObj
     [(''RefreshToken'', JStr (rqRefreshToken r)), (''ResponseType'', JStr (rqResponseType r)),
      (''GrantType'', JStr (rqGrantType r)), (''RedirectURI'', JStr (rqRedirectURI r))]"

definition Client_AuthRefresh :: "('w, 'k) env \<Rightarrow> Auth \<Rightarrow> ('w, 'k, Auth) io" where
  "Client_AuthRefresh env expiredAuth =
     bindP (newJSONRequest ''POST'' ''/auth/refresh''
              (authRefreshReq_json \<lparr>rqRefreshToken = RefreshToken expiredAuth, rqResponseType = ''token'',
                 rqGrantType = ''refresh_token'', rqRedirectURI = ''http://www.protonmail.ch''\<rparr>)) (\<lambda>req.
     bindP (doJSON env (req\<lparr>Header := Header_Set ''X-Pm-Uid'' (UID expiredAuth) (Header req)\<rparr>)
              (dec_struct (resp_fields @ authResp_fields)) zero_authResp (Some resp_Err)) (\<lambda>respData.
     bindP (getP (\<lambda>s. auth (Now env (world s)) respData)) (\<lambda>auth.
     returnP (auth\<lparr>PasswordMode := PasswordMode expiredAuth\<rparr>))))"

section \<open>Key salts\<close>

record key_salt =
  ksID :: string
  ksKeySalt :: string

record salts_resp = resp +
  srKeySalts :: "key_salt list"

definition salts_resp_fields :: "salts_resp fields" where
  "salts_resp_fields =
     [field ''KeySalts'' srKeySalts srKeySalts_update
        (dec_list (dec_struct
           [field ''ID'' ksID ksID_update dec_string, field ''KeySalt'' ksKeySalt ksKeySalt_update dec_string])
           \<lparr>ksID = '''', ksKeySalt = ''''\<rparr>)]"

text \<open>The map from key IDs to salts; a key without a salt has a nil value.\<close>

type_synonym key_salts = "string \<rightharpoonup> bytes option"

fun decode_salts :: "key_salt list \<Rightarrow> key_salts \<Rightarrow> error + key_salts" where
  "decode_salts [] salts = Inr salts"
| "decode_salts (x # xs) salts =
     (if ksKeySalt x = '''' then decode_salts xs (salts(ksID x \<mapsto> None))
      else case b64_decode (ksKeySalt x) of
        None \<Rightarrow> Inl (Wrapped ''failed to decode key salt payload'' (Opaque ''illegal base64 data''))
      | Some payload \<Rightarrow> decode_salts xs (salts(ksID x \<mapsto> Some payload)))"

definition Client_ListKeySalts :: "('w, 'k) env \<Rightarrow> ('w, 'k, key_salts) io" where
  "Client_ListKeySalts env =
     bindP (get_json env ''GET'' ''/keys/salts'' salts_resp_fields
              \<lparr>RespCode = 0, RawAPIError = None, srKeySalts = []\<rparr>) (\<lambda>respData.
     (case decode_salts (srKeySalts respData) Map.empty of
        Inl e \<Rightarrow> raiseP e
      | Inr salts \<Rightarrow> returnP salts))"

section \<open>Unlocking keys\<close>

fun decrypt_opt :: "'p lib \<Rightarrow> bytes \<Rightarrow> 'p option \<Rightarrow> error + 'p option" where
  "decrypt_opt lib pass None = Inr None"
| "decrypt_opt lib pass (Some priv) = map_sum id Some (priv_Decrypt lib pass priv)"

fun decrypt_list :: "'p lib \<Rightarrow> bytes \<Rightarrow> 'p option list \<Rightarrow> error + 'p option list" where
  "decrypt_list lib pass [] = Inr []"
| "decrypt_list lib pass (k # ks) =
     (case decrypt_opt lib pass k of
        Inl e \<Rightarrow> Inl e
      | Inr k' \<Rightarrow> map_sum id (Cons k') (decrypt_list lib pass ks))"

text \<open>\<open>Decrypt\<close> unlocks a key in place: the result is the entity after all of it.\<close>

definition unlockEntity :: "'p lib \<Rightarrow> 'p entity \<Rightarrow> bytes \<Rightarrow> error + 'p entity" where
  "unlockEntity lib e passphraseBytes =
     (case decrypt_opt lib passphraseBytes (ePrivateKey e) of
        Inl err \<Rightarrow> Inl err
      | Inr k \<Rightarrow>
          (case decrypt_list lib passphraseBytes (eSubkeys e) of
             Inl err \<Rightarrow> Inl err
           | Inr ks \<Rightarrow> Inr \<lparr>ePrivateKey = k, eSubkeys = ks\<rparr>))"

definition decryptPrivateKeyToken :: "'p lib \<Rightarrow> PrivateKey \<Rightarrow> 'p entity list \<Rightarrow> error + bytes" where
  "decryptPrivateKeyToken lib key userKeyRing =
     (case armor_Decode lib (pkToken key) of
        Inl e \<Rightarrow> Inl e
      | Inr block \<Rightarrow>
          (case ReadMessage lib block userKeyRing of
             Inl e \<Rightarrow> Inl e
           | Inr (Inl e) \<Rightarrow> Inl e
           | Inr (Inr b) \<Rightarrow>
               (case CheckArmoredDetachedSignature lib userKeyRing b (pkSignature key) of
                  Some e \<Rightarrow> Inl e
                | None \<Rightarrow> Inr (bytes_of b))))"

definition unlockPrivateKey ::
  "'p lib \<Rightarrow> PrivateKey \<Rightarrow> 'p entity list \<Rightarrow> bytes option \<Rightarrow> bytes \<Rightarrow> (error, 'p entity) outcome" where
  "unlockPrivateKey lib key userKeyRing keySalt passphraseBytes =
     (case PrivateKey_Entity lib key of
        Inl e \<Rightarrow> Err e
      | Inr entity \<Rightarrow>
          bindO
            (if pkToken key \<noteq> '''' then
               (case decryptPrivateKeyToken lib key userKeyRing of Inl e \<Rightarrow> Err e | Inr b \<Rightarrow> Ok b)
             else
               (case keySalt of
                  Some ks \<Rightarrow> computeKeyPassword (bcryptGenerate lib) passphraseBytes ks
                | None \<Rightarrow> Ok passphraseBytes))
            (\<lambda>passphraseBytes.
               case unlockEntity lib entity passphraseBytes of Inl e \<Rightarrow> Err e | Inr e \<Rightarrow> Ok e))"

definition salt_of :: "key_salts \<Rightarrow> string \<Rightarrow> bytes option" where
  "salt_of keySalts i = (case keySalts i of Some s \<Rightarrow> s | None \<Rightarrow> None)"

fun unlock_keys ::
  "'p lib \<Rightarrow> 'p entity list \<Rightarrow> key_salts \<Rightarrow> bytes \<Rightarrow> PrivateKey option list \<Rightarrow> ('w, 'p entity, 'p entity list) io" where
  "unlock_keys lib userKeyRing keySalts pass [] = returnP []"
| "unlock_keys lib userKeyRing keySalts pass (None # keys) = panicP ''nil pointer dereference''"
| "unlock_keys lib userKeyRing keySalts pass (Some key # keys) =
     (if pkActive key \<noteq> 1 then unlock_keys lib userKeyRing keySalts pass keys
      else
        (case unlockPrivateKey lib key userKeyRing (salt_of keySalts (pkID key)) pass of
           Panic msg \<Rightarrow> panicP msg
         | Err e \<Rightarrow>
             bindP (modifyP (emit [Log Warn ''protonmail: failed to unlock key''
                      [AttrS ''key_id'' (pkID key), AttrS ''fingerprint'' (pkFingerprint key),
                       AttrE ''error'' e]])) (\<lambda>_.
             unlock_keys lib userKeyRing keySalts pass keys)
         | Ok entity \<Rightarrow>
             bindP (unlock_keys lib userKeyRing keySalts pass keys) (\<lambda>keyRing.
             returnP (entity # keyRing))))"

definition unlockKeyRing ::
  "'p lib \<Rightarrow> PrivateKey option list \<Rightarrow> 'p entity list \<Rightarrow> key_salts \<Rightarrow> bytes \<Rightarrow> ('w, 'p entity, 'p entity list) io" where
  "unlockKeyRing lib keys userKeyRing keySalts passphraseBytes =
     bindP (unlock_keys lib userKeyRing keySalts passphraseBytes keys) (\<lambda>keyRing.
     if keyRing = [] then raiseP (Wrapped ''auth'' (Sentinel ErrNoUnlockableKeys))
     else returnP keyRing)"

fun unlock_addresses ::
  "'p lib \<Rightarrow> 'p entity list \<Rightarrow> key_salts \<Rightarrow> bytes \<Rightarrow> Address option list \<Rightarrow> ('w, 'p entity, 'p entity list) io" where
  "unlock_addresses lib userKeyRing keySalts pass [] = returnP []"
| "unlock_addresses lib userKeyRing keySalts pass (None # addrs) = panicP ''nil pointer dereference''"
| "unlock_addresses lib userKeyRing keySalts pass (Some addr # addrs) =
     bindP (tryP (unlockKeyRing lib (adrKeys addr) userKeyRing keySalts pass)) (\<lambda>r.
     case r of
       Inl e \<Rightarrow>
         bindP (modifyP (emit [Log Warn ''protonmail: failed to unlock address''
                  [AttrS ''address_id'' (adrID addr), AttrS ''email'' (adrEmail addr), AttrE ''error'' e]])) (\<lambda>_.
         unlock_addresses lib userKeyRing keySalts pass addrs)
     | Inr addrKeyRing \<Rightarrow>
         bindP (unlock_addresses lib userKeyRing keySalts pass addrs) (\<lambda>keyRing.
         returnP (addrKeyRing @ keyRing)))"

text \<open>\<open>Unlock\<close>.  A 2xx answer without a user makes \<open>u.Keys\<close> a nil dereference.\<close>

definition Client_Unlock ::
  "('w, 'p entity) env \<Rightarrow> 'p lib \<Rightarrow> Auth \<Rightarrow> key_salts \<Rightarrow> string \<Rightarrow> ('w, 'p entity, 'p entity list) io" where
  "Client_Unlock env lib session keySalts passphrase =
     bindP (modifyP (\<lambda>s. s\<lparr>cl := (cl s)\<lparr>uid := UID session, accessToken := AccessToken session\<rparr>\<rparr>)) (\<lambda>_.
     bindP (GetCurrentUser env) (\<lambda>u.
     (case u of
        None \<Rightarrow> panicP ''nil pointer dereference''
      | Some user \<Rightarrow>
          bindP (unlockKeyRing lib (usrKeys user) [] keySalts (bytes_of passphrase)) (\<lambda>userKeyRing.
          bindP (ListAddresses env) (\<lambda>addrs.
          bindP (unlock_addresses lib userKeyRing keySalts (bytes_of passphrase) addrs) (\<lambda>ring.
          if ring = [] then raiseP (Wrapped ''auth'' (Sentinel ErrNoUnlockableKeys))
          else
            bindP (modifyP (\<lambda>s. s\<lparr>cl := (cl s)\<lparr>keyRing := ring\<rparr>\<rparr>)) (\<lambda>_. returnP ring)))))))"

section \<open>Logout\<close>

definition Client_Logout :: "('w, 'k) env \<Rightarrow> ('w, 'k, unit) io" where
  "Client_Logout env =
     bindP (get_json env ''DELETE'' ''/auth'' [] zero_resp) (\<lambda>_.
     modifyP (\<lambda>s. s\<lparr>cl := (cl s)\<lparr>uid := '''', accessToken := '''', keyRing := []\<rparr>\<rparr>))"

section \<open>Calls of a client that is not signed in\<close>

definition signed_in :: "'k client \<Rightarrow> bool" where
  "signed_in c \<longleftrightarrow> uid c \<noteq> '''' \<and> accessToken c \<noteq> ''''"

text \<open>No call changes the client when there is no callback to run, or no header to make it run.\<close>

definition quiet :: "'k client \<Rightarrow> bool" where
  "quiet c \<longleftrightarrow> reauth c = None \<or> \<not> signed_in c"

lemma Header_Set_other: "CanonicalHeaderKey k \<noteq> k' \<Longrightarrow> Header_Set k v h k' = h k'"
  by (simp add: Header_Set_def)

lemma newRequest_returns: "\<exists>r s'. newRequest meth path body s = Some (r, s')"
  by (simp add: newRequest_def Let_def split: sum.split)

lemma newJSONRequest_returns: "\<exists>r s'. newJSONRequest meth path body s = Some (r, s')"
  using newRequest_returns [of meth path "BytesReader (json_encode body)" s]
  by (fastforce simp: newJSONRequest_def Let_def prog_defs split: outcome.split)

lemma newRequest_Ok:
  assumes "newRequest meth path body s = Some (r, s')"
  shows "cl s' = cl s \<and> world s' = world s \<and> nextBody s' = nextBody s \<and>
    (case r of Ok req \<Rightarrow> (Header req ''Authorization'' \<noteq> None) = signed_in (cl s) | _ \<Rightarrow> True) \<and>
    (\<forall>msg. r \<noteq> Panic msg)"
  using assms
  by (auto simp: newRequest_def http_NewRequest_def setRequestAuthorization_def Header_Set_def Let_def
      signed_in_def split: option.splits sum.splits)

lemma newJSONRequest_quiet:
  assumes "newJSONRequest meth path body s = Some (r, s')"
  shows "cl s' = cl s \<and> world s' = world s \<and> nextBody s' = nextBody s \<and>
    (case r of Ok req \<Rightarrow> (Header req ''Authorization'' \<noteq> None) = signed_in (cl s) | _ \<Rightarrow> True) \<and>
    (\<forall>msg. r \<noteq> Panic msg)"
proof -
  obtain r1 s1 where n: "newRequest meth path (BytesReader (json_encode body)) s = Some (r1, s1)"
    using assms by (auto simp: newJSONRequest_def Let_def bindP_def split: option.splits)
  show ?thesis using newRequest_Ok [OF n] assms n
    by (cases r1) (auto simp: newJSONRequest_def Let_def prog_defs Header_Set_def)
qed

text \<open>A program that returns a value or an error, and leaves the client alone.\<close>

definition settles :: "('w, 'k, 'a) io \<Rightarrow> ('w, 'k) st \<Rightarrow> bool" where
  "settles m s \<longleftrightarrow> (\<exists>r s'. m s = Some (r, s') \<and> cl s' = cl s \<and> (\<forall>msg. r \<noteq> Panic msg))"

lemma settlesE:
  assumes "settles m s"
  obtains (val) a s' where "m s = Some (Ok a, s')" "cl s' = cl s"
  | (fail) e s' where "m s = Some (Err e, s')" "cl s' = cl s"
proof -
  from assms obtain r s' where "m s = Some (r, s')" "cl s' = cl s" "\<forall>msg. r \<noteq> Panic msg"
    by (auto simp: settles_def)
  then show ?thesis using that by (cases r) auto
qed

lemma settles_simps [simp]:
  "settles (returnP a) s" "settles (raiseP e) s" "settles (getP f) s"
  "settles (liftP r) s = (\<forall>msg. r \<noteq> Panic msg)"
  "settles (modifyP (emit evs)) s"
  by (simp_all add: settles_def prog_defs)

lemma settles_bind:
  assumes "settles m s" and "\<And>a s'. m s = Some (Ok a, s') \<Longrightarrow> cl s' = cl s \<Longrightarrow> settles (f a) s'"
  shows "settles (bindP m f) s"
  using assms(1)
proof (cases rule: settlesE)
  case (val a s')
  with assms(2) [OF val] show ?thesis by (auto simp: settles_def bindP_def)
qed (simp add: settles_def bindP_def)

lemma settles_mapErr: "settles m s \<Longrightarrow> settles (mapErrP f m) s"
  by (auto simp: settles_def mapErrP_def split: outcome.split)

lemma settles_try: "settles m s \<Longrightarrow> settles (tryP m) s"
  by (auto simp: settles_def tryP_def split: outcome.split)

lemma doJSON_once:
  assumes "\<not> may_retry s (accept_json req)"
  shows "settles (doJSON env req dec zero err) s"
proof -
  from do_request_single [OF assms, of env] obtain r1 s1
    where run: "do_request env (accept_json req) s = Some (r1, s1)" and cl: "cl s1 = cl s"
      and "\<forall>msg. r1 \<noteq> Panic msg"
    by (auto split: prod.splits sum.splits)
  show ?thesis
  proof (cases r1)
    case (Ok resp)
    show ?thesis
    proof (cases "go_div (rStatusCode resp) 100 = 2")
      case True
      from doJSON_good_status [OF run [unfolded Ok] True, of dec zero err] cl show ?thesis
        by (auto simp: settles_def Let_def split: sum.splits option.splits)
    next
      case False
      from doJSON_bad_status [OF run [unfolded Ok] False, of dec zero err] cl show ?thesis
        by (auto simp: settles_def split: option.splits)
    qed
  next
    case (Err e)
    with run cl show ?thesis by (simp add: doJSON_failed_request settles_def)
  next
    case (Panic msg)
    with \<open>\<forall>msg. r1 \<noteq> Panic msg\<close> show ?thesis by simp
  qed
qed

lemma doJSON_quiet:
  assumes "Header req ''Authorization'' = None \<or> reauth (cl s) = None"
  shows "settles (doJSON env req dec zero err) s"
  using assms by (intro doJSON_once) (auto simp: may_retry_def)

lemma newRequest_settles: "settles (newRequest meth path body) s"
  using newRequest_returns [of meth path body s] newRequest_Ok by (fastforce simp: settles_def)

lemma newJSONRequest_settles: "settles (newJSONRequest meth path body) s"
  using newJSONRequest_returns [of meth path body s] newJSONRequest_quiet by (fastforce simp: settles_def)

lemma get_json_quiet: "quiet (cl s) \<Longrightarrow> settles (get_json env meth path fs zero) s"
  unfolding get_json_def
  by (intro settles_bind newRequest_settles doJSON_quiet) (auto dest!: newRequest_Ok simp: quiet_def)

lemma call_json_quiet: "quiet (cl s) \<Longrightarrow> settles (call_json env meth path body fs zero) s"
  unfolding call_json_def
  by (intro settles_bind newJSONRequest_settles doJSON_quiet) (auto dest!: newJSONRequest_quiet simp: quiet_def)

lemma Client_AuthInfo_quiet: "quiet (cl s) \<Longrightarrow> settles (Client_AuthInfo env username) s"
  unfolding Client_AuthInfo_def by (intro settles_bind call_json_quiet) simp_all

lemma decodeModulus_no_panic: "decodeModulus lib m \<noteq> Panic msg"
  by (simp add: decodeModulus_def split: option.split sum.split)

lemma hashPassword_no_panic: "hashPassword bcrypt v p sl m \<noteq> Panic msg"
  by (simp add: hashPassword_def hashBcrypt_def split: sum.split)

lemma srp_no_panic:
  assumes "srp lib password info rd = Some (r, rd')"
  shows "r \<noteq> Panic msg"
proof -
  have lift: "r \<noteq> Panic msg"
    if "bindP (liftP x) f rd = Some (r, rd')" "\<And>msg. x \<noteq> Panic msg" "\<And>a. f a rd = Some (r, rd') \<Longrightarrow> r \<noteq> Panic msg"
    for x :: "(error, 'b) outcome" and f :: "'b \<Rightarrow> (random, error, proofs) prog"
    using that by (cases x) (auto simp: raiseP_def)
  have b64: "base64_input what x \<noteq> Panic msg" for what x msg
    by (simp add: base64_input_def split: option.split)
  have last: "r \<noteq> Panic msg" if "generateProofs 2048 expandHash m h sb rd = Some (r, rd')" for m h sb
    using generateProofs_no_panic [of 2048 256, OF _ _ that] by simp
  show ?thesis
    by (rule lift [OF assms [unfolded srp_def] decodeModulus_no_panic], erule lift [OF _ b64], erule lift [OF _ b64],
        erule lift [OF _ hashPassword_no_panic], erule last)
qed

section \<open>Signing in and out\<close>

lemma VerifyServerProof_None:
  "VerifyServerProof p x = None \<Longrightarrow> b64_decode x = Some (expectedServerProof p)"
  by (auto simp: VerifyServerProof_def ConstantTimeCompare_iff split: option.splits if_splits)

lemma auth_simps [simp]: "UID (auth now r) = UID (arAuth r)" "AccessToken (auth now r) = AccessToken (arAuth r)"
  by (simp_all add: auth_def)

text \<open>Where the handshake's parameters come from, and the state after they are known.\<close>

definition auth_params ::
  "('w, 'k) env \<Rightarrow> string \<Rightarrow> AuthInfo option \<Rightarrow> ('w, 'k) st \<Rightarrow> AuthInfo \<Rightarrow> ('w, 'k) st \<Rightarrow> bool" where
  "auth_params env username info s params s1 \<longleftrightarrow>
     (case info of
        Some i \<Rightarrow> params = i \<and> s1 = s
      | None \<Rightarrow> Client_AuthInfo env username s = Some (Ok params, s1))"

text \<open>
  A session that the server has earned: the last request that was sent is the one to \<open>/auth\<close> with the
  proofs of a handshake with these parameters, the server's answer to it, in the world that
  it left, is a success whose server proof is the one that handshake expects, and the session is
  the one in that answer.
\<close>

definition verified_auth ::
  "('w, 'k) env \<Rightarrow> 'p lib \<Rightarrow> string \<Rightarrow> string \<Rightarrow> string \<Rightarrow> AuthInfo \<Rightarrow> random \<Rightarrow> ('w, 'k) st \<Rightarrow> Auth \<Rightarrow> bool" where
  "verified_auth env lib base username password params rd s' a \<longleftrightarrow>
     (\<exists>proofs rd' q w rep respData.
        srp lib (bytes_of password) params rd = Some (Ok proofs, rd') \<and>
        requests (trace s') \<noteq> [] \<and> q = last (requests (trace s')) \<and>
        Method q = ''POST'' \<and> URL q = base @ ''/auth'' \<and>
        ReqBody q = Some (json_encode (authReq_json
          \<lparr>aqUsername = username, aqSRPSession = srpSession params,
           aqClientEphemeral = b64_encode (clientEphemeral proofs),
           aqClientProof = b64_encode (clientProof proofs)\<rparr>)) \<and>
        Do env q w = (Inr rep, world s') \<and> 200 \<le> rStatusCode rep \<and> rStatusCode rep < 300 \<and>
        decoded (dec_struct (resp_fields @ authResp_fields)) zero_authResp (rContent rep) = Inr respData \<and>
        RawAPIError respData = None \<and>
        b64_decode (ServerProof respData) = Some (expectedServerProof proofs) \<and>
        a = auth (Now env (world s')) respData)"

lemma call_json_OkD:
  assumes "call_json env meth path body fs zero s = Some (Ok x, s')"
  obtains q w rep where "requests (trace s') \<noteq> []" "last (requests (trace s')) = q" "Method q = meth"
    "URL q = baseURL (cl s) @ path" "ReqBody q = Some (json_encode body)" "Do env q w = (Inr rep, world s')"
    "200 \<le> rStatusCode rep" "rStatusCode rep < 300"
    "decoded (dec_struct (resp_fields @ fs)) zero (rContent rep) = Inr x" "RawAPIError x = None"
proof -
  obtain req s1 where req: "newJSONRequest meth path body s = Some (Ok req, s1)"
    and run: "doJSON env req (dec_struct (resp_fields @ fs)) zero (Some resp_Err) s1 = Some (Ok x, s')"
    using assms by (auto simp: call_json_def bindP_Some_Ok)
  have wf: "well_formed_request req" "Method req = meth" "URL req = baseURL (cl s) @ path" "ReqBody req = Some (json_encode body)"
    using newJSONRequest_Ok [OF req] by auto
  show ?thesis
    by (rule doJSON_OkD [OF run wf(1)])
       (rule that, use wf in \<open>auto simp: resp_Err_def split: option.splits\<close>)
qed

lemma Client_Auth_OkD:
  assumes "Client_Auth env lib username password info s = Some (Ok a, s')"
  shows "\<exists>params s1. auth_params env username info s params s1 \<and>
     verified_auth env lib (baseURL (cl s1)) username password params (RandReader env (world s1)) s' a"
proof -
  obtain params s1 proofs s2 respData s3 where
    params: "auth_params env username info s params s1"
    and rand: "with_randReader env (srp lib (bytes_of password) params) s1 = Some (Ok proofs, s2)"
    and call: "call_json env ''POST'' ''/auth'' (authReq_json
          \<lparr>aqUsername = username, aqSRPSession = srpSession params,
           aqClientEphemeral = b64_encode (clientEphemeral proofs),
           aqClientProof = b64_encode (clientProof proofs)\<rparr>) authResp_fields zero_authResp s2 = Some (Ok respData, s3)"
    and proof_ok: "VerifyServerProof proofs (ServerProof respData) = None"
    and a: "a = auth (Now env (world s3)) respData" "world s' = world s3" "trace s' = trace s3"
    using assms
    by (auto simp: Client_Auth_def bindP_Some_Ok mapErrP_Some_Ok auth_params_def returnP_def getP_def modifyP_def raiseP_def split: option.splits)
  obtain rd' where run: "srp lib (bytes_of password) params (RandReader env (world s1)) = Some (Ok proofs, rd')"
    and s2: "cl s2 = cl s1"
    using rand by (auto simp: with_randReader_def split: option.splits)
  note proof_of = VerifyServerProof_None [OF proof_ok]
  show ?thesis
  proof (rule call_json_OkD [OF call])
    fix q w rep
    assume "requests (trace s3) \<noteq> []" "last (requests (trace s3)) = q" "Method q = ''POST''" "URL q = baseURL (cl s2) @ ''/auth''"
      "ReqBody q = Some (json_encode (authReq_json
          \<lparr>aqUsername = username, aqSRPSession = srpSession params,
           aqClientEphemeral = b64_encode (clientEphemeral proofs),
           aqClientProof = b64_encode (clientProof proofs)\<rparr>))"
      "Do env q w = (Inr rep, world s3)" "200 \<le> rStatusCode rep" "rStatusCode rep < 300"
      "decoded (dec_struct (resp_fields @ authResp_fields)) zero_authResp (rContent rep) = Inr respData" "RawAPIError respData = None"
    with run proof_of a s2 have "verified_auth env lib (baseURL (cl s1)) username password params (RandReader env (world s1)) s' a"
      unfolding verified_auth_def by (intro exI conjI) simp_all
    with params show ?thesis by blast
  qed
qed

text \<open>
  C3.  A session is only taken from a server that proved to know the verifier, on a client that is
  not signed in or has no callback.  If \<open>Auth\<close> succeeds, the last request was the
  one to \<open>/auth\<close> with the handshake's proofs, the server's own answer to it held the proof that
  this handshake expects of the server, and the client holds the user id and the access token of
  that answer.  If it fails at any step, with a wrong proof in the answer too, it returns an error
  and the client is as it was.  It never panics, and it fails to return only if the handshake
  never gets a secret from the random reader.
\<close>

theorem Auth_verifies_server:
  assumes "quiet (cl s)"
  shows "case Client_Auth env lib username password info s of
      None \<Rightarrow> \<exists>params s1. auth_params env username info s params s1 \<and>
        srp lib (bytes_of password) params (RandReader env (world s1)) = None
    | Some (r, s') \<Rightarrow>
        (case r of
           Ok a \<Rightarrow> cl s' = (cl s)\<lparr>uid := UID a, accessToken := AccessToken a\<rparr> \<and>
             (\<exists>params s1. auth_params env username info s params s1 \<and>
                verified_auth env lib (baseURL (cl s)) username password params (RandReader env (world s1)) s' a)
         | Err e \<Rightarrow> cl s' = cl s
         | Panic msg \<Rightarrow> False)"
proof -
  define first where "first = (case info of None \<Rightarrow> Client_AuthInfo env username | Some i \<Rightarrow> returnP i)"
  have first: "auth_params env username info s params s1 \<longleftrightarrow> first s = Some (Ok params, s1)" for params s1
    by (auto simp: auth_params_def first_def returnP_def split: option.split)
  have 1: "settles first s" using Client_AuthInfo_quiet [OF assms] by (simp add: first_def split: option.split)
  have same: "cl s1 = cl s" if "first s = Some (r, s1)" for r s1
    using 1 that by (auto simp: settles_def)
  note step = Client_Auth_def first_def [symmetric] bindP_def mapErrP_def
  from 1 show ?thesis
  proof (cases rule: settlesE)
    case (fail e s1)
    then show ?thesis by (simp add: step)
  next
    case (val params s1)
    show ?thesis
    proof (cases "srp lib (bytes_of password) params (RandReader env (world s1))")
      case None
      with val show ?thesis by (auto simp: first step with_randReader_def)
    next
      case (Some p)
      obtain r rd' where p: "p = (r, rd')" by (cases p)
      define s2 where "s2 = s1\<lparr>world := SetRandReader env rd' (world s1)\<rparr>"
      have rand: "with_randReader env (srp lib (bytes_of password) params) s1 = Some (r, s2)" and s2: "cl s2 = cl s"
        using Some p val by (simp_all add: with_randReader_def s2_def)
      show ?thesis
      proof (cases r)
        case (Ok proofs)
        define body where "body = authReq_json \<lparr>aqUsername = username, aqSRPSession = srpSession params,
          aqClientEphemeral = b64_encode (clientEphemeral proofs), aqClientProof = b64_encode (clientProof proofs)\<rparr>"
        have "quiet (cl s2)" using assms s2 by simp
        note call = call_json_quiet [OF this, of env "''POST''" "''/auth''" body authResp_fields zero_authResp]
        note step = step body_def [symmetric] val(1) rand Ok
        from call show ?thesis
        proof (cases rule: settlesE)
          case (fail e s3)
          with s2 show ?thesis by (simp add: step)
        next
          case answered: (val respData s3)
          show ?thesis
          proof (cases "VerifyServerProof proofs (ServerProof respData)")
            case None
            define a where "a = auth (Now env (world s3)) respData"
            have run: "Client_Auth env lib username password info s =
                Some (Ok a, s3\<lparr>cl := (cl s3)\<lparr>uid := UID a, accessToken := AccessToken a\<rparr>\<rparr>)"
              using None answered by (simp add: step a_def prog_defs)
            obtain params' t1 where t1: "auth_params env username info s params' t1" "verified_auth env lib (baseURL (cl t1)) username password
                params' (RandReader env (world t1)) (s3\<lparr>cl := (cl s3)\<lparr>uid := UID a, accessToken := AccessToken a\<rparr>\<rparr>) a"
              using Client_Auth_OkD [OF run] by blast
            moreover have "cl t1 = cl s" using t1(1) same by (simp add: first)
            ultimately show ?thesis unfolding run using answered(2) s2 by auto
          next
            case (Some e)
            with answered s2 show ?thesis by (simp add: step raiseP_def)
          qed
        qed
      next
        case (Err e)
        with val rand s2 show ?thesis by (simp add: step)
      next
        case (Panic msg)
        with srp_no_panic [OF Some [unfolded p], of msg] show ?thesis by simp
      qed
    qed
  qed
qed

text \<open>
  \<open>Logout\<close> forgets the session exactly when the server accepted it: after a success the
  user id, the access token and the key ring are empty and nothing else of the client has changed;
  after an error the client is as it was, so that the call can be made again.
\<close>

theorem Logout_clears_on_success:
  assumes "reauth (cl s) = None"
  shows "\<exists>r s'. Client_Logout env s = Some (r, s') \<and>
     (case r of
        Ok _ \<Rightarrow> cl s' = (cl s)\<lparr>uid := '''', accessToken := '''', keyRing := []\<rparr>
      | Err e \<Rightarrow> cl s' = cl s
      | Panic msg \<Rightarrow> False)"
proof -
  have "quiet (cl s)" using assms by (simp add: quiet_def)
  from get_json_quiet [OF this, of env "''DELETE''" "''/auth''" "[]" zero_resp] show ?thesis
    by (cases rule: settlesE)
       (simp_all add: Client_Logout_def bindP_def modifyP_def)
qed

section \<open>Refreshing\<close>

lemma AuthRefresh_settles: "quiet (cl s) \<Longrightarrow> settles (Client_AuthRefresh env a) s"
  unfolding Client_AuthRefresh_def
  by (intro settles_bind newJSONRequest_settles doJSON_quiet)
     (auto dest!: newJSONRequest_quiet simp: quiet_def Header_Set_other)

text \<open>
  \<open>AuthRefresh\<close> stores nothing: it returns the new session and leaves the client with the
  credentials it had, so that it is for the caller to install them.  The new session has the
  password mode of the expired one.
\<close>

theorem AuthRefresh_stores_nothing:
  assumes "quiet (cl s)"
  shows "\<exists>r s'. Client_AuthRefresh env expired s = Some (r, s') \<and> cl s' = cl s \<and>
     (case r of Ok a \<Rightarrow> PasswordMode a = PasswordMode expired | Err e \<Rightarrow> True | Panic msg \<Rightarrow> False)"
proof -
  have mode: "PasswordMode a = PasswordMode expired"
    if "Client_AuthRefresh env expired s = Some (Ok a, s')" for a s'
    using that by (auto simp: Client_AuthRefresh_def bindP_Some_Ok returnP_def getP_def)
  from AuthRefresh_settles [OF assms, of env expired] show ?thesis
    by (cases rule: settlesE) (auto dest: mode)
qed

text \<open>The callback the documentation suggests: \<open>func(ctx) error { _, err := c.AuthRefresh(ctx, a); return err }\<close>.\<close>

definition refresh_callback :: "('w, 'k) env \<Rightarrow> Auth \<Rightarrow> callback \<Rightarrow> ('w, 'k, unit) io" where
  "refresh_callback env a cb = bindP (Client_AuthRefresh env a) (\<lambda>_. returnP ())"

definition refresh_env :: "('w, 'k) env \<Rightarrow> Auth \<Rightarrow> ('w, 'k) env" where
  "refresh_env env a = env\<lparr>RunReAuth := refresh_callback env a\<rparr>"

lemma refresh_env_simps [simp]:
  "Do (refresh_env env a) = Do env" "RunReAuth (refresh_env env a) = refresh_callback env a"
  by (simp_all add: refresh_env_def)

lemma newJSONRequest_succeeds:
  assumes "url_parse (baseURL (cl s) @ path) = Some p"
  shows "\<exists>req s'. newJSONRequest meth path body s = Some (Ok req, s')"
  using assms by (simp add: newJSONRequest_def newRequest_def http_NewRequest_def prog_defs Let_def)

text \<open>A 2xx answer that decodes without an error envelope is the result.\<close>

lemma doJSON_answer:
  assumes do: "Do env (with_agent s (accept_json req)) (world s) = (Inr rep, w)"
    and ok: "200 \<le> rStatusCode rep" "rStatusCode rep < 300"
    and dec: "decoded (dec_struct (resp_fields @ fs)) zero (rContent rep) = Inr r" "RawAPIError r = None"
  shows "\<exists>s'. doJSON env req (dec_struct (resp_fields @ fs)) zero (Some resp_Err) s = Some (Ok r, s') \<and> cl s' = cl s"
proof -
  have "rStatusCode rep \<noteq> StatusUnauthorized" using ok by (simp add: StatusUnauthorized_def)
  note sent = do_request_accepted [OF do this]
  have "go_div (rStatusCode (response_of rep (nextBody s))) 100 = 2" using ok by (simp add: go_div_100)
  from doJSON_good_status [OF sent this, of "dec_struct (resp_fields @ fs)" zero "Some resp_Err"]
  show ?thesis using dec by (auto simp: resp_Err_def Let_def)
qed

lemma refresh_callback_succeeds:
  assumes refreshes: "\<And>q w. Header q ''Authorization'' = None \<Longrightarrow>
      \<exists>rep w' r. Do env q w = (Inr rep, w') \<and> 200 \<le> rStatusCode rep \<and> rStatusCode rep < 300 \<and>
        decoded (dec_struct (resp_fields @ authResp_fields)) zero_authResp (rContent rep) = Inr r \<and>
        RawAPIError r = None"
    and "accessToken (cl t) = ''''" and "url_parse (baseURL (cl t) @ ''/auth/refresh'') \<noteq> None"
  shows "\<exists>t'. refresh_callback env a cb t = Some (Ok (), t') \<and> cl t' = cl t"
proof -
  define body where "body = authRefreshReq_json \<lparr>rqRefreshToken = RefreshToken a, rqResponseType = ''token'',
    rqGrantType = ''refresh_token'', rqRedirectURI = ''http://www.protonmail.ch''\<rparr>"
  obtain req t1 where req: "newJSONRequest ''POST'' ''/auth/refresh'' body t = Some (Ok req, t1)"
    using newJSONRequest_succeeds assms(3) by blast
  have t1: "cl t1 = cl t" "Header req ''Authorization'' = None"
    using newJSONRequest_quiet [OF req] assms(2) by (auto simp: signed_in_def)
  define req1 where "req1 = req\<lparr>Header := Header_Set ''X-Pm-Uid'' (UID a) (Header req)\<rparr>"
  have "Header (with_agent t1 (accept_json req1)) ''Authorization'' = None"
    using t1 by (simp add: req1_def Header_Set_other)
  from refreshes [OF this, of "world t1"] obtain rep w' r
    where do: "Do env (with_agent t1 (accept_json req1)) (world t1) = (Inr rep, w')"
      and ok: "200 \<le> rStatusCode rep" "rStatusCode rep < 300"
      and dec: "decoded (dec_struct (resp_fields @ authResp_fields)) zero_authResp (rContent rep) = Inr r"
        "RawAPIError r = None" by blast
  from doJSON_answer [OF do ok dec] obtain t2
    where "doJSON env req1 (dec_struct (resp_fields @ authResp_fields)) zero_authResp (Some resp_Err) t1
      = Some (Ok r, t2)" "cl t2 = cl t1" by blast
  with req t1 show ?thesis
    by (simp add: refresh_callback_def Client_AuthRefresh_def body_def [symmetric] req1_def [symmetric] prog_defs)
qed

text \<open>
  C29.  The suggested callback makes the client loop.  Let the callback do nothing but call
  \<open>AuthRefresh\<close>, and let the server reject the expired token with 401 and grant every
  refresh.  As nothing stores the new token, each retry carries the expired one again, and
  the call never returns.
\<close>

theorem refresh_callback_diverges:
  assumes rejects: "\<And>q w. Header q ''Authorization'' = Header req0 ''Authorization'' \<Longrightarrow>
      \<exists>rep w'. Do env q w = (Inr rep, w') \<and> rStatusCode rep = 401"
    and refreshes: "\<And>q w. Header q ''Authorization'' = None \<Longrightarrow>
      \<exists>rep w' r. Do env q w = (Inr rep, w') \<and> 200 \<le> rStatusCode rep \<and> rStatusCode rep < 300 \<and>
        decoded (dec_struct (resp_fields @ authResp_fields)) zero_authResp (rContent rep) = Inr r \<and>
        RawAPIError r = None"
    and "url_parse (baseURL (cl s0) @ ''/auth/refresh'') \<noteq> None"
    and "may_retry s0 req0" and "well_formed_request req0"
  shows "do_request (refresh_env env a) req0 s0 = None"
proof (rule ccontr)
  define H U where "H = Header req0 ''Authorization''" and "U = baseURL (cl s0)"
  have callback: "\<exists>t'. refresh_callback env a cb t = Some (Ok (), t') \<and> cl t' = cl t"
    if "accessToken (cl t) = ''''" "baseURL (cl t) = U" for cb t
    using refresh_callback_succeeds [OF refreshes that(1)] assms(3) that(2) by (simp add: U_def)
  have loop: "\<not> (may_retry s req \<and> well_formed_request req \<and> Header req ''Authorization'' = H \<and> baseURL (cl s) = U)"
    if "do_request (refresh_env env a) req s = Some (r, s')" for req s r s'
    using that
  proof (induction rule: do_request_induct)
    case (stop req s r s')
    show ?case
    proof
      assume *: "may_retry s req \<and> well_formed_request req \<and> Header req ''Authorization'' = H \<and> baseURL (cl s) = U"
      then obtain rep w where do: "Do (refresh_env env a) (with_agent s req) (world s) = (Inr rep, w)"
          "rStatusCode rep = StatusUnauthorized"
        using rejects [of "with_agent s req" "world s"] by (auto simp: StatusUnauthorized_def H_def)
      obtain t where "refresh_callback env a (the (reauth (cl s))) (reauth_state (with_agent s req) rep w s) = Some (Ok (), t)"
        using callback [of "reauth_state (with_agent s req) rep w s"] * by auto
      with stop do_attempt_retry [OF do] * show False
        by (auto simp: next_request_def well_formed_request_def)
    qed
  next
    case (again req s req1 s1 r s')
    from again.hyps(1) obtain rep w where may: "may_retry s req"
      and run: "refresh_callback env a (the (reauth (cl s))) (reauth_state (with_agent s req) rep w s) = Some (Ok (), s1)"
      and nxt: "next_request (with_agent s req) s1 = Again req1"
      by (rule do_attempt_AgainD) simp
    show ?case
    proof
      assume *: "may_retry s req \<and> well_formed_request req \<and> Header req ''Authorization'' = H \<and> baseURL (cl s) = U"
      then have "cl s1 = (cl s)\<lparr>accessToken := ''''\<rparr>"
        using callback [of "reauth_state (with_agent s req) rep w s" "the (reauth (cl s))"] run by simp
      then have "may_retry s1 req1 \<and> well_formed_request req1 \<and> Header req1 ''Authorization'' = H \<and> baseURL (cl s1) = U"
        using * next_request_Again [OF nxt] nxt
        by (auto simp: may_retry_def setRequestAuthorization_def next_request_def well_formed_request_def split: if_splits)
      with again.IH show False by blast
    qed
  qed
  assume "do_request (refresh_env env a) req0 s0 \<noteq> None"
  then show False using loop assms(4,5) by (auto simp: H_def U_def)
qed

section \<open>Unlocking\<close>

lemma computeKeyPassword_no_panic:
  "bcrypt_format bcrypt \<Longrightarrow> computeKeyPassword bcrypt p sl \<noteq> Panic msg"
  using hashBcrypt_format [of bcrypt p sl]
  by (cases "bcrypt p bcryptCost sl") (auto simp: computeKeyPassword_def hashBcrypt_def bytes_of_def)

lemma unlockPrivateKey_no_panic:
  "bcrypt_format (bcryptGenerate lib) \<Longrightarrow> unlockPrivateKey lib key ring sl pass \<noteq> Panic msg"
  using computeKeyPassword_no_panic [of "bcryptGenerate lib" pass]
  by (auto simp: unlockPrivateKey_def bindO_def split: sum.split option.split outcome.split)

text \<open>What a key ring should hold: the entities of the active keys that unlock, in order.\<close>

definition unlocked :: "'p lib \<Rightarrow> 'p entity list \<Rightarrow> key_salts \<Rightarrow> bytes \<Rightarrow> PrivateKey \<Rightarrow> 'p entity option" where
  "unlocked lib ring salts pass key =
     (if pkActive key = 1 then
        (case unlockPrivateKey lib key ring (salt_of salts (pkID key)) pass of Ok e \<Rightarrow> Some e | _ \<Rightarrow> None)
      else None)"

definition key_warnings :: "'p lib \<Rightarrow> 'p entity list \<Rightarrow> key_salts \<Rightarrow> bytes \<Rightarrow> PrivateKey \<Rightarrow> event list" where
  "key_warnings lib ring salts pass key =
     (if pkActive key = 1 then
        (case unlockPrivateKey lib key ring (salt_of salts (pkID key)) pass of
           Err e \<Rightarrow> [Log Warn ''protonmail: failed to unlock key''
             [AttrS ''key_id'' (pkID key), AttrS ''fingerprint'' (pkFingerprint key), AttrE ''error'' e]]
         | _ \<Rightarrow> [])
      else [])"

lemma unlock_keys_run:
  assumes "bcrypt_format (bcryptGenerate lib)"
  shows "unlock_keys lib ring salts pass (map Some keys) s =
     Some (Ok (List.map_filter (unlocked lib ring salts pass) keys),
           emit (concat (map (key_warnings lib ring salts pass) keys)) s)"
proof (induction keys arbitrary: s)
  case Nil
  then show ?case by (simp add: returnP_def map_filter_simps emit_def)
next
  case (Cons key keys)
  then show ?case
    using unlockPrivateKey_no_panic [OF assms, of key ring]
    by (simp add: unlocked_def key_warnings_def map_filter_simps prog_defs emit_def split: outcome.split)
qed

text \<open>
  C27.  \<open>unlockKeyRing\<close> is a filter: the ring holds, in order, the entities of exactly those keys
  that are active and unlock, each key that fails is reported once and skipped, and the call
  fails, with an error that matches \<open>ErrNoUnlockableKeys\<close>, only when nothing is left.
\<close>

theorem unlockKeyRing_filters:
  assumes "bcrypt_format (bcryptGenerate lib)"
  shows "\<exists>r. unlockKeyRing lib (map Some keys) ring salts pass s =
       Some (r, emit (concat (map (key_warnings lib ring salts pass) keys)) s) \<and>
     (case r of
        Ok found \<Rightarrow> found = List.map_filter (unlocked lib ring salts pass) keys \<and> found \<noteq> []
      | Err e \<Rightarrow> errors_Is e ErrNoUnlockableKeys \<and> (\<forall>key \<in> set keys. unlocked lib ring salts pass key = None)
      | Panic msg \<Rightarrow> False)"
proof -
  have "List.map_filter f xs = [] \<longleftrightarrow> (\<forall>x \<in> set xs. f x = None)" for f :: "PrivateKey \<Rightarrow> 'a entity option" and xs
    by (induction xs) (auto simp: map_filter_simps split: option.splits)
  then show ?thesis
    by (auto simp: unlockKeyRing_def unlock_keys_run [OF assms] prog_defs)
qed

lemma unlock_keys_returns:
  "\<exists>r s'. unlock_keys lib ring salts pass keys s = Some (r, s') \<and> cl s' = cl s"
proof (induction lib ring salts pass keys arbitrary: s rule: unlock_keys.induct)
  case (3 lib ring salts pass key keys)
  let ?u = "unlockPrivateKey lib key ring (salt_of salts (pkID key)) pass"
  show ?case
  proof (cases "pkActive key = 1")
    case True
    show ?thesis
    proof (cases ?u)
      case (Ok e)
      from 3(2) [OF _ Ok, of s] True obtain r s1 where
        "unlock_keys lib ring salts pass keys s = Some (r, s1)" "cl s1 = cl s" by auto
      then show ?thesis using True Ok by (cases r) (auto simp: prog_defs)
    next
      case (Err e)
      with 3(3) [OF _ Err] True show ?thesis by (fastforce simp: bindP_def modifyP_def)
    qed (use True in \<open>simp add: prog_defs\<close>)
  qed (use 3(1) in simp)
qed (simp_all add: prog_defs)

lemma unlockKeyRing_returns:
  "\<exists>r s'. unlockKeyRing lib keys ring salts pass s = Some (r, s') \<and> cl s' = cl s"
proof -
  obtain r s' where "unlock_keys lib ring salts pass keys s = Some (r, s')" "cl s' = cl s"
    using unlock_keys_returns by blast
  then show ?thesis by (cases r) (auto simp: unlockKeyRing_def prog_defs)
qed

lemma unlock_addresses_returns:
  "\<exists>r s'. unlock_addresses lib ring salts pass addrs s = Some (r, s') \<and> cl s' = cl s"
proof (induction addrs arbitrary: s)
  case (Cons addr addrs)
  show ?case
  proof (cases addr)
    case (Some a)
    obtain r s1 where 1: "unlockKeyRing lib (adrKeys a) ring salts pass s = Some (r, s1)" "cl s1 = cl s"
      using unlockKeyRing_returns by blast
    show ?thesis
    proof (cases r)
      case (Ok k)
      obtain r2 s2 where "unlock_addresses lib ring salts pass addrs s1 = Some (r2, s2)" "cl s2 = cl s1"
        using Cons.IH by blast
      with 1 Ok Some show ?thesis by (cases r2) (auto simp: prog_defs)
    next
      case (Err e)
      with 1 Some show ?thesis
        using Cons.IH [of "emit [Log Warn ''protonmail: failed to unlock address''
                  [AttrS ''address_id'' (adrID a), AttrS ''email'' (adrEmail a), AttrE ''error'' e]] s1"]
        by (auto simp: prog_defs)
    qed (use 1 Some in \<open>auto simp: prog_defs\<close>)
  qed (simp add: prog_defs)
qed (simp add: prog_defs)

lemma GetCurrentUser_settles: "quiet (cl s) \<Longrightarrow> settles (GetCurrentUser env) s"
  unfolding GetCurrentUser_def by (intro settles_bind get_json_quiet) simp_all

lemma ListAddresses_settles: "quiet (cl s) \<Longrightarrow> settles (ListAddresses env) s"
  unfolding ListAddresses_def by (intro settles_bind get_json_quiet) simp_all

text \<open>A callback that leaves the key ring alone makes every request do so.\<close>

definition ring_safe :: "('w, 'k) env \<Rightarrow> bool" where
  "ring_safe env \<longleftrightarrow> (\<forall>cb t r t'. RunReAuth env cb t = Some (r, t') \<longrightarrow> keyRing (cl t') = keyRing (cl t))"

lemma do_request_ring:
  assumes "do_request env req s = Some (r, s')" and "ring_safe env"
  shows "keyRing (cl s') = keyRing (cl s)"
proof -
  have attempt: "keyRing (cl s1) = keyRing (cl s)" if run: "do_attempt env req s = Some (att, s1)" for req s att s1
  proof (cases rule: do_attempt_cases [of env s req])
    case (retry rep w)
    then obtain r where "RunReAuth env (the (reauth (cl s))) (reauth_state (with_agent s req) rep w s) = Some (r, s1)"
      using run by (auto simp: do_attempt_retry split: option.splits outcome.splits)
    with assms(2) show ?thesis unfolding ring_safe_def by fastforce
  qed (use run in \<open>auto simp: do_attempt_simps\<close>)
  from assms(1) show ?thesis by (induction rule: do_request_induct) (auto dest: attempt)
qed

lemma get_json_ring:
  assumes "get_json env meth path fs zero s = Some (r, s')" and "ring_safe env"
  shows "keyRing (cl s') = keyRing (cl s)"
proof -
  obtain r1 s1 where n: "newRequest meth path NilBody s = Some (r1, s1)" using newRequest_returns by blast
  show ?thesis
  proof (cases r1)
    case (Ok q)
    with assms(1) n have run: "doJSON env q (dec_struct (resp_fields @ fs)) zero (Some resp_Err) s1 = Some (r, s')"
      by (simp add: get_json_def bindP_def)
    then obtain r2 s2 where sent: "do_request env (accept_json q) s1 = Some (r2, s2)"
      by (auto simp: doJSON_def accept_json_def [symmetric] Let_def bindP_def split: option.splits)
    have "cl s' = cl s2"
      using run sent
      by (auto simp: doJSON_def accept_json_def [symmetric] Let_def prog_defs split: outcome.splits if_splits option.splits sum.splits prod.splits)
    with do_request_ring [OF sent assms(2)] newRequest_Ok [OF n] show ?thesis by simp
  qed (use assms(1) n newRequest_Ok [OF n] in \<open>auto simp: get_json_def bindP_def\<close>)
qed

lemma Unlock_start:
  "Client_Unlock env lib session salts passphrase s =
      bindP (GetCurrentUser env) (\<lambda>u. case u of None \<Rightarrow> panicP ''nil pointer dereference''
        | Some user \<Rightarrow>
          bindP (unlockKeyRing lib (usrKeys user) [] salts (bytes_of passphrase)) (\<lambda>userKeyRing.
          bindP (ListAddresses env) (\<lambda>addrs.
          bindP (unlock_addresses lib userKeyRing salts (bytes_of passphrase) addrs) (\<lambda>ring.
          if ring = [] then raiseP (Wrapped ''auth'' (Sentinel ErrNoUnlockableKeys))
          else bindP (modifyP (\<lambda>s. s\<lparr>cl := (cl s)\<lparr>keyRing := ring\<rparr>\<rparr>)) (\<lambda>_. returnP ring)))))
      (s\<lparr>cl := (cl s)\<lparr>uid := UID session, accessToken := AccessToken session\<rparr>\<rparr>)"
  by (simp add: Client_Unlock_def bindP_def [of "modifyP _"] modifyP_def)

lemma Unlock_ring:
  fixes env :: "('w, 'p entity) env"
  assumes "Client_Unlock env lib session salts passphrase s = Some (r, s')" and safe: "ring_safe env"
  shows "keyRing (cl s') = (case r of Ok ring \<Rightarrow> ring | _ \<Rightarrow> keyRing (cl s)) \<and> (\<forall>ring. r = Ok ring \<longrightarrow> ring \<noteq> [])"
proof -
  define K where "K = keyRing (cl s)"
  define s0 where "s0 = s\<lparr>cl := (cl s)\<lparr>uid := UID session, accessToken := AccessToken session\<rparr>\<rparr>"
  let ?J = "\<lambda>s :: ('w, 'p entity) st. keyRing (cl s) = K"
  let ?Q = "\<lambda>r (s' :: ('w, 'p entity) st). keyRing (cl s') = (case r of Ok ring \<Rightarrow> ring | _ \<Rightarrow> K) \<and> (\<forall>ring. r = Ok ring \<longrightarrow> ring \<noteq> [])"
  have step: "hoare ?J (bindP m f) ?Q"
    if "\<And>s r s'. m s = Some (r, s') \<Longrightarrow> keyRing (cl s') = keyRing (cl s)" "\<And>a. hoare ?J (f a) ?Q"
    for m :: "('w, 'p entity, 'x) io" and f
    by (rule hoare_bind [where R = "\<lambda>a. ?J"]) (use that in \<open>auto simp: hoare_def split: outcome.split\<close>)
  have user: "keyRing (cl s') = keyRing (cl s)" if "GetCurrentUser env s = Some (r, s')" for s r s'
    using that get_json_ring [OF _ safe] unfolding GetCurrentUser_def
    by (auto simp: bindP_def returnP_def split: option.splits outcome.splits prod.splits)
  have addresses: "keyRing (cl s') = keyRing (cl s)" if "ListAddresses env s = Some (r, s')" for s r s'
    using that get_json_ring [OF _ safe] unfolding ListAddresses_def
    by (auto simp: bindP_def returnP_def split: option.splits outcome.splits prod.splits)
  have keys: "keyRing (cl s') = keyRing (cl s)" if "unlockKeyRing lib ks ring salts pass s = Some (r, s')" for ks ring pass s r s'
    using that unlockKeyRing_returns [of lib ks ring salts pass s] by auto
  have more: "keyRing (cl s') = keyRing (cl s)" if "unlock_addresses lib ring salts pass as s = Some (r, s')" for as ring pass s r s'
    using that unlock_addresses_returns [of lib ring salts pass as s] by auto
  have "hoare ?J (bindP (GetCurrentUser env) (\<lambda>u. case u of None \<Rightarrow> panicP ''nil pointer dereference''
        | Some user \<Rightarrow>
          bindP (unlockKeyRing lib (usrKeys user) [] salts (bytes_of passphrase)) (\<lambda>userKeyRing.
          bindP (ListAddresses env) (\<lambda>addrs.
          bindP (unlock_addresses lib userKeyRing salts (bytes_of passphrase) addrs) (\<lambda>ring.
          if ring = [] then raiseP (Wrapped ''auth'' (Sentinel ErrNoUnlockableKeys))
          else bindP (modifyP (\<lambda>s. s\<lparr>cl := (cl s)\<lparr>keyRing := ring\<rparr>\<rparr>)) (\<lambda>_. returnP ring)))))) ?Q"
    apply (rule step, erule user)
    subgoal for u
      apply (cases u)
       apply (simp add: hoare_def panicP_def)
      apply simp
      apply (rule step, erule keys)
      apply (rule step, erule addresses)
      apply (rule step, erule more)
      apply (auto simp: hoare_def prog_defs)
      done
    done
  moreover have "?J s0" by (simp add: s0_def K_def)
  ultimately show ?thesis using assms(1) unfolding Unlock_start s0_def [symmetric] K_def by (auto dest: hoareD)
qed

lemma Unlock_without_callback:
  assumes "reauth (cl s) = None"
  shows "\<exists>r s'. Client_Unlock env lib session salts passphrase s = Some (r, s') \<and>
     cl s' = (cl s)\<lparr>uid := UID session, accessToken := AccessToken session,
       keyRing := (case r of Ok ring \<Rightarrow> ring | _ \<Rightarrow> keyRing (cl s))\<rparr> \<and>
     (\<forall>ring. r = Ok ring \<longrightarrow> ring \<noteq> [])"
proof -
  define s0 where "s0 = s\<lparr>cl := (cl s)\<lparr>uid := UID session, accessToken := AccessToken session\<rparr>\<rparr>"
  note start = Unlock_start [of env lib session salts passphrase s, folded s0_def]
  have q: "quiet (cl s0)" using assms by (simp add: quiet_def s0_def)
  have same: "cl s0 = (cl s)\<lparr>uid := UID session, accessToken := AccessToken session, keyRing := keyRing (cl s)\<rparr>"
    by (simp add: s0_def)
  from GetCurrentUser_settles [OF q, of env] show ?thesis
  proof (cases rule: settlesE)
    case (fail e s1)
    then show ?thesis unfolding start by (simp add: bindP_def same)
  next
    case user: (val u s1)
    show ?thesis
    proof (cases u)
      case None
      with user show ?thesis unfolding start by (simp add: prog_defs same)
    next
      case (Some x)
      obtain r2 s2 where 2: "unlockKeyRing lib (usrKeys x) [] salts (bytes_of passphrase) s1 = Some (r2, s2)"
          "cl s2 = cl s1" using unlockKeyRing_returns by blast
      show ?thesis
      proof (cases r2)
        case (Ok ring1)
        have "quiet (cl s2)" using q user 2 by simp
        from ListAddresses_settles [OF this, of env] show ?thesis
        proof (cases rule: settlesE)
          case (fail e s3)
          with user Some 2 Ok show ?thesis unfolding start by (simp add: bindP_def same)
        next
          case addrs: (val addrs s3)
          obtain r4 s4 where "unlock_addresses lib ring1 salts (bytes_of passphrase) addrs s3 = Some (r4, s4)"
              "cl s4 = cl s3" using unlock_addresses_returns by blast
          with user Some 2 Ok addrs show ?thesis unfolding start
            by (cases r4) (simp_all add: prog_defs same)
        qed
      qed (use user Some 2 in \<open>simp_all add: start bindP_def same\<close>)
    qed
  qed
qed

text \<open>
  C18.  \<open>Unlock\<close> installs the session first and the keys last.  Without a callback it always
  returns, the client holds the user id and the token of the given session whatever happens, nothing else
  but its key ring changes, and that is replaced exactly when the call succeeds, by the
  ring that is returned, which is not empty.  With a callback that does not change the key ring itself,
  and as often as it runs, the same holds of the key ring whenever the call returns.
\<close>

theorem Unlock_installs_session:
  "(reauth (cl s) = None \<longrightarrow>
     (\<exists>r s'. Client_Unlock env lib session salts passphrase s = Some (r, s') \<and>
        cl s' = (cl s)\<lparr>uid := UID session, accessToken := AccessToken session,
          keyRing := (case r of Ok ring \<Rightarrow> ring | _ \<Rightarrow> keyRing (cl s))\<rparr> \<and>
        (\<forall>ring. r = Ok ring \<longrightarrow> ring \<noteq> []))) \<and>
   (ring_safe env \<longrightarrow>
     (\<forall>r s'. Client_Unlock env lib session salts passphrase s = Some (r, s') \<longrightarrow>
        keyRing (cl s') = (case r of Ok ring \<Rightarrow> ring | _ \<Rightarrow> keyRing (cl s)) \<and>
        (\<forall>ring. r = Ok ring \<longrightarrow> ring \<noteq> [])))"
  using Unlock_without_callback Unlock_ring by blast

text \<open>What a salt on the wire stands for.\<close>

definition salt_value :: "string \<Rightarrow> bytes option" where
  "salt_value s = (if s = '''' then None else b64_decode s)"

lemma decode_salts_run:
  "decode_salts xs m =
     (if \<forall>x \<in> set xs. ksKeySalt x = '''' \<or> b64_decode (ksKeySalt x) \<noteq> None
      then Inr (m ++ map_of (rev (map (\<lambda>x. (ksID x, salt_value (ksKeySalt x))) xs)))
      else Inl (Wrapped ''failed to decode key salt payload'' (Opaque ''illegal base64 data'')))"
proof (induction xs arbitrary: m)
  case (Cons x xs)
  have shift: "m ++ map_of (rev (map f (x # xs))) = m(fst (f x) \<mapsto> snd (f x)) ++ map_of (rev (map f xs))"
    for f :: "key_salt \<Rightarrow> string \<times> bytes option"
    by (cases "f x") (simp add: map_add_assoc)
  show ?case
  proof (cases "ksKeySalt x = '''' \<or> b64_decode (ksKeySalt x) \<noteq> None")
    case True
    then have step: "decode_salts (x # xs) m = decode_salts xs (m(ksID x \<mapsto> salt_value (ksKeySalt x)))"
      by (auto simp: salt_value_def)
    from True have all: "(\<forall>y \<in> set (x # xs). ksKeySalt y = '''' \<or> b64_decode (ksKeySalt y) \<noteq> None) =
        (\<forall>y \<in> set xs. ksKeySalt y = '''' \<or> b64_decode (ksKeySalt y) \<noteq> None)" by simp
    show ?thesis unfolding step Cons.IH all shift fst_conv snd_conv by (rule refl)
  qed simp
qed simp

text \<open>
  \<open>ListKeySalts\<close> gives all the salts or none: if every non-empty salt is base64, the map
  has exactly the listed key IDs, the last entry of an ID wins, and an empty salt is nil;
  otherwise the whole call fails.
\<close>

theorem decode_salts_spec:
  "(case decode_salts xs Map.empty of
      Inr m \<Rightarrow> dom m = set (map ksID xs) \<and>
        (\<forall>ys x zs. xs = ys @ x # zs \<longrightarrow> ksID x \<notin> set (map ksID zs) \<longrightarrow> m (ksID x) = Some (salt_value (ksKeySalt x))) \<and>
        (\<forall>x \<in> set xs. salt_value (ksKeySalt x) = None \<longrightarrow> ksKeySalt x = '''')
    | Inl e \<Rightarrow> \<exists>x \<in> set xs. ksKeySalt x \<noteq> '''' \<and> b64_decode (ksKeySalt x) = None)"
proof -
  have "map_of (rev (map f (ys @ x # zs))) (fst (f x)) = Some (snd (f x))"
    if "fst (f x) \<notin> fst ` f ` set zs" for f :: "key_salt \<Rightarrow> string \<times> bytes option" and ys x zs
  proof -
    have "map_of (rev (map f zs)) (fst (f x)) = None" using that by (simp add: map_of_eq_None_iff)
    then show ?thesis by (cases "f x") (simp add: map_add_def)
  qed
  from this [of "\<lambda>x. (ksID x, salt_value (ksKeySalt x))"] show ?thesis
    by (auto simp: decode_salts_run dom_map_of_conv_image_fst image_image salt_value_def split: if_splits)
qed

section \<open>The contract of the callback\<close>

definition no_callback :: "callback \<Rightarrow> ('w, 'k, unit) io" where
  "no_callback cb = returnP ()"

interpretation no_reauth: tidy_env "env\<lparr>RunReAuth := no_callback\<rparr>" for env :: "('w, 'k) env"
  by unfold_locales (auto simp: no_callback_def returnP_def)

lemma newRequest_books:
  assumes "newRequest meth path body s = Some (r, s')"
  shows "\<exists>evs. s' = emit evs s \<and> opened evs = [] \<and> closed evs = []"
proof (cases "http_NewRequest meth (baseURL (cl s) @ path) body")
  case (Inl e)
  with assms show ?thesis by (intro exI [of _ "[]"]) (simp add: newRequest_def emit_def)
next
  case (Inr req)
  with assms show ?thesis
    by (intro exI [of _ "[Log Debug ''protonmail: request''
         [AttrS ''method'' (Method req), AttrS ''path'' (URLPath req)]]"])
       (simp add: newRequest_def Let_def)
qed

lemma newJSONRequest_books:
  assumes "newJSONRequest meth path body s = Some (r, s')" and "books_ok s"
  shows "books_ok s' \<and> still_open s' = still_open s"
proof -
  obtain r1 s1 where n: "newRequest meth path (BytesReader (json_encode body)) s = Some (r1, s1)"
    using newRequest_returns by blast
  then have 1: "books_ok s1 \<and> still_open s1 = still_open s"
    using newRequest_books [OF n] assms(2) by (auto simp: books_quiet)
  have "\<exists>evs. s' = emit evs s1 \<and> opened evs = [] \<and> closed evs = []"
  proof (cases r1)
    case (Ok req)
    with assms(1) n show ?thesis
      by (intro exI [of _ "[Log Debug ''protonmail: request body prepared''
            [AttrS ''method'' (Method req), AttrS ''path'' (URLPath req),
             AttrI ''bytes'' (int (length (json_encode body)))]]"])
         (simp add: newJSONRequest_def Let_def prog_defs)
  qed (use assms(1) n in \<open>auto simp: newJSONRequest_def Let_def bindP_def emit_def intro!: exI [of _ "[]"]\<close>)
  then obtain evs where "s' = emit evs s1" "opened evs = []" "closed evs = []" by blast
  with 1 show ?thesis using books_quiet [of evs s1] by simp
qed

text \<open>A callback that refreshes the session keeps the rule that \<open>doJSON\<close> relies on.\<close>

interpretation refresh: tidy_env "refresh_env (env\<lparr>RunReAuth := no_callback\<rparr>) a" for env :: "('w, 'k) env" and a
proof unfold_locales
  fix s s' :: "('w, 'k) st" and cb r
  define env0 where "env0 = env\<lparr>RunReAuth := no_callback\<rparr>"
  assume ok: "books_ok s" and "RunReAuth (refresh_env (env\<lparr>RunReAuth := no_callback\<rparr>) a) cb s = Some (r, s')"
  then obtain r1 where run: "Client_AuthRefresh env0 a s = Some (r1, s')"
    by (auto simp: refresh_callback_def env0_def [symmetric] bindP_def returnP_def
        split: option.splits outcome.splits)
  obtain body where body: "Client_AuthRefresh env0 a = bindP (newJSONRequest ''POST'' ''/auth/refresh'' body) (\<lambda>req.
     bindP (doJSON env0 (req\<lparr>Header := Header_Set ''X-Pm-Uid'' (UID a) (Header req)\<rparr>)
              (dec_struct (resp_fields @ authResp_fields)) zero_authResp (Some resp_Err)) (\<lambda>respData.
     bindP (getP (\<lambda>s. auth (Now env0 (world s)) respData)) (\<lambda>b.
     returnP (b\<lparr>PasswordMode := PasswordMode a\<rparr>))))"
    by (rule that [OF Client_AuthRefresh_def])
  obtain r2 s2 where n: "newJSONRequest ''POST'' ''/auth/refresh'' body s = Some (r2, s2)"
    using newJSONRequest_returns by blast
  note books = newJSONRequest_books [OF n ok]
  show "books_ok s' \<and> still_open s' = still_open s"
  proof (cases r2)
    case (Ok req)
    with run n obtain r3 where "doJSON env0 (req\<lparr>Header := Header_Set ''X-Pm-Uid'' (UID a) (Header req)\<rparr>)
        (dec_struct (resp_fields @ authResp_fields)) zero_authResp (Some resp_Err) s2 = Some (r3, s')"
      unfolding body by (auto simp: prog_defs split: option.splits outcome.splits)
    from no_reauth.doJSON_books [OF this [unfolded env0_def]] books show ?thesis by simp
  qed (use run n books in \<open>auto simp: body bindP_def\<close>)
qed

section \<open>An answer without a user\<close>

lemma get_json_answer:
  assumes "url_parse (baseURL (cl s) @ path) \<noteq> None"
    and answer: "\<And>q w. \<exists>w'. Do env q w = (Inr rep, w')"
    and ok: "200 \<le> rStatusCode rep" "rStatusCode rep < 300"
    and dec: "decoded (dec_struct (resp_fields @ fs)) zero (rContent rep) = Inr r" "RawAPIError r = None"
  shows "\<exists>s'. get_json env meth path fs zero s = Some (Ok r, s') \<and> cl s' = cl s"
proof -
  obtain req s1 where req: "newRequest meth path NilBody s = Some (Ok req, s1)"
    using assms(1) by (auto simp: newRequest_def http_NewRequest_def Let_def)
  obtain w' where "Do env (with_agent s1 (accept_json req)) (world s1) = (Inr rep, w')"
    using answer by blast
  from doJSON_answer [OF this ok dec] newRequest_Ok [OF req] req
  show ?thesis by (auto simp: get_json_def bindP_def)
qed

text \<open>
  A success without a user crashes the caller: if the server answers 200 with an empty
  object, \<open>GetCurrentUser\<close> returns a nil user and no error, and \<open>Unlock\<close> panics.
\<close>

theorem Unlock_panics_without_user:
  assumes "url_parse (baseURL (cl s) @ ''/users'') \<noteq> None"
    and "\<And>q w. \<exists>w'. Do env q w = (Inr \<lparr>rStatusCode = 200, rStatus = ''200 OK'', rContent = ''{}''\<rparr>, w')"
  shows "(\<exists>s'. GetCurrentUser env s = Some (Ok None, s')) \<and>
     (\<exists>s'. Client_Unlock env lib session salts passphrase s = Some (Panic ''nil pointer dereference'', s'))"
proof -
  have "json_decode ''{}'' = Inr (JObj [])"
    by (simp add: json_decode_def json_fuel_def skip_ws_def is_ws_def char_nat_def numeral_eq_Suc)
  then have dec: "decoded (dec_struct (resp_fields @ user_resp_fields)) zero_user_resp ''{}'' = Inr zero_user_resp"
    by (simp add: decoded_def)
  have user: "\<exists>t'. GetCurrentUser env t = Some (Ok None, t')" if "baseURL (cl t) = baseURL (cl s)" for t
    using get_json_answer [OF _ assms(2) _ _ _ , of t "''/users''" user_resp_fields zero_user_resp zero_user_resp "''GET''"]
      dec assms(1) that
    by (auto simp: GetCurrentUser_def bindP_def returnP_def zero_user_resp_def)
  define s0 where "s0 = s\<lparr>cl := (cl s)\<lparr>uid := UID session, accessToken := AccessToken session\<rparr>\<rparr>"
  obtain t' where "GetCurrentUser env s0 = Some (Ok None, t')" using user [of s0] by (auto simp: s0_def)
  then have "Client_Unlock env lib session salts passphrase s = Some (Panic ''nil pointer dereference'', t')"
    by (simp add: Client_Unlock_def bindP_def modifyP_def s0_def panicP_def)
  with user show ?thesis by blast
qed

end
