(* ===== verification/Json_Roundtrip.thy ===== *)
theory Json_Roundtrip
  imports Go_Json
begin

text \<open>
  The JSON printer and parser are inverse: what \<open>Encode\<close> writes, \<open>Decode\<close> and \<open>Unmarshal\<close>
  read back as the same value, for every value whose numbers are integers.  In particular the
  fuel of the parser is never used up on such a text.
\<close>

section \<open>Reading back what was printed\<close>

lemma unhex_lower_hex [simp]: "n < 16 \<Longrightarrow> unhex (lower_hex n) = Some n"
  by (auto simp: unhex_def lower_hex_def char_nat_def Let_def)

lemma unhex_digits: "unhex CHR ''0'' = Some 0" "unhex CHR ''2'' = Some 2"
  by (simp_all add: unhex_def char_nat_def)

lemma char_nat_eq: "char_nat c = n \<Longrightarrow> c = char_of n"
  by (simp add: char_nat_def) (metis char_of_char_nat char_nat_def)

lemma uescape_ascii:
  assumes "n < 128"
  shows "uescape (CHR ''0'' # CHR ''0'' # lower_hex (n div 16) # lower_hex (n mod 16) # t) = Some ([char_of n], t)"
proof -
  have "hex4 (CHR ''0'' # CHR ''0'' # lower_hex (n div 16) # lower_hex (n mod 16) # t) = Some (n, t)"
    using assms by (simp add: unhex_digits)
  with assms show ?thesis by (simp add: uescape_def utf8_def)
qed

lemma uescape_separator:
  assumes "is_separator r"
  shows "uescape (CHR ''2'' # CHR ''0'' # CHR ''2'' # lower_hex (char_nat (last r) mod 16) # t) = Some (r, t)"
proof -
  from assms have d: "char_nat (last r) = 168 \<and> r = utf8 8232 \<or> char_nat (last r) = 169 \<and> r = utf8 8233"
    by (auto simp: is_separator_def utf8_def char_nat_byte)
  have "hex4 (CHR ''2'' # CHR ''0'' # CHR ''2'' # lower_hex (char_nat (last r) mod 16) # t) = Some (8192 + 2 * 16 + char_nat (last r) mod 16, t)"
    by (simp add: unhex_digits)
  with d show ?thesis by (auto simp: uescape_def)
qed

lemma uescape_fffd: "uescape (CHR ''f'' # CHR ''f'' # CHR ''f'' # CHR ''d'' # t) = Some (utf8 65533, t)"
  by (simp add: uescape_def unhex_def char_nat_def)

lemma control_plain: "char_nat c < 32 \<Longrightarrow> c \<noteq> quote_char \<and> c \<noteq> backslash"
  by (auto simp: json_chars char_nat_def)

lemma print_char_cases:
  obtains (short) e where "print_char c = [backslash, e]" "e \<noteq> CHR ''u''" "simple_escape e = Some c"
    | (hex) "char_nat c < 32 \<or> c \<in> set ''<>&''"
        "print_char c = backslash # ''u00'' @ [lower_hex (char_nat c div 16), lower_hex (char_nat c mod 16)]"
    | (plain) "print_char c = [c]" "c \<noteq> quote_char" "c \<noteq> backslash" "\<not> char_nat c < 32"
proof -
  consider "c = quote_char \<or> c = backslash" | "char_nat c = 8" | "char_nat c = 12" | "char_nat c = 10"
    | "char_nat c = 13" | "char_nat c = 9"
    | "c \<noteq> quote_char" "c \<noteq> backslash" "char_nat c \<notin> {8, 12, 10, 13, 9}" "char_nat c < 32 \<or> c \<in> set ''<>&''"
    | "c \<noteq> quote_char" "c \<noteq> backslash" "char_nat c \<notin> {8, 12, 10, 13, 9}" "\<not> (char_nat c < 32 \<or> c \<in> set ''<>&'')"
    by blast
  then show thesis
  proof cases
    case 1
    then show ?thesis by (intro short [of c]) (auto simp: print_char_def simple_escape_def json_chars)
  next
    case 2
    with control_plain [of c] char_nat_eq [of c 8] show ?thesis
      by (intro short [of "CHR ''b''"]) (simp_all add: print_char_def simple_escape_def json_chars char_nat_byte)
  next
    case 3
    with control_plain [of c] char_nat_eq [of c 12] show ?thesis
      by (intro short [of "CHR ''f''"]) (simp_all add: print_char_def simple_escape_def json_chars char_nat_byte)
  next
    case 4
    with control_plain [of c] char_nat_eq [of c 10] show ?thesis
      by (intro short [of "CHR ''n''"]) (simp_all add: print_char_def simple_escape_def json_chars char_nat_byte)
  next
    case 5
    with control_plain [of c] char_nat_eq [of c 13] show ?thesis
      by (intro short [of "CHR ''r''"]) (simp_all add: print_char_def simple_escape_def json_chars char_nat_byte)
  next
    case 6
    with control_plain [of c] char_nat_eq [of c 9] show ?thesis
      by (intro short [of "CHR ''t''"]) (simp_all add: print_char_def simple_escape_def json_chars char_nat_byte)
  next
    case 7
    then show ?thesis by (intro hex) (auto simp: print_char_def Let_def)
  next
    case 8
    then show ?thesis by (intro plain) (auto simp: print_char_def Let_def)
  qed
qed

lemma parse_string_char:
  assumes "char_nat c < 128"
  shows "parse_string (print_char c @ t) = map_option (\<lambda>(x, y). (c # x, y)) (parse_string t)"
proof -
  consider e where "print_char c = [backslash, e]" "e \<noteq> CHR ''u''" "simple_escape e = Some c"
    | "char_nat c < 32 \<or> c \<in> set ''<>&''" "print_char c = backslash # ''u00'' @ [lower_hex (char_nat c div 16), lower_hex (char_nat c mod 16)]"
    | "print_char c = [c]" "c \<noteq> quote_char" "c \<noteq> backslash" "\<not> char_nat c < 32"
    by (rule print_char_cases)
  then show ?thesis
  proof cases
    case 1
    then show ?thesis by simp
  next
    case 2
    then show ?thesis by (simp add: uescape_ascii [OF assms])
  next
    case 3
    with assms show ?thesis by (simp add: parse_string_ascii)
  qed
qed

lemma parse_string_rune:
  assumes k: "rune_size s = k" "1 < k"
  shows "parse_string (print_rune (take k s) @ t) = map_option (\<lambda>(x, y). (take k s @ x, y)) (parse_string t)"
proof (cases "is_separator (take k s)")
  case True
  then show ?thesis by (simp add: print_rune_def uescape_separator)
next
  case False
  have l: "length (take k s) = k" using k rune_size_length [of s] by simp
  obtain a r where s: "s = a # r" using k by (cases s) auto
  with k have "128 \<le> char_nat a" using rune_size_high [of a r k a] by (cases k) auto
  moreover have "take k s = a # take (k - 1) r" using s k by (cases k) auto
  ultimately have "parse_string (take k s @ t) = map_option (\<lambda>(x, y). (take k s @ x, y)) (parse_string t)"
    using rune_size_prefix [OF k(1), of t] k(2) l by (intro parse_string_sequence) auto
  with False show ?thesis by (simp add: print_rune_def)
qed

text \<open>A string comes back with each byte that is part of no sequence replaced.\<close>

lemma parse_string_print: "parse_string (print_chars s @ quote_char # t) = Some (to_valid s, t)"
proof (induction s rule: to_valid.induct)
  case 1
  then show ?case by simp
next
  case (2 a s)
  consider "rune_size (a # s) = 0" | "rune_size (a # s) = 1" | "1 < rune_size (a # s)" by linarith
  then show ?case
  proof cases
    case 1
    with 2(1) [OF refl] show ?thesis
      by (simp add: print_chars.simps(2) [of a s] to_valid.simps(2) [of a s] uescape_fffd)
  next
    case 2
    with "2.IH"(2) [OF refl] show ?thesis
      by (simp add: print_chars.simps(2) [of a s] to_valid.simps(2) [of a s] parse_string_char rune_size_one)
  next
    case 3
    with 2(2) [OF refl] show ?thesis
      by (simp add: print_chars.simps(2) [of a s] to_valid.simps(2) [of a s] parse_string_rune Let_def del: take_Suc_Cons)
  qed
qed

text \<open>What may follow a number: the end, or one of the characters that the printer writes there.\<close>

definition ends_number :: "string \<Rightarrow> bool" where
  "ends_number t \<longleftrightarrow> t = [] \<or> hd t \<in> {CHR '','', CHR '']'', CHR ''}'', CHR 0x0A}"

lemma digits_show_nat: "list_all is_digit (show_nat n)"
proof (induction n rule: show_nat.induct)
  case (1 n)
  moreover have "is_digit (digit_char d)" if "d < 10" for d
    using that by (simp add: is_digit_def char_nat_def of_char_digit_char)
  ultimately show ?case by (cases "n < 10") (simp_all add: show_nat.simps [of n])
qed

lemma show_nat_leading_zero: "take 1 (show_nat n) = ''0'' \<Longrightarrow> show_nat n = ''0''"
proof (induction n rule: show_nat.induct)
  case (1 n)
  show ?case
  proof (cases "n < 10")
    case True
    with 1(2) show ?thesis by (simp add: show_nat.simps [of n])
  next
    case False
    with 1(2) have "take 1 (show_nat (n div 10)) = ''0''"
      by (cases "show_nat (n div 10)") (simp_all add: show_nat.simps [of n])
    with 1(1) False have "show_nat (n div 10) = ''0''" by simp
    then have "parse_nat (show_nat (n div 10)) = parse_nat ''0''" by simp
    then have "n div 10 = 0" by (simp add: parse_nat_def [of "''0''"] char_digit_def)
    with False show ?thesis by simp
  qed
qed

lemma takeWhile_digits:
  "list_all is_digit ds \<Longrightarrow> ends_number t \<Longrightarrow> takeWhile is_digit (ds @ t) = ds"
  by (cases t) (auto simp: takeWhile_append2 list_all_iff ends_number_def is_digit_def char_nat_def)

lemma parse_number_integer:
  assumes "(if take 1 s = ''-'' then (''-'', drop 1 s) else ([], s)) = (sg, s1)"
    and "takeWhile is_digit s1 = ds" and "take 1 ds = ''0'' \<Longrightarrow> ds = ''0''" and "ds \<noteq> []"
    and "drop (length ds) s1 = t" and "take 1 t \<noteq> ''.''" "take 1 t \<noteq> ''e''" "take 1 t \<noteq> ''E''"
  shows "parse_number s = Some (sg @ ds, t)"
proof -
  have z: "(if take 1 ds = ''0'' then ''0'' else ds) = ds" using assms(3) by auto
  show ?thesis
    unfolding parse_number_def assms(1)
    by (simp only: Let_def prod.case assms(2,5-8) z if_False simp_thms append_Nil append_Nil2 if_True assms(4) not_False_eq_True)
qed

lemma parse_number_Itoa:
  assumes "ends_number t"
  shows "parse_number (Itoa i @ t) = Some (Itoa i, t)"
proof -
  let ?ds = "show_nat (nat \<bar>i\<bar>)"
  let ?sg = "if i < 0 then ''-'' else []"
  have I: "Itoa i = ?sg @ ?ds" by (simp add: Itoa_def)
  have ds: "takeWhile is_digit (?ds @ t) = ?ds"
    using takeWhile_digits [OF digits_show_nat assms] .
  obtain d where d: "d < 10" "hd ?ds = digit_char d" using hd_show_nat by blast
  then have first: "take 1 (?ds @ t) \<noteq> ''-''"
    using digit_char_not_minus [of d] by (cases ?ds) auto
  have z: "?ds = ''0'' \<or> take 1 ?ds \<noteq> ''0''"
    using show_nat_leading_zero [of "nat \<bar>i\<bar>"] by auto
  have t: "take 1 t \<noteq> ''.''" "take 1 t \<noteq> ''e''" "take 1 t \<noteq> ''E''"
    using assms by (cases t; auto simp: ends_number_def)+
  show ?thesis
    unfolding I
    by (rule parse_number_integer [of _ "?sg" "?ds @ t"]) (use ds t z first in auto)
qed

section \<open>Values\<close>

fun json_ints :: "json \<Rightarrow> bool" where
  "json_ints (JNum lit) = (case parse_int lit of None \<Rightarrow> False | Some i \<Rightarrow> lit = Itoa i)"
| "json_ints (JArr vs) = list_all json_ints vs"
| "json_ints (JObj ms) = list_all (\<lambda>(k, v). json_ints v) ms"
| "json_ints _ = True"

text \<open>A value whose strings and keys are valid, and what becomes of one whose strings are not.\<close>

fun json_utf8 :: "json \<Rightarrow> bool" where
  "json_utf8 (JStr s) = valid_utf8 s"
| "json_utf8 (JArr vs) = list_all json_utf8 vs"
| "json_utf8 (JObj ms) = list_all (\<lambda>(k, v). valid_utf8 k \<and> json_utf8 v) ms"
| "json_utf8 _ = True"

fun json_coerce :: "json \<Rightarrow> json" where
  "json_coerce (JStr s) = JStr (to_valid s)"
| "json_coerce (JArr vs) = JArr (map json_coerce vs)"
| "json_coerce (JObj ms) = JObj (map (\<lambda>(k, v). (to_valid k, json_coerce v)) ms)"
| "json_coerce v = v"

lemma json_coerce_same: "json_utf8 v \<Longrightarrow> json_coerce v = v"
proof (induction v)
  case (JArr vs)
  then show ?case by (auto simp: list_all_iff intro: map_idI)
next
  case (JObj ms)
  have "(to_valid k, json_coerce v) = (k, v)" if "(k, v) \<in> set ms" for k v
    using JObj that by (fastforce simp: list_all_iff to_valid_same)
  then have "map (\<lambda>(k, v). (to_valid k, json_coerce v)) ms = ms" by (intro map_idI) auto
  then show ?case by simp
qed (simp_all add: to_valid_same)

lemma json_utf8_member: "json_utf8 (JObj ms) \<Longrightarrow> map_of ms k = Some v \<Longrightarrow> json_utf8 v"
  by (auto simp: list_all_iff dest!: map_of_SomeD)

lemma Itoa_first: "\<exists>c r. Itoa i = c # r \<and> (c = CHR ''-'' \<or> is_digit c)"
  using digits_show_nat [of "nat i"] show_nat_not_Nil [of "nat i"]
  by (cases "show_nat (nat i)") (auto simp: Itoa_def)

text \<open>No value starts with a space, or with a character that ends a list.\<close>

definition starts_value :: "char \<Rightarrow> bool" where
  "starts_value c \<longleftrightarrow> \<not> is_ws c \<and> c \<notin> set '',]}:''"

lemma print_first: "json_ints v \<Longrightarrow> \<exists>c r. json_print v = c # r \<and> starts_value c"
  using Itoa_first
  by (cases v) (fastforce simp: starts_value_def is_ws_def print_string_def json_chars char_nat_def is_digit_def
      split: option.splits)+

lemma skip_ws_starts: "starts_value c \<Longrightarrow> skip_ws (c # r) = c # r"
  by (simp add: skip_ws_def starts_value_def)

lemma skip_ws_punct [simp]:
  "skip_ws (CHR '','' # r) = CHR '','' # r" "skip_ws (CHR '']'' # r) = CHR '']'' # r"
  "skip_ws (CHR ''}'' # r) = CHR ''}'' # r" "skip_ws (CHR '':'' # r) = CHR '':'' # r"
  "skip_ws (CHR ''{'' # r) = CHR ''{'' # r" "skip_ws (CHR ''['' # r) = CHR ''['' # r"
  "skip_ws (quote_char # r) = quote_char # r"
  "skip_ws (CHR ''n'' # r) = CHR ''n'' # r" "skip_ws (CHR ''t'' # r) = CHR ''t'' # r" "skip_ws (CHR ''f'' # r) = CHR ''f'' # r"
  by (simp_all add: skip_ws_def is_ws_def char_nat_def quote_char_def)

lemma print_elems_first:
  "vs \<noteq> [] \<Longrightarrow> list_all json_ints vs \<Longrightarrow> \<exists>c r. print_elems vs = c # r \<and> starts_value c"
  using print_first by (cases vs rule: print_elems.cases) fastforce+

lemma parse_value_number:
  assumes "ends_number t" and "n \<noteq> 0"
  shows "parse_value n (Itoa i @ t) = Some (JNum (Itoa i), t)"
proof -
  obtain c r where c: "Itoa i = c # r" "c = CHR ''-'' \<or> is_digit c" using Itoa_first by blast
  then have "skip_ws (c # r @ t) = c # r @ t" "c \<noteq> CHR ''{''" "c \<noteq> CHR ''[''" "c \<noteq> quote_char"
      "c \<noteq> CHR ''n''" "c \<noteq> CHR ''t''" "c \<noteq> CHR ''f''"
    by (auto simp: skip_ws_def is_ws_def is_digit_def char_nat_def quote_char_def)
  with c assms parse_number_Itoa [OF assms(1), of i] show ?thesis by (cases n) simp_all
qed

lemma print_lengths:
  "0 < length (json_print v)" if "json_ints v" for v
  using print_first [OF that] by auto

lemma parse_print:
  "\<lbrakk>json_ints v; ends_number t; 2 * length (json_print v) \<le> n\<rbrakk> \<Longrightarrow> parse_value n (json_print v @ t) = Some (json_coerce v, t)"
  "\<lbrakk>list_all json_ints vs; vs \<noteq> []; 2 * length (print_elems vs) < n\<rbrakk> \<Longrightarrow>
     parse_elems n (print_elems vs @ CHR '']'' # t) = Some (map json_coerce vs, t)"
  "\<lbrakk>list_all (\<lambda>(k, v). json_ints v) ms; ms \<noteq> []; 2 * length (print_members ms) < n\<rbrakk> \<Longrightarrow>
     parse_members n (print_members ms @ CHR ''}'' # t) = Some (map (\<lambda>(k, v). (to_valid k, json_coerce v)) ms, t)"
proof (induction v and vs and ms arbitrary: n t and n t and n t rule: json_print_print_elems_print_members.induct)
  case 1
  then show ?case by (cases n) (simp_all add: quote_char_def)
next
  case (2 b)
  then show ?case by (cases n; cases b) (simp_all add: quote_char_def)
next
  case (3 lit)
  then obtain i where i: "lit = Itoa i" by (auto split: option.splits)
  with 3(3) Itoa_first [of i] have "n \<noteq> 0" by auto
  with 3 i show ?case by (simp add: parse_value_number)
next
  case (4 s)
  then obtain m where "n = Suc m" by (cases n) (simp_all add: print_string_def)
  then show ?case by (simp add: print_string_def parse_string_print)
next
  case (5 vs)
  then obtain m where n: "n = Suc m" "2 * length (print_elems vs) < m" by (cases n) simp_all
  show ?case
  proof (cases "vs = []")
    case False
    with 5 n have "parse_elems m (print_elems vs @ CHR '']'' # t) = Some (map json_coerce vs, t)" by simp
    moreover obtain c r where "print_elems vs = c # r" "starts_value c"
      using print_elems_first [OF False] 5(2) by auto
    ultimately show ?thesis using n by (simp add: skip_ws_starts) (simp add: starts_value_def)
  qed (use n in simp)
next
  case (6 ms)
  then obtain m where n: "n = Suc m" "2 * length (print_members ms) < m" by (cases n) simp_all
  show ?case
  proof (cases "ms = []")
    case False
    with 6 n have "parse_members m (print_members ms @ CHR ''}'' # t) = Some (map (\<lambda>(k, v). (to_valid k, json_coerce v)) ms, t)" by simp
    moreover obtain r where "print_members ms = quote_char # r"
      using False by (cases ms rule: print_members.cases) (simp_all add: print_string_def)
    ultimately show ?thesis using n by simp (simp add: quote_char_def)
  qed (use n in simp)
next
  case (8 v)
  then obtain m where n: "n = Suc m" by (cases n) simp_all
  with 8 have "parse_value m (json_print v @ CHR '']'' # t) = Some (json_coerce v, CHR '']'' # t)"
    by (simp add: ends_number_def)
  with n show ?case by simp
next
  case (9 v w vs)
  then obtain m where n: "n = Suc m" by (cases n) simp_all
  with 9 have "parse_value m (json_print v @ CHR '','' # print_elems (w # vs) @ CHR '']'' # t) =
      Some (json_coerce v, CHR '','' # print_elems (w # vs) @ CHR '']'' # t)"
    by (simp add: ends_number_def)
  moreover from 9 n have "parse_elems m (print_elems (w # vs) @ CHR '']'' # t) = Some (map json_coerce (w # vs), t)" by simp
  ultimately show ?case using n by simp
next
  case (11 k v)
  then obtain m where n: "n = Suc m" by (cases n) simp_all
  with 11 have "parse_value m (json_print v @ CHR ''}'' # t) = Some (json_coerce v, CHR ''}'' # t)"
    by (simp add: ends_number_def)
  with n show ?case by (simp add: print_string_def parse_string_print)
next
  case (12 k v x ms)
  then obtain m where n: "n = Suc m" by (cases n) simp_all
  with 12 have "parse_value m (json_print v @ CHR '','' # print_members (x # ms) @ CHR ''}'' # t) =
      Some (json_coerce v, CHR '','' # print_members (x # ms) @ CHR ''}'' # t)"
    by (simp add: ends_number_def)
  moreover from 12 n have "parse_members m (print_members (x # ms) @ CHR ''}'' # t) = Some (map (\<lambda>(k, v). (to_valid k, json_coerce v)) (x # ms), t)" by simp
  ultimately show ?case using n by (simp add: print_string_def parse_string_print)
qed simp_all

text \<open>
  What was encoded is decoded as it was, with its strings made valid, by \<open>Decode\<close>, which
  stops after the value, and by \<open>Unmarshal\<close>, which does not.  The fuel of the parser is thus
  enough for every text that the printer writes.
\<close>

lemma json_coerced:
  assumes "json_ints v"
  shows "json_decode (json_encode v) = Inr (json_coerce v)" and "json_unmarshal (json_encode v) = Inr (json_coerce v)"
proof -
  have "parse_value (json_fuel (json_encode v)) (json_encode v) = Some (json_coerce v, [CHR 0x0A])"
    using parse_print(1) [OF assms, of "[CHR 0x0A]"]
    by (simp add: json_encode_def json_fuel_def ends_number_def del: parse_value.simps)
  moreover have "skip_ws (json_encode v) \<noteq> []"
    using print_first [OF assms] by (auto simp: json_encode_def skip_ws_starts)
  moreover have "skip_ws [CHR 0x0A] = []" by (simp add: skip_ws_def is_ws_def char_nat_def)
  ultimately show "json_decode (json_encode v) = Inr (json_coerce v)" "json_unmarshal (json_encode v) = Inr (json_coerce v)"
    by (simp_all add: json_decode_def json_unmarshal_def del: parse_value.simps)
qed

lemma json_roundtrip:
  assumes "json_ints v" and "json_utf8 v"
  shows "json_decode (json_encode v) = Inr v" and "json_unmarshal (json_encode v) = Inr v"
  using json_coerced [OF assms(1)] by (simp_all add: json_coerce_same [OF assms(2)])

section \<open>What is read is valid\<close>

lemma unhex_less: "unhex c = Some n \<Longrightarrow> n < 16"
  by (auto simp: unhex_def Let_def split: if_splits)

lemma hex4_less:
  assumes "hex4 s = Some (n, t)"
  shows "n < 65536"
  using assms
proof (induction s rule: hex4.induct)
  case (1 a b c d rest)
  then obtain p q r u where "unhex a = Some p" "unhex b = Some q" "unhex c = Some r" "unhex d = Some u"
    and "n = ((p * 16 + q) * 16 + r) * 16 + u"
    by (auto split: option.splits)
  with unhex_less [of a p] unhex_less [of b q] unhex_less [of c r] unhex_less [of d u] show ?case by simp
qed simp_all

lemma uescape_valid:
  assumes "uescape s = Some (u, t)" and "valid_utf8 x"
  shows "valid_utf8 (u @ x)"
proof -
  have "\<exists>n. u = utf8 n \<and> n < 1114112 \<and> (n < 55296 \<or> 57344 \<le> n)"
    using assms(1) by (fastforce simp: uescape_def dest: hex4_less split: option.splits if_splits bool.splits)
  with assms(2) show ?thesis by (auto intro: valid_utf8_rune)
qed

lemma simple_escape_ascii: "simple_escape e = Some d \<Longrightarrow> char_nat d < 128"
  by (auto simp: simple_escape_def json_chars char_nat_def split: if_splits)

lemma parse_string_valid: "parse_string s = Some (x, t) \<Longrightarrow> valid_utf8 x"
proof (induction s arbitrary: x t rule: parse_string.induct)
  case (2 c cs)
  consider "c = quote_char" | e r where "c = backslash" "cs = e # r" | "c = backslash" "cs = []"
    | "c \<noteq> quote_char" "c \<noteq> backslash"
    by (cases cs) auto
  then show ?case
  proof cases
    case 2
    show ?thesis
    proof (cases "e = CHR ''u''")
      case True
      with 2 "2.prems" obtain u t' x' where "uescape r = Some (u, t')" "parse_string t' = Some (x', t)" "x = u @ x'"
        by (auto split: option.splits)
      with 2 True "2.IH"(1) [of e r "(u, t')" u t' x' t] show ?thesis by (auto simp: json_chars intro: uescape_valid)
    next
      case False
      with 2 "2.prems" obtain d x' where "simple_escape e = Some d" "parse_string r = Some (x', t)" "x = d # x'"
        by (auto split: option.splits)
      with 2 False "2.IH"(2) [of e r d x' t] simple_escape_ascii [of e d] show ?thesis by (simp add: json_chars)
    qed
  next
    case 4
    with "2.prems" "2.IH"(3,4) valid_utf8_rune [of 65533] valid_rune [OF refl, of "c # cs"] show ?thesis
      by (auto simp: parse_string.simps(2) Let_def simp del: take_Suc_Cons split: if_splits)
  qed (use "2.prems" in \<open>auto simp: parse_string.simps(2) json_chars\<close>)
qed simp

lemma parse_value_cases:
  assumes "parse_value (Suc n) s = Some (v, t)"
  obtains ms r where "v = JObj ms" "parse_members n r = Some (ms, t)" "skip_ws s = CHR ''{'' # r"
  | vs r where "v = JArr vs" "parse_elems n r = Some (vs, t)" "skip_ws s = CHR ''['' # r"
  | x r where "v = JStr x" "parse_string r = Some (x, t)"
  | "v \<in> {JObj [], JArr [], JNull, JBool True, JBool False}"
  | x where "v = JNum x"
  using assms by (auto split: list.splits if_splits)

lemma parse_utf8_all:
  "(\<forall>s v t. parse_value n s = Some (v, t) \<longrightarrow> json_utf8 v) \<and>
   (\<forall>s vs t. parse_elems n s = Some (vs, t) \<longrightarrow> list_all json_utf8 vs) \<and>
   (\<forall>s ms t. parse_members n s = Some (ms, t) \<longrightarrow> list_all (\<lambda>(k, v). valid_utf8 k \<and> json_utf8 v) ms)"
proof (induction n)
  case (Suc n)
  then have IH: "parse_value n s = Some (v, t) \<Longrightarrow> json_utf8 v"
      "parse_elems n s = Some (vs, t) \<Longrightarrow> list_all json_utf8 vs"
      "parse_members n s = Some (ms, t) \<Longrightarrow> list_all (\<lambda>(k, v). valid_utf8 k \<and> json_utf8 v) ms" for s v t vs ms
    by blast+
  have "json_utf8 v" if "parse_value (Suc n) s = Some (v, t)" for s v t
    using that by (cases rule: parse_value_cases) (auto dest: IH parse_string_valid)
  moreover have "list_all json_utf8 vs" if "parse_elems (Suc n) s = Some (vs, t)" for s vs t
    using that by (auto split: option.splits if_splits) (erule IH)+
  moreover have "list_all (\<lambda>(k, v). valid_utf8 k \<and> json_utf8 v) ms" if "parse_members (Suc n) s = Some (ms, t)" for s ms t
    using that by (auto split: option.splits if_splits) (erule IH parse_string_valid)+
  ultimately show ?case by blast
qed simp

text \<open>Whatever text is read, the strings of the value are valid.\<close>

lemma json_decode_utf8:
  "json_decode s = Inr v \<Longrightarrow> json_utf8 v" "json_unmarshal s = Inr v \<Longrightarrow> json_utf8 v"
  by (auto simp: json_decode_def json_unmarshal_def dest: parse_utf8_all [THEN conjunct1, rule_format] split: option.splits if_splits)

end
