(* ===== verification/Calls.thy ===== *)
theory Calls
  imports Auth Json_Roundtrip
begin

text \<open>
  What a call of the API sends.  Without a re-authentication in play, a call sends exactly one
  request, whose method, URL and body are those it was made from, and none when the URL does
  not parse.
\<close>


text \<open>
  What every request of a client carries: the versions, the user agent and, when the client is signed
  in, its user id and token.
\<close>

definition stamped :: "'k client \<Rightarrow> request \<Rightarrow> bool" where
  "stamped c q \<longleftrightarrow>
     Header q ''X-Pm-Appversion'' = Some [appVersion c] \<and> Header q ''X-Pm-Apiversion'' = Some [''3''] \<and>
     Header q ''User-Agent'' = Some [userAgent c] \<and> Header q ''Accept'' = Some [''application/json''] \<and>
     Header q ''Authorization'' = (if signed_in c then Some [''Bearer '' @ accessToken c] else None) \<and>
     Header q ''X-Pm-Uid'' = (if signed_in c then Some [uid c] else None)"

text \<open>The same before the request goes to \<open>doJSON\<close> and \<open>do\<close>, which add their own.\<close>

definition prepared :: "'k client \<Rightarrow> request \<Rightarrow> bool" where
  "prepared c q \<longleftrightarrow>
     Header q ''X-Pm-Appversion'' = Some [appVersion c] \<and> Header q ''X-Pm-Apiversion'' = Some [''3''] \<and>
     Header q ''Authorization'' = (if signed_in c then Some [''Bearer '' @ accessToken c] else None) \<and>
     Header q ''X-Pm-Uid'' = (if signed_in c then Some [uid c] else None)"

lemma prepared_stamped: "prepared c q \<Longrightarrow> cl s = c \<Longrightarrow> stamped c (with_agent s (accept_json q))"
  by (auto simp add: prepared_def stamped_def with_agent_def accept_json_def Header_Set_def)

lemma content_kept: "Header (with_agent s (accept_json q)) ''Content-Type'' = Header q ''Content-Type''"
  by (simp add: with_agent_def accept_json_def Header_Set_def)

lemma prepared_simps [simp]:
  "prepared c (q\<lparr>Header := Header_Set ''Content-Type'' v (Header q)\<rparr>) = prepared c q"
  "prepared c (q\<lparr>GetBody := g\<rparr>) = prepared c q"
  by (simp_all add: prepared_def Header_Set_def)

lemma prepared_new:
  "Header q = Header_Set ''X-Pm-Apiversion'' (Itoa APIVersion) (Header_Set ''X-Pm-Appversion'' (appVersion c) Map.empty) \<Longrightarrow>
     prepared c (setRequestAuthorization c q)"
  by (simp add: prepared_def setRequestAuthorization_def signed_in_def Header_Set_def APIVersion_def Itoa_def
      show_nat.simps digit_char_def char_of_def bit_0)

text \<open>The one request of a call: \<open>sends m s meth path body\<close>.\<close>

definition sends :: "('w, 'k, 'a) io \<Rightarrow> ('w, 'k) st \<Rightarrow> string \<Rightarrow> string \<Rightarrow> string option \<Rightarrow> bool" where
  "sends m s meth path body \<longleftrightarrow>
     (\<forall>r s'. m s = Some (r, s') \<longrightarrow>
        (if url_parse (baseURL (cl s) @ path) = None
         then requests (trace s') = requests (trace s) \<and> (\<exists>e. r = Err e)
         else \<exists>q. requests (trace s') = requests (trace s) @ [q] \<and> Method q = meth \<and>
                URL q = baseURL (cl s) @ path \<and> ReqBody q = body \<and> stamped (cl s) q \<and>
                (body \<noteq> None \<longrightarrow> Header q ''Content-Type'' = Some [''application/json''])))"

lemma sends_D:
  assumes "sends m s meth path body" "m s = Some (r, s')" "url_parse (baseURL (cl s) @ path) \<noteq> None"
  obtains q where "requests (trace s') = requests (trace s) @ [q]" "Method q = meth"
    "URL q = baseURL (cl s) @ path" "ReqBody q = body"
  using assms by (fastforce simp: sends_def)

lemma bind_return_run:
  assumes "bindP m (\<lambda>r. returnP (f r)) s = Some (x, s')"
  obtains r where "m s = Some (r, s')" "\<And>e. r = Err e \<Longrightarrow> x = Err e"
proof -
  from assms obtain r t where "m s = Some (r, t)" by (auto simp: bindP_def split: option.splits)
  with assms have "m s = Some (r, s') \<and> (\<forall>e. r = Err e \<longrightarrow> x = Err e)"
    by (cases r) (auto simp: bindP_def returnP_def)
  then show ?thesis by (intro that [of r]) auto
qed

lemma sends_bind_return:
  assumes "sends m s meth path body"
  shows "sends (bindP m (\<lambda>r. returnP (f r))) s meth path body"
  unfolding sends_def
proof (intro allI impI)
  fix x s'
  assume run: "bindP m (\<lambda>r. returnP (f r)) s = Some (x, s')"
  obtain r where "m s = Some (r, s')" "\<forall>e. r = Err e \<longrightarrow> x = Err e"
    by (rule bind_return_run [OF run]) auto
  with assms show "if url_parse (baseURL (cl s) @ path) = None
         then requests (trace s') = requests (trace s) \<and> (\<exists>e. x = Err e)
         else \<exists>q. requests (trace s') = requests (trace s) @ [q] \<and> Method q = meth \<and>
                URL q = baseURL (cl s) @ path \<and> ReqBody q = body \<and> stamped (cl s) q \<and>
                (body \<noteq> None \<longrightarrow> Header q ''Content-Type'' = Some [''application/json''])"
    unfolding sends_def by metis
qed

lemma content_type: "Header_Set ''Content-Type'' v h ''Content-Type'' = Some [v]"
  by (simp add: Header_Set_def)

lemma newRequest_requests:
  assumes "newRequest meth path body s = Some (r, s')"
  shows "requests (trace s') = requests (trace s) \<and>
    (case r of Ok req \<Rightarrow> url_parse (baseURL (cl s) @ path) \<noteq> None \<and> Method req = meth \<and> URL req = baseURL (cl s) @ path \<and>
        prepared (cl s) req \<and> cl s' = cl s \<and> ReqBody req = (case body of NilBody \<Rightarrow> None | BytesReader b \<Rightarrow> Some b | StreamReader b \<Rightarrow> Some b)
     | _ \<Rightarrow> url_parse (baseURL (cl s) @ path) = None \<and> (\<exists>e. r = Err e))"
  using assms
  by (auto simp: newRequest_def http_NewRequest_def Let_def intro!: prepared_new split: option.splits sum.splits)

lemma newJSONRequest_requests:
  assumes "newJSONRequest meth path body s = Some (r, s')"
  shows "requests (trace s') = requests (trace s) \<and>
    (case r of Ok req \<Rightarrow> url_parse (baseURL (cl s) @ path) \<noteq> None \<and> Method req = meth \<and> URL req = baseURL (cl s) @ path \<and>
        prepared (cl s) req \<and> cl s' = cl s \<and> ReqBody req = Some (json_encode body) \<and> Header req ''Content-Type'' = Some [''application/json'']
     | _ \<Rightarrow> url_parse (baseURL (cl s) @ path) = None \<and> (\<exists>e. r = Err e))"
proof -
  obtain r1 s1 where n: "newRequest meth path (BytesReader (json_encode body)) s = Some (r1, s1)"
    using newRequest_returns by blast
  show ?thesis using newRequest_requests [OF n] assms n
    by (cases r1) (auto simp: newJSONRequest_def Let_def prog_defs content_type)
qed

lemma doJSON_once_requests:
  assumes "\<not> may_retry s (accept_json req)"
    and "doJSON env req dec zero err s = Some (r, s')"
  shows "requests (trace s') = requests (trace s) @ [with_agent s (accept_json req)]"
proof -
  from do_request_single [OF assms(1), of env] obtain r1 s1
    where run: "do_request env (accept_json req) s = Some (r1, s1)"
      and tr: "requests (trace s1) = requests (trace s) @ [with_agent s (accept_json req)]"
    by (auto split: prod.splits sum.splits)
  show ?thesis
  proof (cases r1)
    case (Ok resp)
    show ?thesis
    proof (cases "go_div (rStatusCode resp) 100 = 2")
      case True
      from doJSON_good_status [OF run [unfolded Ok] True, of dec zero err] assms(2) tr show ?thesis
        by (auto simp: Let_def split: sum.splits option.splits)
    next
      case False
      from doJSON_bad_status [OF run [unfolded Ok] False, of dec zero err] assms(2) tr show ?thesis
        by (auto simp: drained_event_def split: option.splits)
    qed
  next
    case (Err e)
    with run tr assms(2) show ?thesis by (simp add: doJSON_failed_request)
  next
    case (Panic msg)
    with run tr assms(2) show ?thesis
      by (simp add: doJSON_def accept_json_def [symmetric] Let_def bindP_def)
  qed
qed

lemma doJSON_requests:
  assumes "Header req ''Authorization'' = None \<or> reauth (cl s) = None"
    and "doJSON env req dec zero err s = Some (r, s')"
  shows "requests (trace s') = requests (trace s) @ [with_agent s (accept_json req)]"
  using assms by (intro doJSON_once_requests) (auto simp: may_retry_def)

lemma get_json_sends:
  assumes "quiet (cl s)"
  shows "sends (get_json env meth path fs zero) s meth path None"
  unfolding sends_def
proof (intro allI impI)
  fix r s'
  assume run: "get_json env meth path fs zero s = Some (r, s')"
  obtain r1 s1 where n: "newRequest meth path NilBody s = Some (r1, s1)" using newRequest_returns by blast
  note req = newRequest_requests [OF n] newRequest_Ok [OF n]
  show "if url_parse (baseURL (cl s) @ path) = None
         then requests (trace s') = requests (trace s) \<and> (\<exists>e. r = Err e)
         else \<exists>q. requests (trace s') = requests (trace s) @ [q] \<and> Method q = meth \<and>
                URL q = baseURL (cl s) @ path \<and> ReqBody q = None \<and> stamped (cl s) q \<and>
                (None \<noteq> None \<longrightarrow> Header q ''Content-Type'' = Some [''application/json''])"
  proof (cases r1)
    case (Ok q)
    with run n have "doJSON env q (dec_struct (resp_fields @ fs)) zero (Some resp_Err) s1 = Some (r, s')"
      by (simp add: get_json_def bindP_def)
    from doJSON_requests [OF _ this] req Ok assms show ?thesis by (auto simp: quiet_def prepared_stamped)
  qed (use run n req in \<open>auto simp: get_json_def bindP_def\<close>)
qed

lemma call_json_sends:
  assumes "quiet (cl s)"
  shows "sends (call_json env meth path body fs zero) s meth path (Some (json_encode body))"
  unfolding sends_def
proof (intro allI impI)
  fix r s'
  assume run: "call_json env meth path body fs zero s = Some (r, s')"
  obtain r1 s1 where n: "newJSONRequest meth path body s = Some (r1, s1)" using newJSONRequest_returns by blast
  note req = newJSONRequest_requests [OF n] newJSONRequest_quiet [OF n]
  show "if url_parse (baseURL (cl s) @ path) = None
         then requests (trace s') = requests (trace s) \<and> (\<exists>e. r = Err e)
         else \<exists>q. requests (trace s') = requests (trace s) @ [q] \<and> Method q = meth \<and>
                URL q = baseURL (cl s) @ path \<and> ReqBody q = Some (json_encode body) \<and> stamped (cl s) q \<and>
                (Some (json_encode body) \<noteq> None \<longrightarrow> Header q ''Content-Type'' = Some [''application/json''])"
  proof (cases r1)
    case (Ok q)
    with run n have "doJSON env q (dec_struct (resp_fields @ fs)) zero (Some resp_Err) s1 = Some (r, s')"
      by (simp add: call_json_def bindP_def)
    from doJSON_requests [OF _ this] req Ok assms show ?thesis
      by (auto simp: quiet_def prepared_stamped content_kept)
  qed (use run n req in \<open>auto simp: call_json_def bindP_def\<close>)
qed

section \<open>Answers\<close>

text \<open>A server that answers every request to a URL with a JSON value.\<close>

definition serves :: "('w, 'k) env \<Rightarrow> string \<Rightarrow> json \<Rightarrow> bool" where
  "serves env target answer \<longleftrightarrow>
     (\<forall>q w. Method q = ''GET'' \<longrightarrow> URL q = target \<longrightarrow>
        (\<exists>rep w'. Do env q w = (Inr rep, w') \<and> rStatusCode rep = 200 \<and> rContent rep = json_encode answer))"

lemma get_json_served:
  assumes "serves env (baseURL (cl s) @ path) answer" and "url_parse (baseURL (cl s) @ path) \<noteq> None"
    and "json_ints answer" and "json_utf8 answer" and "dec_struct (resp_fields @ fs) answer zero = Inr r" and "RawAPIError r = None"
  shows "\<exists>s'. get_json env ''GET'' path fs zero s = Some (Ok r, s') \<and> cl s' = cl s"
proof -
  obtain r1 s1 where n: "newRequest ''GET'' path NilBody s = Some (r1, s1)" using newRequest_returns by blast
  with newRequest_requests [OF n] assms(2) obtain q where q: "r1 = Ok q" "Method q = ''GET''" "URL q = baseURL (cl s) @ path" "cl s1 = cl s"
    by (cases r1) auto
  then have "Method (with_agent s1 (accept_json q)) = ''GET''" "URL (with_agent s1 (accept_json q)) = baseURL (cl s) @ path"
    by (simp_all add: with_agent_def accept_json_def)
  with assms(1) obtain rep w' where rep: "Do env (with_agent s1 (accept_json q)) (world s1) = (Inr rep, w')"
    "rStatusCode rep = 200" "rContent rep = json_encode answer" unfolding serves_def by blast
  have "200 \<le> rStatusCode rep" "rStatusCode rep < 300"
    and "decoded (dec_struct (resp_fields @ fs)) zero (rContent rep) = Inr r"
    using rep(2,3) assms(5) json_roundtrip(1) [OF assms(3,4)] by (simp_all add: decoded_def)
  from doJSON_answer [OF rep(1) this assms(6)] n q show ?thesis by (auto simp: get_json_def bindP_def)
qed

section \<open>The contract of a call\<close>

text \<open>
  What every call of the API promises, whatever it asks for: it sends its one request, it
  returns and leaves the client alone when no callback can run, and it leaves no response body
  open.
\<close>

context tidy_env
begin

lemma get_json_books:
  assumes "get_json env meth path fs zero s = Some (r, s')" and "books_ok s"
  shows "books_ok s' \<and> still_open s' = still_open s"
proof -
  obtain r1 s1 where n: "newRequest meth path NilBody s = Some (r1, s1)" using newRequest_returns by blast
  then have 1: "books_ok s1 \<and> still_open s1 = still_open s"
    using newRequest_books [OF n] assms(2) by (auto simp: books_quiet)
  show ?thesis
  proof (cases r1)
    case (Ok q)
    with assms(1) n have "doJSON env q (dec_struct (resp_fields @ fs)) zero (Some resp_Err) s1 = Some (r, s')"
      by (simp add: get_json_def bindP_def)
    from doJSON_books [OF this] 1 show ?thesis by simp
  qed (use assms(1) n 1 in \<open>auto simp: get_json_def bindP_def\<close>)
qed

lemma call_json_books:
  assumes "call_json env meth path body fs zero s = Some (r, s')" and "books_ok s"
  shows "books_ok s' \<and> still_open s' = still_open s"
proof -
  obtain r1 s1 where n: "newJSONRequest meth path body s = Some (r1, s1)" using newJSONRequest_returns by blast
  note 1 = newJSONRequest_books [OF n assms(2)]
  show ?thesis
  proof (cases r1)
    case (Ok q)
    with assms(1) n have "doJSON env q (dec_struct (resp_fields @ fs)) zero (Some resp_Err) s1 = Some (r, s')"
      by (simp add: call_json_def bindP_def)
    from doJSON_books [OF this] 1 show ?thesis by simp
  qed (use assms(1) n 1 in \<open>auto simp: call_json_def bindP_def\<close>)
qed

end

definition asks_for :: "('w, 'k, 'a) io \<Rightarrow> ('w, 'k) st \<Rightarrow> string \<Rightarrow> string \<Rightarrow> json option \<Rightarrow> bool" where
  "asks_for m s meth path body \<longleftrightarrow>
     (\<exists>r s'. m s = Some (r, s') \<and> cl s' = cl s \<and> (\<forall>msg. r \<noteq> Panic msg) \<and>
        (if url_parse (baseURL (cl s) @ path) = None
         then requests (trace s') = requests (trace s) \<and> (\<exists>e. r = Err e)
         else \<exists>q. requests (trace s') = requests (trace s) @ [q] \<and> Method q = meth \<and> URL q = baseURL (cl s) @ path \<and>
                ReqBody q = map_option json_encode body \<and> stamped (cl s) q \<and>
                (body \<noteq> None \<longrightarrow> Header q ''Content-Type'' = Some [''application/json''])))"

locale api_call =
  fixes call :: "('w, 'k) env \<Rightarrow> ('w, 'k, 'a) io"
    and meth :: string and path :: string and body :: "json option"
  assumes asks: "quiet (cl s) \<Longrightarrow> sends (call env) s meth path (map_option json_encode body)"
    and returns: "quiet (cl s) \<Longrightarrow> settles (call env) s"
    and closes: "tidy_env env \<Longrightarrow> call env s = Some (r, s') \<Longrightarrow> books_ok s \<Longrightarrow>
      books_ok s' \<and> still_open s' = still_open s"
begin

lemma one_request:
  assumes "quiet (cl s)"
  shows "asks_for (call env) s meth path body"
proof -
  obtain r s' where run: "call env s = Some (r, s')" "cl s' = cl s" "\<forall>msg. r \<noteq> Panic msg"
    using returns [OF assms, unfolded settles_def] by blast
  moreover from asks [OF assms, unfolded sends_def, rule_format, OF run(1)]
  have "if url_parse (baseURL (cl s) @ path) = None then requests (trace s') = requests (trace s) \<and> (\<exists>e. r = Err e)
      else \<exists>q. requests (trace s') = requests (trace s) @ [q] \<and> Method q = meth \<and> URL q = baseURL (cl s) @ path \<and>
             ReqBody q = map_option json_encode body \<and> stamped (cl s) q \<and>
             (body \<noteq> None \<longrightarrow> Header q ''Content-Type'' = Some [''application/json''])"
    by (auto split: if_splits)
  ultimately show ?thesis unfolding asks_for_def by blast
qed

lemma closes_bodies:
  assumes "tidy_env env" and "call env s = Some (r, s')" and "books_ok s"
  shows "books_ok s' \<and> still_open s' = still_open s"
  by (rule closes [OF assms])

end

text \<open>Every call that is a \<open>newRequest\<close> or a \<open>newJSONRequest\<close> followed by \<open>doJSON\<close> keeps it.\<close>

lemma api_get: "api_call (\<lambda>env. bindP (get_json env meth path fs zero) (\<lambda>r. returnP (f r))) meth path None"
proof
  fix s :: "('a, 'b) st" and env
  assume q: "quiet (cl s)"
  show "sends (bindP (get_json env meth path fs zero) (\<lambda>r. returnP (f r))) s meth path (map_option json_encode None)"
    using sends_bind_return [OF get_json_sends [OF q]] by simp
  show "settles (bindP (get_json env meth path fs zero) (\<lambda>r. returnP (f r))) s"
    by (intro settles_bind get_json_quiet q settles_simps)
next
  fix env s and r :: "(error, 'c) outcome" and s' :: "('a, 'b) st"
  assume "tidy_env env" and run: "bindP (get_json env meth path fs zero) (\<lambda>r. returnP (f r)) s = Some (r, s')" and "books_ok s"
  obtain x where "get_json env meth path fs zero s = Some (x, s')" by (rule bind_return_run [OF run])
  then show "books_ok s' \<and> still_open s' = still_open s"
    using tidy_env.get_json_books [OF \<open>tidy_env env\<close>] \<open>books_ok s\<close> by blast
qed

lemma api_post: "api_call (\<lambda>env. bindP (call_json env meth path body fs zero) (\<lambda>r. returnP (f r))) meth path (Some body)"
proof
  fix s :: "('a, 'b) st" and env
  assume q: "quiet (cl s)"
  show "sends (bindP (call_json env meth path body fs zero) (\<lambda>r. returnP (f r))) s meth path (map_option json_encode (Some body))"
    using sends_bind_return [OF call_json_sends [OF q]] by simp
  show "settles (bindP (call_json env meth path body fs zero) (\<lambda>r. returnP (f r))) s"
    by (intro settles_bind call_json_quiet q settles_simps)
next
  fix env s and r :: "(error, 'c) outcome" and s' :: "('a, 'b) st"
  assume "tidy_env env" and run: "bindP (call_json env meth path body fs zero) (\<lambda>r. returnP (f r)) s = Some (r, s')" and "books_ok s"
  obtain x where "call_json env meth path body fs zero s = Some (x, s')" by (rule bind_return_run [OF run])
  then show "books_ok s' \<and> still_open s' = still_open s"
    using tidy_env.call_json_books [OF \<open>tidy_env env\<close>] \<open>books_ok s\<close> by blast
qed

section \<open>The contract of the calls\<close>

interpretation current_user: api_call GetCurrentUser "''GET''" "''/users''" None
  unfolding GetCurrentUser_def [abs_def] by (rule api_get)

interpretation addresses: api_call ListAddresses "''GET''" "''/addresses''" None
  unfolding ListAddresses_def [abs_def] by (rule api_get)

interpretation public_keys: api_call "\<lambda>env. GetPublicKeys env email" "''GET''" "''/keys?'' @ ''Email='' @ QueryEscape email" None for email
  unfolding GetPublicKeys_def by (rule api_get)

interpretation auth_info: api_call "\<lambda>env. Client_AuthInfo env username" "''POST''" "''/auth/info''" "Some (JObj [(''Username'', JStr username)])" for username
  unfolding Client_AuthInfo_def authInfoReq_json_def authInfoReq.simps by (rule api_post)

interpretation auth_totp: api_call "\<lambda>env. Client_AuthTOTP env code" "''POST''" "''/auth/2fa''" "Some (JObj [(''TwoFactorCode'', JStr code)])" for code
  unfolding Client_AuthTOTP_def by (rule api_post)

end
