(* ===== verification/Json_Codec.thy ===== *)
theory Json_Codec
  imports Json_Roundtrip
begin

text \<open>
  Values that are encoded and decoded: the contract of a pair of an encoder and a decoder, its
  extension to pointers and slices, and what it means on the wire.
\<close>

section \<open>Encoding\<close>

definition jslice :: "('a \<Rightarrow> json) \<Rightarrow> 'a list option \<Rightarrow> json" where
  "jslice f xs = (case xs of None \<Rightarrow> JNull | Some l \<Rightarrow> JArr (map f l))"

definition jptr :: "('a \<Rightarrow> json) \<Rightarrow> 'a option \<Rightarrow> json" where
  "jptr f x = (case x of None \<Rightarrow> JNull | Some a \<Rightarrow> f a)"

text \<open>A string field with \<open>omitempty\<close>.\<close>

definition omit_empty :: "string \<Rightarrow> string \<Rightarrow> (string \<times> json) list" where
  "omit_empty k s = (if s = '''' then [] else [(k, JStr s)])"

lemma json_ints_simps [simp]:
  "json_ints (JInt i)" "list_all (\<lambda>(k, v). json_ints v) (omit_empty k s)"
  by (simp_all add: JInt_def omit_empty_def)

lemma json_ints_jslice: "(\<And>x. json_ints (f x)) \<Longrightarrow> json_ints (jslice f xs)"
  by (simp add: jslice_def list_all_iff split: option.split)

lemma json_ints_jptr: "(\<And>x. json_ints (f x)) \<Longrightarrow> json_ints (jptr f x)"
  by (simp add: jptr_def split: option.split)

text \<open>The strings of such a value.\<close>

lemma json_utf8_simps [simp]:
  "json_utf8 (JInt i)"
  "list_all (\<lambda>(k, v). valid_utf8 k \<and> json_utf8 v) (omit_empty k s) \<longleftrightarrow> s = '''' \<or> valid_utf8 k \<and> valid_utf8 s"
  by (auto simp: JInt_def omit_empty_def)

lemma json_utf8_jslice: "json_utf8 (jslice f xs) \<longleftrightarrow> (case xs of None \<Rightarrow> True | Some l \<Rightarrow> \<forall>x \<in> set l. json_utf8 (f x))"
  by (auto simp: jslice_def list_all_iff split: option.split)

lemma json_utf8_jptr: "json_utf8 (jptr f x) \<longleftrightarrow> (case x of None \<Rightarrow> True | Some a \<Rightarrow> json_utf8 (f a))"
  by (simp add: jptr_def split: option.split)

section \<open>What decoding keeps\<close>

text \<open>A property of a struct that a field keeps, when what is decoded into it has a property.\<close>

definition field_keeps :: "(json \<Rightarrow> bool) \<Rightarrow> ('r \<Rightarrow> bool) \<Rightarrow> string \<times> 'r decoder \<Rightarrow> bool" where
  "field_keeps Q P f \<longleftrightarrow> (\<forall>j r r'. Q j \<longrightarrow> snd f j r = Inr r' \<longrightarrow> P r \<longrightarrow> P r')"

lemma field_keepsI:
  assumes "\<And>j r x. Q j \<Longrightarrow> d j (get r) = Inr x \<Longrightarrow> P r \<Longrightarrow> P (upd (\<lambda>_. x) r)"
  shows "field_keeps Q P (field name get upd d)"
  using assms by (auto simp: field_keeps_def field_def split: sum.splits)

lemma dec_members_keeps:
  assumes "list_all (field_keeps Q P) fs"
  shows "dec_members fs ms r = Inr r' \<Longrightarrow> list_all (\<lambda>(k, j). Q j) ms \<Longrightarrow> P r \<Longrightarrow> P r'"
proof (induction ms arbitrary: r)
  case (Cons x ms)
  obtain k j where x: "x = (k, j)" by (cases x)
  show ?case
  proof (cases "find_field fs k")
    case None
    with Cons x show ?thesis by simp
  next
    case (Some d)
    then obtain k' where "(k', d) \<in> set fs"
      by (auto simp: find_field_def split: option.splits dest!: map_of_SomeD)
    with assms have keeps: "field_keeps Q P (k', d)" by (auto simp: list_all_iff)
    from Cons.prems x Some obtain r1 where r1: "d j r = Inr r1" "dec_members fs ms r1 = Inr r'" by (auto split: sum.splits)
    with keeps Cons.prems(2,3) x have "P r1" unfolding field_keeps_def snd_conv by (metis case_prod_conv list.pred_inject(2))
    with Cons.IH [OF r1(2)] Cons.prems(2) show ?thesis by simp
  qed
qed simp

lemma dec_struct_keeps:
  assumes "list_all (field_keeps Q P) fs" and "dec_struct fs j r = Inr r'"
    and "\<And>ms. j = JObj ms \<Longrightarrow> list_all (\<lambda>(k, j). Q j) ms" and "P r"
  shows "P r'"
  using assms(2-4) dec_members_keeps [OF assms(1)] by (cases "(fs, j, r)" rule: dec_struct.cases) auto

text \<open>The two properties: what it takes to be read back, and that the strings are valid.\<close>

lemma dec_struct_fit: "list_all (field_keeps (\<lambda>j. True) P) fs \<Longrightarrow> dec_struct fs j r = Inr r' \<Longrightarrow> P r \<Longrightarrow> P r'"
  by (rule dec_struct_keeps) (auto simp: list_all_iff)

lemma dec_struct_texts: "list_all (field_keeps json_utf8 P) fs \<Longrightarrow> dec_struct fs j r = Inr r' \<Longrightarrow> json_utf8 j \<Longrightarrow> P r \<Longrightarrow> P r'"
  by (rule dec_struct_keeps) (auto simp: list_all_iff)

lemma dec_elems_all:
  assumes "dec_elems d zero js = Inr xs" and "\<And>j x. j \<in> set js \<Longrightarrow> d j zero = Inr x \<Longrightarrow> P x"
  shows "list_all P xs"
  using assms
proof (induction js arbitrary: xs)
  case (Cons j js)
  then obtain x where x: "d j zero = Inr x" by (auto split: sum.splits)
  with Cons.prems obtain ys where ys: "dec_elems d zero js = Inr ys" "xs = x # ys" by (cases "dec_elems d zero js") auto
  with Cons.prems(2) x have "P x" "list_all P ys" by (auto intro: Cons.IH [OF ys(1)])
  with ys show ?case by simp
qed simp

section \<open>The contract\<close>

text \<open>
  Of the values that fit, none changes when it is written and read over a zero value; and what
  is decoded fits, and has valid strings if the JSON has.
\<close>

locale codec =
  fixes enc :: "'a \<Rightarrow> json" and dec :: "'a decoder" and zero :: 'a and fits :: "'a \<Rightarrow> bool"
  assumes reads: "fits x \<Longrightarrow> dec (enc x) zero = Inr x"
    and ints: "json_ints (enc x)"
    and fit: "dec j old = Inr x \<Longrightarrow> fits old \<Longrightarrow> fits x"
    and texts: "dec j old = Inr x \<Longrightarrow> json_utf8 j \<Longrightarrow> json_utf8 (enc old) \<Longrightarrow> json_utf8 (enc x)"
    and zero_fits: "fits zero" and zero_text: "json_utf8 (enc zero)"
begin

lemma wire: "fits x \<Longrightarrow> json_utf8 (enc x) \<Longrightarrow> json_decode (json_encode (enc x)) = Inr (enc x) \<and> dec (enc x) zero = Inr x"
  by (simp add: reads json_roundtrip(1) [OF ints])

text \<open>What was received can be sent on as it is.\<close>

lemma resend:
  assumes "json_decode s = Inr j" and "dec j zero = Inr x"
  shows "fits x" and "json_utf8 (enc x)" and "json_decode (json_encode (enc x)) = Inr (enc x) \<and> dec (enc x) zero = Inr x"
proof -
  show fits: "fits x" by (rule fit [OF assms(2) zero_fits])
  show valid: "json_utf8 (enc x)" by (rule texts [OF assms(2) json_decode_utf8(1) [OF assms(1)] zero_text])
  show "json_decode (json_encode (enc x)) = Inr (enc x) \<and> dec (enc x) zero = Inr x" by (rule wire [OF fits valid])
qed

lemma elems: "list_all fits xs \<Longrightarrow> dec_elems dec zero (map enc xs) = Inr xs"
  by (induction xs) (simp_all add: reads)

lemma slice_reads: "pred_option (list_all fits) xs \<Longrightarrow> dec_slice dec zero (jslice enc xs) old = Inr xs"
  by (cases xs) (simp_all add: jslice_def elems)

lemma dec_slice_cases:
  assumes "dec_slice dec zero j old = Inr xs"
  obtains "xs = None" | js ys where "j = JArr js" "dec_elems dec zero js = Inr ys" "xs = Some ys"
  using assms by (cases j) (auto simp: map_sum_Some_iff)

lemma slice: "codec (jslice enc) (dec_slice dec zero) None (pred_option (list_all fits))"
proof
  fix xs j old
  show "pred_option (list_all fits) xs \<Longrightarrow> dec_slice dec zero (jslice enc xs) None = Inr xs" by (rule slice_reads)
  show "json_ints (jslice enc xs)" by (rule json_ints_jslice) (rule ints)
  show "pred_option (list_all fits) xs" if "dec_slice dec zero j old = Inr xs"
    using that by (cases rule: dec_slice_cases) (auto intro!: dec_elems_all fit [OF _ zero_fits])
  show "json_utf8 (jslice enc xs)" if slice: "dec_slice dec zero j old = Inr xs" and valid: "json_utf8 j"
    using slice
  proof (cases rule: dec_slice_cases)
    case (2 js ys)
    have "list_all (\<lambda>x. json_utf8 (enc x)) ys"
      by (rule dec_elems_all [OF 2(2)]) (use 2(1) valid texts zero_text in \<open>auto simp: list_all_iff\<close>)
    with 2 show ?thesis by (simp add: jslice_def list_all_iff)
  qed (simp add: jslice_def)
qed (simp_all add: jslice_def)

end

text \<open>A type that is never encoded as null can stand behind a pointer, which may be nil.\<close>

locale struct_codec = codec +
  assumes not_null: "enc x \<noteq> JNull"

sublocale struct_codec \<subseteq> ptr: codec "jptr enc" "dec_pointer dec zero" None "pred_option fits"
proof
  fix p j old
  show "pred_option fits p \<Longrightarrow> dec_pointer dec zero (jptr enc p) None = Inr p"
    using not_null by (cases p) (simp_all add: jptr_def dec_pointer_def reads)
  show "json_ints (jptr enc p)" by (rule json_ints_jptr) (rule ints)
  show "pred_option fits p" if "dec_pointer dec zero j old = Inr p" "pred_option fits old"
    using that fit zero_fits by (cases old) (auto simp: dec_pointer_def map_sum_Some_iff split: if_splits)
  show "json_utf8 (jptr enc p)" if "dec_pointer dec zero j old = Inr p" "json_utf8 j" "json_utf8 (jptr enc old)"
    using that texts zero_text by (cases old) (auto simp: jptr_def dec_pointer_def map_sum_Some_iff split: if_splits)
qed (simp_all add: jptr_def)

definition int64 :: "int \<Rightarrow> bool" where
  "int64 i \<longleftrightarrow> - (2 ^ 63) \<le> i \<and> i < 2 ^ 63"

lemma dec_int_int64: "int64 i \<Longrightarrow> dec_int (JInt i) old = Inr i"
  by (simp add: int64_def dec_int_JInt)

lemma dec_int_fits: "dec_int j old = Inr i \<Longrightarrow> int64 old \<Longrightarrow> int64 i"
  by (cases "(j, old)" rule: dec_int.cases) (auto simp: int64_def split: option.splits if_splits)

interpretation string_codec: struct_codec JStr dec_string "''''" "\<lambda>s. True"
proof
  show "json_utf8 (JStr x)" if "dec_string j old = Inr x" "json_utf8 j" "json_utf8 (JStr old)" for j old x
    using that by (cases "(j, old)" rule: dec_string.cases) auto
qed simp_all

interpretation int_codec: struct_codec JInt dec_int 0 int64
proof
  show "int64 i" if "dec_int j old = Inr i" "int64 old" for j old i using that by (rule dec_int_fits)
qed (simp_all add: dec_int_int64, simp_all add: int64_def JInt_def)

end
