(* ===== verification/Message_Data.thy ===== *)
theory Message_Data
  imports Account Json_Codec
begin

text \<open>
  The data of messages.go, attachments.go and contacts.go: messages, attachments, contacts and
  cards, with their JSON encoding and decoding.  A slice that may be nil is an option of a list,
  its elements options where they are pointers; an integer type with named constants stays an
  integer, as any number may come from the server.
\<close>

section \<open>Enumerations\<close>

definition MessageInbox :: int where "MessageInbox = 0"
definition MessageDraft :: int where "MessageDraft = 1"
definition MessageSent :: int where "MessageSent = 2"
definition MessageInboxAndSent :: int where "MessageInboxAndSent = 3"

definition MessageUnencrypted :: int where "MessageUnencrypted = 0"
definition MessageEncryptedInternal :: int where "MessageEncryptedInternal = 1"
definition MessageEncryptedExternal :: int where "MessageEncryptedExternal = 2"
definition MessageEncryptedOutside :: int where "MessageEncryptedOutside = 3"
definition MessageEncryptedInlinePGP :: int where "MessageEncryptedInlinePGP = 7"
definition MessageEncryptedPGPMIME :: int where "MessageEncryptedPGPMIME = 8"

definition MessageReply :: int where "MessageReply = 0"
definition MessageReplyAll :: int where "MessageReplyAll = 1"
definition MessageForward :: int where "MessageForward = 2"

definition ContactCardCleartext :: int where "ContactCardCleartext = 0"
definition ContactCardEncrypted :: int where "ContactCardEncrypted = 1"
definition ContactCardSigned :: int where "ContactCardSigned = 2"
definition ContactCardEncryptedAndSigned :: int where "ContactCardEncryptedAndSigned = 3"

definition Signed :: "int \<Rightarrow> bool" where
  "Signed t = (if t = ContactCardSigned \<or> t = ContactCardEncryptedAndSigned then True else False)"

definition Encrypted :: "int \<Rightarrow> bool" where
  "Encrypted t = (if t = ContactCardEncrypted \<or> t = ContactCardEncryptedAndSigned then True else False)"

section \<open>Attachments\<close>

text \<open>What the client reads of a \<open>packet.EncryptedKey\<close>: the cipher function and the session key.\<close>

record EncryptedKey =
  ekCipherFunc :: int
  ekKey :: bytes

record Attachment =
  attID :: string
  attMessageID :: string
  attName :: string
  attSize :: int
  attMIMEType :: string
  attContentID :: string
  attKeyPackets :: string
  attSignature :: string
  unencryptedKey :: "EncryptedKey option"

definition Attachment_fields :: "Attachment fields" where
  "Attachment_fields =
     [field ''ID'' attID attID_update dec_string,
      field ''MessageID'' attMessageID attMessageID_update dec_string,
      field ''Name'' attName attName_update dec_string,
      field ''Size'' attSize attSize_update dec_int,
      field ''MIMEType'' attMIMEType attMIMEType_update dec_string,
      field ''ContentID'' attContentID attContentID_update dec_string,
      field ''KeyPackets'' attKeyPackets attKeyPackets_update dec_string,
      field ''Signature'' attSignature attSignature_update dec_string]"

definition zero_Attachment :: Attachment where
  "zero_Attachment = \<lparr>attID = '''', attMessageID = '''', attName = '''', attSize = 0, attMIMEType = '''',
     attContentID = '''', attKeyPackets = '''', attSignature = '''', unencryptedKey = None\<rparr>"

definition Attachment_json :: "Attachment \<Rightarrow> json" where
  "Attachment_json a = JObj
     [(''ID'', JStr (attID a)), (''MessageID'', JStr (attMessageID a)), (''Name'', JStr (attName a)),
      (''Size'', JInt (attSize a)), (''MIMEType'', JStr (attMIMEType a)),
      (''ContentID'', JStr (attContentID a)), (''KeyPackets'', JStr (attKeyPackets a)),
      (''Signature'', JStr (attSignature a))]"

section \<open>Messages\<close>

record MessageAddress =
  maAddress :: string
  maName :: string

definition MessageAddress_fields :: "MessageAddress fields" where
  "MessageAddress_fields =
     [field ''Address'' maAddress maAddress_update dec_string,
      field ''Name'' maName maName_update dec_string]"

definition zero_MessageAddress :: MessageAddress where
  "zero_MessageAddress = \<lparr>maAddress = '''', maName = ''''\<rparr>"

definition MessageAddress_json :: "MessageAddress \<Rightarrow> json" where
  "MessageAddress_json a = JObj [(''Address'', JStr (maAddress a)), (''Name'', JStr (maName a))]"

type_synonym participants = "MessageAddress option list option"

record Message =
  mID :: string
  mOrder :: int
  mConversationID :: string
  mSubject :: string
  mUnread :: int
  mType :: int
  mSender :: "MessageAddress option"
  mToList :: participants
  mTime :: int
  mSize :: int
  mNumAttachments :: int
  mIsEncrypted :: int
  mExpirationTime :: int
  mIsReplied :: int
  mIsRepliedAll :: int
  mIsForwarded :: int
  mSpamScore :: int
  mAddressID :: string
  mBody :: string
  mMIMEType :: string
  mCCList :: participants
  mBCCList :: participants
  mReplyTos :: participants
  mHeader :: string
  mAttachments :: "Attachment option list option"
  mLabelIDs :: "string list option"
  mExternalID :: string

definition dec_participant :: "MessageAddress option decoder" where
  "dec_participant = dec_pointer (dec_struct MessageAddress_fields) zero_MessageAddress"

definition dec_participants :: "participants decoder" where
  "dec_participants = dec_slice dec_participant None"

definition dec_strings :: "string list option decoder" where
  "dec_strings = dec_slice dec_string ''''"

definition Message_fields :: "Message fields" where
  "Message_fields =
     [field ''ID'' mID mID_update dec_string,
      field ''Order'' mOrder mOrder_update dec_int,
      field ''ConversationID'' mConversationID mConversationID_update dec_string,
      field ''Subject'' mSubject mSubject_update dec_string,
      field ''Unread'' mUnread mUnread_update dec_int,
      field ''Type'' mType mType_update dec_int,
      field ''Sender'' mSender mSender_update dec_participant,
      field ''ToList'' mToList mToList_update dec_participants,
      field ''Time'' mTime mTime_update dec_int,
      field ''Size'' mSize mSize_update dec_int,
      field ''NumAttachments'' mNumAttachments mNumAttachments_update dec_int,
      field ''IsEncrypted'' mIsEncrypted mIsEncrypted_update dec_int,
      field ''ExpirationTime'' mExpirationTime mExpirationTime_update dec_int,
      field ''IsReplied'' mIsReplied mIsReplied_update dec_int,
      field ''IsRepliedAll'' mIsRepliedAll mIsRepliedAll_update dec_int,
      field ''IsForwarded'' mIsForwarded mIsForwarded_update dec_int,
      field ''SpamScore'' mSpamScore mSpamScore_update dec_int,
      field ''AddressID'' mAddressID mAddressID_update dec_string,
      field ''Body'' mBody mBody_update dec_string,
      field ''MIMEType'' mMIMEType mMIMEType_update dec_string,
      field ''CCList'' mCCList mCCList_update dec_participants,
      field ''BCCList'' mBCCList mBCCList_update dec_participants,
      field ''ReplyTos'' mReplyTos mReplyTos_update dec_participants,
      field ''Header'' mHeader mHeader_update dec_string,
      field ''Attachments'' mAttachments mAttachments_update
        (dec_slice (dec_pointer (dec_struct Attachment_fields) zero_Attachment) None),
      field ''LabelIDs'' mLabelIDs mLabelIDs_update dec_strings,
      field ''ExternalID'' mExternalID mExternalID_update dec_string]"

definition zero_Message :: Message where
  "zero_Message = \<lparr>mID = '''', mOrder = 0, mConversationID = '''', mSubject = '''', mUnread = 0, mType = 0,
     mSender = None, mToList = None, mTime = 0, mSize = 0, mNumAttachments = 0, mIsEncrypted = 0,
     mExpirationTime = 0, mIsReplied = 0, mIsRepliedAll = 0, mIsForwarded = 0, mSpamScore = 0,
     mAddressID = '''', mBody = '''', mMIMEType = '''', mCCList = None, mBCCList = None, mReplyTos = None,
     mHeader = '''', mAttachments = None, mLabelIDs = None, mExternalID = ''''\<rparr>"

definition participants_json :: "participants \<Rightarrow> json" where
  "participants_json = jslice (jptr MessageAddress_json)"

definition Message_json :: "Message \<Rightarrow> json" where
  "Message_json m = JObj
     (omit_empty ''ID'' (mID m) @
      [(''Order'', JInt (mOrder m))] @
      omit_empty ''ConversationID'' (mConversationID m) @
      [(''Subject'', JStr (mSubject m)),
       (''Unread'', JInt (mUnread m)),
       (''Type'', JInt (mType m)),
       (''Sender'', jptr MessageAddress_json (mSender m)),
       (''ToList'', participants_json (mToList m)),
       (''Time'', JInt (mTime m)),
       (''Size'', JInt (mSize m)),
       (''NumAttachments'', JInt (mNumAttachments m)),
       (''IsEncrypted'', JInt (mIsEncrypted m)),
       (''ExpirationTime'', JInt (mExpirationTime m)),
       (''IsReplied'', JInt (mIsReplied m)),
       (''IsRepliedAll'', JInt (mIsRepliedAll m)),
       (''IsForwarded'', JInt (mIsForwarded m)),
       (''SpamScore'', JInt (mSpamScore m)),
       (''AddressID'', JStr (mAddressID m)),
       (''Body'', JStr (mBody m))] @
      omit_empty ''MIMEType'' (mMIMEType m) @
      [(''CCList'', participants_json (mCCList m)),
       (''BCCList'', participants_json (mBCCList m)),
       (''ReplyTos'', participants_json (mReplyTos m))] @
      omit_empty ''Header'' (mHeader m) @
      [(''Attachments'', jslice (jptr Attachment_json) (mAttachments m)),
       (''LabelIDs'', jslice JStr (mLabelIDs m))] @
      omit_empty ''ExternalID'' (mExternalID m))"

record MessageCount =
  mcLabelID :: string
  mcTotal :: int
  mcUnread :: int

definition MessageCount_fields :: "MessageCount fields" where
  "MessageCount_fields =
     [field ''LabelID'' mcLabelID mcLabelID_update dec_string,
      field ''Total'' mcTotal mcTotal_update dec_int,
      field ''Unread'' mcUnread mcUnread_update dec_int]"

definition zero_MessageCount :: MessageCount where
  "zero_MessageCount = \<lparr>mcLabelID = '''', mcTotal = 0, mcUnread = 0\<rparr>"

definition dec_MessageCounts :: "MessageCount option list option decoder" where
  "dec_MessageCounts = dec_slice (dec_pointer (dec_struct MessageCount_fields) zero_MessageCount) None"

section \<open>Contacts\<close>

record ContactCard =
  ccType :: int
  ccData :: string
  ccSignature :: string

record ContactEmail =
  ceID :: string
  ceEmail :: string
  ceType :: "string list option"
  ceDefaults :: int
  ceOrder :: int
  ceContactID :: string
  ceLabelIDs :: "string list option"
  ceName :: string

record Contact =
  cID :: string
  cName :: string
  cUID :: string
  cSize :: int
  cCreateTime :: int
  cModifyTime :: int
  cLabelIDs :: "string list option"
  cContactEmails :: "ContactEmail option list option"
  cCards :: "ContactCard option list option"

definition ContactCard_fields :: "ContactCard fields" where
  "ContactCard_fields =
     [field ''Type'' ccType ccType_update dec_int,
      field ''Data'' ccData ccData_update dec_string,
      field ''Signature'' ccSignature ccSignature_update dec_string]"

definition zero_ContactCard :: ContactCard where
  "zero_ContactCard = \<lparr>ccType = 0, ccData = '''', ccSignature = ''''\<rparr>"

definition ContactEmail_fields :: "ContactEmail fields" where
  "ContactEmail_fields =
     [field ''ID'' ceID ceID_update dec_string,
      field ''Email'' ceEmail ceEmail_update dec_string,
      field ''Type'' ceType ceType_update dec_strings,
      field ''Defaults'' ceDefaults ceDefaults_update dec_int,
      field ''Order'' ceOrder ceOrder_update dec_int,
      field ''ContactID'' ceContactID ceContactID_update dec_string,
      field ''LabelIDs'' ceLabelIDs ceLabelIDs_update dec_strings,
      field ''Name'' ceName ceName_update dec_string]"

definition zero_ContactEmail :: ContactEmail where
  "zero_ContactEmail = \<lparr>ceID = '''', ceEmail = '''', ceType = None, ceDefaults = 0, ceOrder = 0,
     ceContactID = '''', ceLabelIDs = None, ceName = ''''\<rparr>"

definition Contact_fields :: "Contact fields" where
  "Contact_fields =
     [field ''ID'' cID cID_update dec_string,
      field ''Name'' cName cName_update dec_string,
      field ''UID'' cUID cUID_update dec_string,
      field ''Size'' cSize cSize_update dec_int,
      field ''CreateTime'' cCreateTime cCreateTime_update dec_int,
      field ''ModifyTime'' cModifyTime cModifyTime_update dec_int,
      field ''LabelIDs'' cLabelIDs cLabelIDs_update dec_strings,
      field ''ContactEmails'' cContactEmails cContactEmails_update
        (dec_slice (dec_pointer (dec_struct ContactEmail_fields) zero_ContactEmail) None),
      field ''Cards'' cCards cCards_update
        (dec_slice (dec_pointer (dec_struct ContactCard_fields) zero_ContactCard) None)]"

definition zero_Contact :: Contact where
  "zero_Contact = \<lparr>cID = '''', cName = '''', cUID = '''', cSize = 0, cCreateTime = 0, cModifyTime = 0,
     cLabelIDs = None, cContactEmails = None, cCards = None\<rparr>"

section \<open>Round trip\<close>

text \<open>Numbers that fit 64 bits are read back, and a session key is never written.\<close>

definition fits_attachment :: "Attachment \<Rightarrow> bool" where
  "fits_attachment a \<longleftrightarrow> int64 (attSize a) \<and> unencryptedKey a = None"

definition int64_Message :: "Message \<Rightarrow> bool" where
  "int64_Message m \<longleftrightarrow>
     list_all int64 [mOrder m, mUnread m, mType m, mTime m, mSize m, mNumAttachments m, mIsEncrypted m,
       mExpirationTime m, mIsReplied m, mIsRepliedAll m, mIsForwarded m, mSpamScore m] \<and>
     pred_option (list_all (pred_option fits_attachment)) (mAttachments m)"

lemmas field_eval = field_def find_field_def ascii_lower_def Let_def char_of_def bit_0

lemma MessageAddress_texts: "list_all (field_keeps json_utf8 (\<lambda>a. json_utf8 (MessageAddress_json a))) MessageAddress_fields"
  unfolding MessageAddress_fields_def list.pred_inject
  by (intro conjI TrueI field_keepsI) (auto simp: MessageAddress_json_def dest: string_codec.texts)

interpretation address_codec: struct_codec MessageAddress_json "dec_struct MessageAddress_fields" zero_MessageAddress "\<lambda>a. True"
proof
  show "json_utf8 (MessageAddress_json x)" if "dec_struct MessageAddress_fields j old = Inr x" "json_utf8 j" "json_utf8 (MessageAddress_json old)"
    for j old x using that by (rule dec_struct_texts [OF MessageAddress_texts])
qed (simp_all add: MessageAddress_json_def MessageAddress_fields_def zero_MessageAddress_def find_field_def field_def)

lemma Attachment_fit: "list_all (field_keeps (\<lambda>j. True) fits_attachment) Attachment_fields"
  unfolding Attachment_fields_def list.pred_inject
  by (intro conjI TrueI field_keepsI) (auto simp: fits_attachment_def intro: dec_int_fits)

lemma Attachment_texts: "list_all (field_keeps json_utf8 (\<lambda>a. json_utf8 (Attachment_json a))) Attachment_fields"
  unfolding Attachment_fields_def list.pred_inject
  by (intro conjI TrueI field_keepsI) (auto simp: Attachment_json_def dest: string_codec.texts)

interpretation attachment_codec: struct_codec Attachment_json "dec_struct Attachment_fields" zero_Attachment fits_attachment
proof
  show "fits_attachment x" if "dec_struct Attachment_fields j old = Inr x" "fits_attachment old" for j old x
    using that by (rule dec_struct_fit [OF Attachment_fit])
  show "json_utf8 (Attachment_json x)" if "dec_struct Attachment_fields j old = Inr x" "json_utf8 j" "json_utf8 (Attachment_json old)"
    for j old x using that by (rule dec_struct_texts [OF Attachment_texts])
qed (simp_all add: Attachment_json_def Attachment_fields_def zero_Attachment_def find_field_def field_def
      dec_int_int64 fits_attachment_def, simp add: int64_def)

interpretation participant_codec: codec "jptr MessageAddress_json" dec_participant None "pred_option (\<lambda>a. True)"
  unfolding dec_participant_def [abs_def] by (rule address_codec.ptr.codec_axioms)

interpretation participants_codec: codec participants_json dec_participants None "pred_option (list_all (pred_option (\<lambda>a. True)))"
  unfolding participants_json_def [abs_def] dec_participants_def [abs_def] by (rule participant_codec.slice)

interpretation strings_codec: codec "jslice JStr" dec_strings None "pred_option (list_all (\<lambda>s. True))"
  unfolding dec_strings_def [abs_def] by (rule string_codec.slice)

interpretation attachments_codec: codec "jslice (jptr Attachment_json)" "dec_slice (dec_pointer (dec_struct Attachment_fields) zero_Attachment) None" None
    "pred_option (list_all (pred_option fits_attachment))"
  by (rule attachment_codec.ptr.slice)

lemma string_slices [simp]: "pred_option (list_all (\<lambda>s. True)) xs"
  by (cases xs) (simp_all add: list_all_iff)

lemma all_participants [simp]: "pred_option (list_all (pred_option (\<lambda>a. True))) xs"
  by (cases xs) (auto simp: list_all_iff pred_option_def)

text \<open>A member left out because it is empty would have changed nothing.\<close>

lemma dec_members_omit:
  assumes "case find_field fs k of Some d \<Rightarrow> d (JStr '''') r = Inr r | None \<Rightarrow> False"
  shows "dec_members fs (omit_empty k s @ ms) r = dec_members fs ((k, JStr s) # ms) r"
    and "dec_members fs (omit_empty k s) r = dec_members fs [(k, JStr s)] r"
  using assms by (auto simp: omit_empty_def split: option.splits)

lemma snd_field: "snd (field n get upd d) j r = (case d j (get r) of Inl e \<Rightarrow> Inl e | Inr x \<Rightarrow> Inr (upd (\<lambda>_. x) r))"
  by (simp add: field_def)
lemma Message_find:
  "find_field Message_fields ''ID'' = Some (snd (field ''ID'' mID mID_update dec_string))"
  "find_field Message_fields ''Order'' = Some (snd (field ''Order'' mOrder mOrder_update dec_int))"
  "find_field Message_fields ''ConversationID'' = Some (snd (field ''ConversationID'' mConversationID mConversationID_update dec_string))"
  "find_field Message_fields ''Subject'' = Some (snd (field ''Subject'' mSubject mSubject_update dec_string))"
  "find_field Message_fields ''Unread'' = Some (snd (field ''Unread'' mUnread mUnread_update dec_int))"
  "find_field Message_fields ''Type'' = Some (snd (field ''Type'' mType mType_update dec_int))"
  "find_field Message_fields ''Sender'' = Some (snd (field ''Sender'' mSender mSender_update dec_participant))"
  "find_field Message_fields ''ToList'' = Some (snd (field ''ToList'' mToList mToList_update dec_participants))"
  "find_field Message_fields ''Time'' = Some (snd (field ''Time'' mTime mTime_update dec_int))"
  "find_field Message_fields ''Size'' = Some (snd (field ''Size'' mSize mSize_update dec_int))"
  "find_field Message_fields ''NumAttachments'' = Some (snd (field ''NumAttachments'' mNumAttachments mNumAttachments_update dec_int))"
  "find_field Message_fields ''IsEncrypted'' = Some (snd (field ''IsEncrypted'' mIsEncrypted mIsEncrypted_update dec_int))"
  "find_field Message_fields ''ExpirationTime'' = Some (snd (field ''ExpirationTime'' mExpirationTime mExpirationTime_update dec_int))"
  "find_field Message_fields ''IsReplied'' = Some (snd (field ''IsReplied'' mIsReplied mIsReplied_update dec_int))"
  "find_field Message_fields ''IsRepliedAll'' = Some (snd (field ''IsRepliedAll'' mIsRepliedAll mIsRepliedAll_update dec_int))"
  "find_field Message_fields ''IsForwarded'' = Some (snd (field ''IsForwarded'' mIsForwarded mIsForwarded_update dec_int))"
  "find_field Message_fields ''SpamScore'' = Some (snd (field ''SpamScore'' mSpamScore mSpamScore_update dec_int))"
  "find_field Message_fields ''AddressID'' = Some (snd (field ''AddressID'' mAddressID mAddressID_update dec_string))"
  "find_field Message_fields ''Body'' = Some (snd (field ''Body'' mBody mBody_update dec_string))"
  "find_field Message_fields ''MIMEType'' = Some (snd (field ''MIMEType'' mMIMEType mMIMEType_update dec_string))"
  "find_field Message_fields ''CCList'' = Some (snd (field ''CCList'' mCCList mCCList_update dec_participants))"
  "find_field Message_fields ''BCCList'' = Some (snd (field ''BCCList'' mBCCList mBCCList_update dec_participants))"
  "find_field Message_fields ''ReplyTos'' = Some (snd (field ''ReplyTos'' mReplyTos mReplyTos_update dec_participants))"
  "find_field Message_fields ''Header'' = Some (snd (field ''Header'' mHeader mHeader_update dec_string))"
  "find_field Message_fields ''Attachments'' = Some (snd (field ''Attachments'' mAttachments mAttachments_update (dec_slice (dec_pointer (dec_struct Attachment_fields) zero_Attachment) None)))"
  "find_field Message_fields ''LabelIDs'' = Some (snd (field ''LabelIDs'' mLabelIDs mLabelIDs_update dec_strings))"
  "find_field Message_fields ''ExternalID'' = Some (snd (field ''ExternalID'' mExternalID mExternalID_update dec_string))"
  by (simp_all add: find_field_def Message_fields_def field_def)

text \<open>
  A message survives its encoding: for numbers of 64 bits, decoding what \<open>Message_json\<close>
  writes over a zero message gives the message back, nil and empty slices kept apart.
\<close>

theorem Message_json_roundtrip:
  assumes "int64_Message m"
  shows "dec_struct Message_fields (Message_json m) zero_Message = Inr m"
proof -
  have ints: "int64 (mOrder m)" "int64 (mUnread m)" "int64 (mType m)" "int64 (mTime m)" "int64 (mSize m)"
    "int64 (mNumAttachments m)" "int64 (mIsEncrypted m)" "int64 (mExpirationTime m)" "int64 (mIsReplied m)"
    "int64 (mIsRepliedAll m)" "int64 (mIsForwarded m)" "int64 (mSpamScore m)"
    and att: "pred_option (list_all (pred_option fits_attachment)) (mAttachments m)"
    using assms by (simp_all add: int64_Message_def)
  have sender: "dec_participant (jptr MessageAddress_json x) None = Inr x" for x
    unfolding dec_participant_def by (rule address_codec.ptr.reads) (cases x; simp)
  show ?thesis
    unfolding Message_json_def dec_struct.simps append_Cons append_Nil append_assoc zero_Message_def
    by (simp add: dec_members_omit Message_find snd_field dec_int_int64 ints sender participants_codec.reads
       dec_strings_def string_codec.slice_reads string_slices attachment_codec.ptr.slice_reads [OF att])
qed

lemma json_ints_Message: "json_ints (Message_json m)"
  by (simp add: Message_json_def address_codec.ptr.ints participants_codec.ints json_ints_jslice attachment_codec.ptr.ints)

lemma Message_text:
  "json_utf8 (Message_json m) \<longleftrightarrow>
     valid_utf8 (mID m) \<and> valid_utf8 (mConversationID m) \<and> valid_utf8 (mSubject m) \<and> valid_utf8 (mAddressID m) \<and>
     valid_utf8 (mBody m) \<and> valid_utf8 (mMIMEType m) \<and> valid_utf8 (mHeader m) \<and> valid_utf8 (mExternalID m) \<and>
     json_utf8 (jptr MessageAddress_json (mSender m)) \<and> json_utf8 (participants_json (mToList m)) \<and>
     json_utf8 (participants_json (mCCList m)) \<and> json_utf8 (participants_json (mBCCList m)) \<and>
     json_utf8 (participants_json (mReplyTos m)) \<and> json_utf8 (jslice (jptr Attachment_json) (mAttachments m)) \<and>
     json_utf8 (jslice JStr (mLabelIDs m))"
  by (auto simp: Message_json_def)

text \<open>What is decoded into a message is of its type, whatever JSON it comes from.\<close>

lemma Message_fit: "list_all (field_keeps (\<lambda>j. True) int64_Message) Message_fields"
  unfolding Message_fields_def list.pred_inject
  by (intro conjI TrueI field_keepsI; simp add: int64_Message_def) (auto dest: dec_int_fits attachments_codec.fit)

lemma Message_texts: "list_all (field_keeps json_utf8 (\<lambda>m. json_utf8 (Message_json m))) Message_fields"
  unfolding Message_fields_def list.pred_inject
  by (intro conjI TrueI field_keepsI; simp add: Message_text)
     (auto dest: string_codec.texts strings_codec.texts participant_codec.texts participants_codec.texts attachments_codec.texts)

interpretation message_codec: struct_codec Message_json "dec_struct Message_fields" zero_Message int64_Message
proof
  show "int64_Message m \<Longrightarrow> dec_struct Message_fields (Message_json m) zero_Message = Inr m" for m by (rule Message_json_roundtrip)
  show "json_ints (Message_json m)" for m by (rule json_ints_Message)
  show "Message_json m \<noteq> JNull" for m by (simp add: Message_json_def)
  show "int64_Message x" if "dec_struct Message_fields j old = Inr x" "int64_Message old" for j old x
    using that by (rule dec_struct_fit [OF Message_fit])
  show "json_utf8 (Message_json x)" if "dec_struct Message_fields j old = Inr x" "json_utf8 j" "json_utf8 (Message_json old)"
    for j old x using that by (rule dec_struct_texts [OF Message_texts])
  show "int64_Message zero_Message" by (simp add: int64_Message_def zero_Message_def int64_def)
  show "json_utf8 (Message_json zero_Message)"
    by (simp add: Message_text zero_Message_def jptr_def jslice_def participants_json_def)
qed

end
