(* ===== verification/Crypto.thy ===== *)
theory Crypto
  imports Message_Data Go_Bytes
begin

text \<open>
  crypto.go: the choice of the key of an OpenPGP entity that encrypts or signs, session keys, and
  the writer that encrypts and signs a stream.  go-crypto is not part of the client: what is
  called of it is the record \<open>pgp\<close>, and of its structures the fields that the client reads.
  The types are: \<open>'q\<close> a public key packet, \<open>'p\<close> a private key packet, \<open>'s\<close> what else a
  signature holds.  A signature of an identity or a subkey is never nil, as in every entity that
  go-crypto reads.
\<close>

section \<open>Entities\<close>

record 's signature =
  FlagsValid :: bool
  FlagEncryptCommunications :: bool
  FlagSign :: bool
  IsPrimaryId :: "bool option"
  CreationTime :: int
  sigRest :: 's

text \<open>\<open>time.Time{}\<close>, in seconds of Unix time.\<close>

definition zero_time :: int where "zero_time = - 62135596800"

record ('q, 'p, 's) subkey =
  skPublicKey :: 'q
  skPrivateKey :: "'p option"
  skSig :: "'s signature"
  skRevocations :: "'s signature list"

text \<open>The identities are a Go map: the list has them in the order in which the range meets them.\<close>

record ('q, 'p, 's) pgp_entity =
  PrimaryKey :: 'q
  PrimaryPrivate :: "'p option"
  Identities :: "'s signature list"
  Subkeys :: "('q, 'p, 's) subkey list"
  Revocations :: "'s signature list"

record ('q, 'p, 's) pgp_key =
  kEntity :: "('q, 'p, 's) pgp_entity"
  kPublicKey :: 'q
  kPrivateKey :: "'p option"
  kSelfSignature :: "'s signature"
  kRevocations :: "'s signature list"

section \<open>The library\<close>

definition CipherAES128 :: int where "CipherAES128 = 7"
definition CipherAES192 :: int where "CipherAES192 = 8"
definition CipherAES256 :: int where "CipherAES256 = 9"
definition crypto_SHA512 :: int where "crypto_SHA512 = 7"
definition SigTypeBinary :: int where "SigTypeBinary = 0"

record one_pass =
  opVersion :: int
  opSigType :: int
  opHash :: int
  opPubKeyAlgo :: int
  opKeyId :: int
  opIsLast :: bool

record sig_packet =
  sgVersion :: int
  sgSigType :: int
  sgPubKeyAlgo :: int
  sgHash :: int
  sgIssuerKeyId :: int
  sgMaterial :: string

record literal_head =
  lhIsBinary :: bool
  lhFileName :: string
  lhTime :: "32 word"

text \<open>
  What is written into an encrypted data packet, piece by piece: \<open>SinkError\<close> says whether the
  next piece can be written after the ones before.  \<open>ItemEnd\<close> is the end of the packet, written
  when it is closed; \<open>Seal\<close> gives the bytes of a packet that was ended.  The last argument of
  \<open>SerializeEncryptedKey\<close> is what crypto/rand will deliver; the result has what is left of it.
\<close>

datatype item =
    ItemOnePass one_pass
  | ItemLiteral literal_head
  | ItemData string
  | ItemLiteralEnd
  | ItemSignature sig_packet
  | ItemEnd

record ('q, 'p, 's) pgp =
  CanEncrypt :: "'q \<Rightarrow> bool"
  CanSign :: "'q \<Rightarrow> bool"
  KeyExpired :: "'q \<Rightarrow> 's signature \<Rightarrow> int \<Rightarrow> bool"
  SigExpired :: "'s signature \<Rightarrow> int \<Rightarrow> bool"
  pubKeyId :: "'q \<Rightarrow> 64 word"
  KeySize :: "int \<Rightarrow> nat"
  privPubKeyAlgo :: "'p \<Rightarrow> int"
  privKeyId :: "'p \<Rightarrow> int"
  privEncrypted :: "'p \<Rightarrow> bool"
  OpenEncrypted :: "int \<Rightarrow> bytes \<Rightarrow> error option"
  SinkError :: "item list \<Rightarrow> item \<Rightarrow> error option"
  Sign :: "'p \<Rightarrow> int \<Rightarrow> string \<Rightarrow> error + string"
  SerializeEncryptedKey :: "'q \<Rightarrow> int \<Rightarrow> bytes \<Rightarrow> bytes \<Rightarrow> (error + bytes) \<times> bytes"
  Seal :: "EncryptedKey \<Rightarrow> item list \<Rightarrow> bytes"

section \<open>Choosing a key\<close>

fun primary_from :: "'s signature option \<Rightarrow> 's signature list \<Rightarrow> 's signature option" where
  "primary_from firstIdentity [] = firstIdentity"
| "primary_from firstIdentity (ident # idents) =
     (let firstIdentity = (if firstIdentity = None then Some ident else firstIdentity) in
      if IsPrimaryId ident \<noteq> None \<and> IsPrimaryId ident = Some True then Some ident
      else primary_from firstIdentity idents)"

definition primaryIdentity :: "('q, 'p, 's) pgp_entity \<Rightarrow> 's signature option" where
  "primaryIdentity e = primary_from None (Identities e)"

definition entityToKey :: "('q, 'p, 's) pgp_entity \<Rightarrow> 's signature option \<Rightarrow> (error, ('q, 'p, 's) pgp_key) outcome" where
  "entityToKey e ident =
     (case ident of
        None \<Rightarrow> Panic ''nil pointer dereference''
      | Some selfSignature \<Rightarrow>
          Ok \<lparr>kEntity = e, kPublicKey = PrimaryKey e, kPrivateKey = PrimaryPrivate e,
              kSelfSignature = selfSignature, kRevocations = Revocations e\<rparr>)"

definition entityPrimaryKey :: "('q, 'p, 's) pgp_entity \<Rightarrow> (error, ('q, 'p, 's) pgp_key) outcome" where
  "entityPrimaryKey e = entityToKey e (primaryIdentity e)"

definition entitySubkeyToKey :: "('q, 'p, 's) pgp_entity \<Rightarrow> ('q, 'p, 's) subkey \<Rightarrow> ('q, 'p, 's) pgp_key" where
  "entitySubkeyToKey e sk =
     \<lparr>kEntity = e, kPublicKey = skPublicKey sk, kPrivateKey = skPrivateKey sk,
      kSelfSignature = skSig sk, kRevocations = skRevocations sk\<rparr>"

text \<open>The loop over the subkeys: the index of the candidate (-1: none) and its creation time.\<close>

definition can_encrypt :: "('q, 'p, 's) pgp \<Rightarrow> int \<Rightarrow> ('q, 'p, 's) subkey \<Rightarrow> bool" where
  "can_encrypt lib now sk \<longleftrightarrow>
     FlagsValid (skSig sk) \<and> FlagEncryptCommunications (skSig sk) \<and> CanEncrypt lib (skPublicKey sk) \<and>
     \<not> KeyExpired lib (skPublicKey sk) (skSig sk) now"

fun newest_subkey ::
  "('q, 'p, 's) pgp \<Rightarrow> int \<Rightarrow> nat \<Rightarrow> ('q, 'p, 's) subkey list \<Rightarrow> int \<times> int \<Rightarrow> int \<times> int" where
  "newest_subkey lib now i [] (candidateSubkey, maxTime) = (candidateSubkey, maxTime)"
| "newest_subkey lib now i (sk # sks) (candidateSubkey, maxTime) =
     newest_subkey lib now (Suc i) sks
       (if can_encrypt lib now sk \<and> (maxTime = zero_time \<or> maxTime < CreationTime (skSig sk))
        then (int i, CreationTime (skSig sk)) else (candidateSubkey, maxTime))"

text \<open>\<open>Ok None\<close> is the zero key with the result false.\<close>

definition encryptionKey ::
  "('q, 'p, 's) pgp \<Rightarrow> ('q, 'p, 's) pgp_entity \<Rightarrow> int \<Rightarrow> (error, ('q, 'p, 's) pgp_key option) outcome" where
  "encryptionKey lib e now =
     (let (candidateSubkey, maxTime) = newest_subkey lib now 0 (Subkeys e) (- 1, zero_time) in
      if candidateSubkey \<noteq> - 1 then Ok (Some (entitySubkeyToKey e (Subkeys e ! nat candidateSubkey)))
      else case primaryIdentity e of
             None \<Rightarrow> Panic ''nil pointer dereference''
           | Some i \<Rightarrow>
               (if \<not> FlagsValid i \<or>
                   (FlagEncryptCommunications i \<and> CanEncrypt lib (PrimaryKey e) \<and> \<not> SigExpired lib i now)
                then bindO (entityToKey e (Some i)) (\<lambda>k. Ok (Some k))
                else Ok None))"

definition can_sign :: "('q, 'p, 's) pgp \<Rightarrow> int \<Rightarrow> ('q, 'p, 's) subkey \<Rightarrow> bool" where
  "can_sign lib now sk \<longleftrightarrow>
     FlagsValid (skSig sk) \<and> FlagSign (skSig sk) \<and> CanSign lib (skPublicKey sk) \<and>
     \<not> KeyExpired lib (skPublicKey sk) (skSig sk) now"

fun first_subkey :: "('q, 'p, 's) pgp \<Rightarrow> int \<Rightarrow> nat \<Rightarrow> ('q, 'p, 's) subkey list \<Rightarrow> int" where
  "first_subkey lib now i [] = - 1"
| "first_subkey lib now i (sk # sks) =
     (if can_sign lib now sk then int i else first_subkey lib now (Suc i) sks)"

definition signingKey ::
  "('q, 'p, 's) pgp \<Rightarrow> ('q, 'p, 's) pgp_entity \<Rightarrow> int \<Rightarrow> (error, ('q, 'p, 's) pgp_key option) outcome" where
  "signingKey lib e now =
     (let candidateSubkey = first_subkey lib now 0 (Subkeys e) in
      if candidateSubkey \<noteq> - 1 then Ok (Some (entitySubkeyToKey e (Subkeys e ! nat candidateSubkey)))
      else case primaryIdentity e of
             None \<Rightarrow> Panic ''nil pointer dereference''
           | Some i \<Rightarrow>
               (if \<not> FlagsValid i \<or> (FlagSign i \<and> \<not> SigExpired lib i now)
                then bindO (entityToKey e (Some i)) (\<lambda>k. Ok (Some k))
                else Ok None))"

section \<open>Session keys\<close>

text \<open>The state is what crypto/rand will deliver.\<close>

definition generateUnencryptedKey :: "('q, 'p, 's) pgp \<Rightarrow> int \<Rightarrow> (bytes, error, EncryptedKey) prog" where
  "generateUnencryptedKey lib cipher rd =
     (let n = KeySize lib cipher in
      if length rd < n then Some (Err (Opaque (if rd = [] then ''EOF'' else ''unexpected EOF'')), [])
      else Some (Ok \<lparr>ekCipherFunc = cipher, ekKey = take n rd\<rparr>, drop n rd))"

section \<open>The encrypting writer\<close>

record hints =
  IsBinary :: bool
  FileName :: string
  ModTime :: "int option"

text \<open>
  The writer that \<open>symetricallyEncrypt\<close> returns: the pieces written into the encrypted data
  packet so far, the session key of the packet, and, when there is a signer, what was hashed.
\<close>

record 'p sym_writer =
  swKey :: EncryptedKey
  swItems :: "item list"
  swSigner :: "'p option"
  swHashed :: string

type_synonym 'p writing = "error option \<times> 'p sym_writer"

definition sink_write :: "('q, 'p, 's) pgp \<Rightarrow> item \<Rightarrow> 'p sym_writer \<Rightarrow> 'p writing" where
  "sink_write lib it w =
     (case SinkError lib (swItems w) it of
        Some e \<Rightarrow> (Some e, w)
      | None \<Rightarrow> (None, w\<lparr>swItems := swItems w @ [it]\<rparr>))"

definition then_write :: "'p writing \<Rightarrow> ('p sym_writer \<Rightarrow> 'p writing) \<Rightarrow> 'p writing" where
  "then_write r f = (case r of (Some e, w) \<Rightarrow> (Some e, w) | (None, w) \<Rightarrow> f w)"

definition symetricallyEncrypt ::
  "('q, 'p, 's) pgp \<Rightarrow> EncryptedKey \<Rightarrow> 'p option \<Rightarrow> hints option \<Rightarrow> error + 'p sym_writer" where
  "symetricallyEncrypt lib symKey signer hs =
     (case OpenEncrypted lib (ekCipherFunc symKey) (ekKey symKey) of
        Some e \<Rightarrow> Inl e
      | None \<Rightarrow>
          (let w0 = \<lparr>swKey = symKey, swItems = [], swSigner = signer, swHashed = ''''\<rparr>;
               r1 = (case signer of
                       None \<Rightarrow> (None, w0)
                     | Some p \<Rightarrow>
                         sink_write lib (ItemOnePass \<lparr>opVersion = 3, opSigType = SigTypeBinary, opHash = crypto_SHA512,
                           opPubKeyAlgo = privPubKeyAlgo lib p, opKeyId = privKeyId lib p, opIsLast = True\<rparr>) w0);
               h = (case hs of None \<Rightarrow> \<lparr>IsBinary = False, FileName = '''', ModTime = None\<rparr> | Some h \<Rightarrow> h);
               epochSeconds = (case ModTime h of None \<Rightarrow> 0 | Some t \<Rightarrow> word_of_int t)
           in case then_write r1 (sink_write lib (ItemLiteral
                     \<lparr>lhIsBinary = IsBinary h, lhFileName = FileName h, lhTime = epochSeconds\<rparr>)) of
                (Some e, w) \<Rightarrow> Inl e
              | (None, w) \<Rightarrow> Inr w))"

text \<open>
  \<open>Write\<close> and \<open>Close\<close>.  Without a signer the writer is the literal packet's own, whose
  \<open>Close\<close> closes the encrypted packet under it; with one it is a \<open>signatureWriter\<close>, which
  wraps the encrypted packet in a \<open>noOpCloser\<close> and closes it itself after the signature.
\<close>

definition sym_Write :: "('q, 'p, 's) pgp \<Rightarrow> string \<Rightarrow> 'p sym_writer \<Rightarrow> 'p writing" where
  "sym_Write lib data w =
     sink_write lib (ItemData data) (case swSigner w of None \<Rightarrow> w | Some p \<Rightarrow> w\<lparr>swHashed := swHashed w @ data\<rparr>)"

definition sym_Close :: "('q, 'p, 's) pgp \<Rightarrow> 'p sym_writer \<Rightarrow> 'p writing" where
  "sym_Close lib w =
     (case swSigner w of
        None \<Rightarrow> then_write (sink_write lib ItemLiteralEnd w) (sink_write lib ItemEnd)
      | Some p \<Rightarrow>
          (case Sign lib p crypto_SHA512 (swHashed w) of
             Inl e \<Rightarrow> (Some e, w)
           | Inr material \<Rightarrow>
               then_write (sink_write lib ItemLiteralEnd w) (\<lambda>w.
               then_write (sink_write lib (ItemSignature
                 \<lparr>sgVersion = 3, sgSigType = SigTypeBinary, sgPubKeyAlgo = privPubKeyAlgo lib p, sgHash = crypto_SHA512,
                  sgIssuerKeyId = privKeyId lib p, sgMaterial = material\<rparr>) w)
                 (sink_write lib ItemEnd))))"

text \<open>A use of the writer: a write for each chunk, then \<open>Close\<close>; the first error ends it.\<close>

fun sym_run :: "('q, 'p, 's) pgp \<Rightarrow> string list \<Rightarrow> 'p sym_writer \<Rightarrow> 'p writing" where
  "sym_run lib [] w = sym_Close lib w"
| "sym_run lib (d # ds) w = then_write (sym_Write lib d w) (sym_run lib ds)"

section \<open>The chosen key\<close>

definition newest_at :: "('a \<Rightarrow> bool) \<Rightarrow> ('a \<Rightarrow> int) \<Rightarrow> 'a list \<Rightarrow> nat \<Rightarrow> bool" where
  "newest_at P f xs j \<longleftrightarrow> j < length xs \<and> P (xs ! j) \<and>
     (\<forall>k < length xs. P (xs ! k) \<longrightarrow> f (xs ! k) \<le> f (xs ! j)) \<and> (\<forall>k < j. P (xs ! k) \<longrightarrow> f (xs ! k) < f (xs ! j))"

lemma newest_at_snoc_keep:
  "newest_at P f xs j \<Longrightarrow> \<not> P x \<or> f x \<le> f (xs ! j) \<Longrightarrow> newest_at P f (xs @ [x]) j"
  by (auto simp: newest_at_def nth_append less_Suc_eq)

lemma newest_at_snoc_take:
  assumes "P x" and "\<forall>y \<in> set xs. P y \<longrightarrow> f y < f x"
  shows "newest_at P f (xs @ [x]) (length xs)"
  using assms by (auto simp: newest_at_def nth_append less_Suc_eq less_imp_le)

lemma newest_subkey_append:
  "newest_subkey lib now i (xs @ ys) st = newest_subkey lib now (i + length xs) ys (newest_subkey lib now i xs st)"
  by (induction xs arbitrary: i st) (auto simp: prod.case_eq_if split: prod.split)

lemma newest_subkey_spec:
  assumes "\<forall>sk \<in> set sks. zero_time < CreationTime (skSig sk)"
    and "newest_subkey lib now 0 sks (- 1, zero_time) = (c, t)"
  shows "if \<forall>sk \<in> set sks. \<not> can_encrypt lib now sk then c = - 1 \<and> t = zero_time
     else \<exists>j. c = int j \<and> newest_at (can_encrypt lib now) (\<lambda>sk. CreationTime (skSig sk)) sks j \<and>
            t = CreationTime (skSig (sks ! j))"
  using assms
proof (induction sks arbitrary: c t rule: rev_induct)
  case Nil
  then show ?case by simp
next
  case (snoc sk sks)
  obtain c0 t0 where pre: "newest_subkey lib now 0 sks (- 1, zero_time) = (c0, t0)"
    by (cases "newest_subkey lib now 0 sks (- 1, zero_time)")
  let ?f = "\<lambda>sk. CreationTime (skSig sk)"
  have later: "zero_time < ?f sk" using snoc.prems(1) by simp
  have run: "(c, t) = (if can_encrypt lib now sk \<and> (t0 = zero_time \<or> t0 < ?f sk)
      then (int (length sks), ?f sk) else (c0, t0))"
    using snoc.prems(2) pre by (auto simp: newest_subkey_append split: if_splits)
  have IH: "if \<forall>sk \<in> set sks. \<not> can_encrypt lib now sk then c0 = - 1 \<and> t0 = zero_time
     else \<exists>j. c0 = int j \<and> newest_at (can_encrypt lib now) ?f sks j \<and> t0 = ?f (sks ! j)"
    using snoc.IH [OF _ pre] snoc.prems(1) by simp
  show ?case
  proof (cases "\<forall>sk \<in> set sks. \<not> can_encrypt lib now sk")
    case True
    with IH run later newest_at_snoc_take [of "can_encrypt lib now" sk sks ?f] show ?thesis
      by (auto split: if_splits)
  next
    case False
    with IH obtain j where j: "c0 = int j" "newest_at (can_encrypt lib now) ?f sks j" "t0 = ?f (sks ! j)" by auto
    then have le: "y \<in> set sks \<Longrightarrow> can_encrypt lib now y \<Longrightarrow> ?f y \<le> t0" for y
      by (auto simp: newest_at_def in_set_conv_nth)
    from j have "zero_time < t0" using snoc.prems(1) by (auto simp: newest_at_def)
    then have run': "(c, t) = (if can_encrypt lib now sk \<and> t0 < ?f sk then (int (length sks), ?f sk) else (c0, t0))"
      using run by simp
    show ?thesis
    proof (cases "can_encrypt lib now sk \<and> t0 < ?f sk")
      case True
      with le have "newest_at (can_encrypt lib now) ?f (sks @ [sk]) (length sks)"
        by (intro newest_at_snoc_take) force+
      with True run' show ?thesis by auto
    next
      case not: False
      with j have "newest_at (can_encrypt lib now) ?f (sks @ [sk]) j"
        by (intro newest_at_snoc_keep) auto
      moreover have "j < length sks" using j by (simp add: newest_at_def)
      moreover have "c = int j" "t = ?f (sks ! j)" using run' not j by (simp_all split: if_splits)
      moreover have "\<not> (\<forall>y \<in> set (sks @ [sk]). \<not> can_encrypt lib now y)" using False by simp
      ultimately show ?thesis by (simp only: if_False) (rule exI [of _ j], simp add: nth_append)
    qed
  qed
qed

text \<open>
  C25.  \<open>encryptionKey\<close> returns the newest usable subkey, the first of those made at the
  same time; only when there is none does it fall back to the primary key, which is refused
  exactly when its flags are valid and either do not allow encryption or have expired.
\<close>

theorem encryptionKey_newest:
  assumes "\<forall>sk \<in> set (Subkeys e). zero_time < CreationTime (skSig sk)"
  shows "if \<exists>sk \<in> set (Subkeys e). can_encrypt lib now sk
     then \<exists>j k. encryptionKey lib e now = Ok (Some k) \<and> k = entitySubkeyToKey e (Subkeys e ! j) \<and>
            newest_at (can_encrypt lib now) (\<lambda>sk. CreationTime (skSig sk)) (Subkeys e) j
     else (case primaryIdentity e of
             None \<Rightarrow> encryptionKey lib e now = Panic ''nil pointer dereference''
           | Some i \<Rightarrow>
               (FlagsValid i \<longrightarrow> FlagEncryptCommunications i \<and> CanEncrypt lib (PrimaryKey e) \<and> \<not> SigExpired lib i now) \<and>
                 encryptionKey lib e now = Ok (Some \<lparr>kEntity = e, kPublicKey = PrimaryKey e,
                   kPrivateKey = PrimaryPrivate e, kSelfSignature = i, kRevocations = Revocations e\<rparr>)
               \<or> FlagsValid i \<and> \<not> (FlagEncryptCommunications i \<and> CanEncrypt lib (PrimaryKey e) \<and> \<not> SigExpired lib i now) \<and>
                 encryptionKey lib e now = Ok None)"
proof -
  obtain c t where run: "newest_subkey lib now 0 (Subkeys e) (- 1, zero_time) = (c, t)"
    by (cases "newest_subkey lib now 0 (Subkeys e) (- 1, zero_time)")
  note spec = newest_subkey_spec [OF assms run]
  show ?thesis
  proof (cases "\<exists>sk \<in> set (Subkeys e). can_encrypt lib now sk")
    case True
    with spec obtain j where "c = int j" "newest_at (can_encrypt lib now) (\<lambda>sk. CreationTime (skSig sk)) (Subkeys e) j"
      by (auto split: if_splits)
    with run True show ?thesis
      by (auto simp: encryptionKey_def)
  next
    case False
    with spec run show ?thesis
      by (auto simp: encryptionKey_def entityToKey_def split: option.split)
  qed
qed

text \<open>\<open>signingKey\<close> takes the first usable subkey.\<close>

lemma first_subkey_spec:
  "(first_subkey lib now i sks = - 1 \<and> (\<forall>sk \<in> set sks. \<not> can_sign lib now sk)) \<or>
   (\<exists>j < length sks. first_subkey lib now i sks = int (i + j) \<and> can_sign lib now (sks ! j) \<and>
      (\<forall>k < j. \<not> can_sign lib now (sks ! k)))"
proof (induction sks arbitrary: i)
  case (Cons sk sks)
  show ?case
  proof (cases "can_sign lib now sk")
    case False
    show ?thesis
    proof (cases "\<exists>x \<in> set sks. can_sign lib now x")
      case True
      then obtain j where "j < length sks" "first_subkey lib now (Suc i) sks = int (Suc i + j)"
        "can_sign lib now (sks ! j)" "\<forall>k < j. \<not> can_sign lib now (sks ! k)" using Cons [of "Suc i"] by blast
      with False show ?thesis
        by (intro disjI2 exI [of _ "Suc j"]) (auto simp: nth_Cons split: nat.split)
    next
      case none: False
      then have "\<not> can_sign lib now (sks ! j)" if "j < length sks" for j using that by auto
      with none False Cons [of "Suc i"] show ?thesis by auto
    qed
  qed auto
qed simp

section \<open>Revocations\<close>

text \<open>The same entity after its keys were revoked.\<close>

definition revoke :: "'s signature list \<Rightarrow> ('q, 'p, 's) pgp_entity \<Rightarrow> ('q, 'p, 's) pgp_entity" where
  "revoke rs e = e\<lparr>Revocations := rs, Subkeys := map (\<lambda>sk. sk\<lparr>skRevocations := rs\<rparr>) (Subkeys e)\<rparr>"

text \<open>
  \<open>signingKey\<close> returns the first subkey that is usable for signing, and falls back to the
  primary key only when there is none.
\<close>

theorem signingKey_first:
  "(\<exists>sk \<in> set (Subkeys e). can_sign lib now sk) \<and>
     (\<exists>j < length (Subkeys e). signingKey lib e now = Ok (Some (entitySubkeyToKey e (Subkeys e ! j))) \<and>
        can_sign lib now (Subkeys e ! j) \<and> (\<forall>k \<in> {..<j}. \<not> can_sign lib now (Subkeys e ! k))) \<or>
   (\<forall>sk \<in> set (Subkeys e). \<not> can_sign lib now sk) \<and>
     (signingKey lib e now = Ok None \<or> primaryIdentity e = None \<and> signingKey lib e now = Panic ''nil pointer dereference'' \<or>
      (\<exists>i. primaryIdentity e = Some i \<and> (FlagsValid i \<longrightarrow> FlagSign i \<and> \<not> SigExpired lib i now) \<and>
         signingKey lib e now = bindO (entityPrimaryKey e) (\<lambda>k. Ok (Some k))))"
  using first_subkey_spec [of lib now 0 "Subkeys e"]
proof
  assume "first_subkey lib now 0 (Subkeys e) = - 1 \<and> (\<forall>sk \<in> set (Subkeys e). \<not> can_sign lib now sk)"
  then show ?thesis
    by (auto simp: signingKey_def entityToKey_def entityPrimaryKey_def split: option.split)
next
  assume "\<exists>j < length (Subkeys e). first_subkey lib now 0 (Subkeys e) = int (0 + j) \<and>
      can_sign lib now (Subkeys e ! j) \<and> (\<forall>k < j. \<not> can_sign lib now (Subkeys e ! k))"
  then obtain j where "j < length (Subkeys e)" "first_subkey lib now 0 (Subkeys e) = int j"
      "can_sign lib now (Subkeys e ! j)" "\<forall>k < j. \<not> can_sign lib now (Subkeys e ! k)" by auto
  then show ?thesis
    by (intro disjI1 conjI bexI [of _ "Subkeys e ! j"] exI [of _ j]) (simp_all add: signingKey_def)
qed

lemma newest_subkey_index:
  "newest_subkey lib now i sks st = (c, t) \<Longrightarrow> c = fst st \<or> (\<exists>j < length sks. c = int (i + j))"
proof (induction sks arbitrary: i st)
  case (Cons sk sks)
  obtain c0 t0 where "st = (c0, t0)" by (cases st)
  with Cons.prems Cons.IH [of "Suc i"] show ?case by (fastforce split: if_splits)
next
  case Nil
  then show ?case by (cases st) simp
qed

lemma newest_subkey_cong:
  assumes "\<And>sk. skSig (f sk) = skSig sk" "\<And>sk. skPublicKey (f sk) = skPublicKey sk"
  shows "newest_subkey lib now i (map f sks) st = newest_subkey lib now i sks st"
  by (induction sks arbitrary: i st) (auto simp: assms can_encrypt_def)

lemma first_subkey_cong:
  assumes "\<And>sk. skSig (f sk) = skSig sk" "\<And>sk. skPublicKey (f sk) = skPublicKey sk"
  shows "first_subkey lib now i (map f sks) = first_subkey lib now i sks"
  by (induction sks arbitrary: i) (auto simp: assms can_sign_def)

lemma revoke_simps [simp]:
  "primaryIdentity (revoke rs e) = primaryIdentity e" "PrimaryKey (revoke rs e) = PrimaryKey e"
  "PrimaryPrivate (revoke rs e) = PrimaryPrivate e"
  by (simp_all add: revoke_def primaryIdentity_def)

lemma revoke_choice [simp]:
  "newest_subkey lib now i (Subkeys (revoke rs e)) st = newest_subkey lib now i (Subkeys e) st"
  "first_subkey lib now i (Subkeys (revoke rs e)) = first_subkey lib now i (Subkeys e)"
  by (simp_all add: revoke_def newest_subkey_cong first_subkey_cong)

lemma revoke_subkey:
  "j < length (Subkeys e) \<Longrightarrow> kPublicKey (entitySubkeyToKey e' (Subkeys (revoke rs e) ! j)) = skPublicKey (Subkeys e ! j) \<and>
     kPrivateKey (entitySubkeyToKey e' (Subkeys (revoke rs e) ! j)) = skPrivateKey (Subkeys e ! j)"
  by (simp add: revoke_def entitySubkeyToKey_def)

text \<open>
  Neither choice looks at revocations: revoking the primary key and every subkey changes
  neither the public key that is encrypted to nor the private key that signs.  And the
  fallback to the primary key does not ask whether that key itself has expired.
\<close>

theorem key_choice_ignores_revocation:
  "map_outcome id (map_option kPublicKey) (encryptionKey lib (revoke rs e) now) =
     map_outcome id (map_option kPublicKey) (encryptionKey lib e now) \<and>
   map_outcome id (map_option kPrivateKey) (signingKey lib (revoke rs e) now) =
     map_outcome id (map_option kPrivateKey) (signingKey lib e now) \<and>
   encryptionKey (lib\<lparr>KeyExpired := expired\<rparr>) (e\<lparr>Subkeys := []\<rparr>) now = encryptionKey lib (e\<lparr>Subkeys := []\<rparr>) now"
proof (intro conjI)
  obtain c t where run: "newest_subkey lib now 0 (Subkeys e) (- 1, zero_time) = (c, t)"
    by (cases "newest_subkey lib now 0 (Subkeys e) (- 1, zero_time)")
  have "c = - 1 \<or> (\<exists>j < length (Subkeys e). c = int j)" using newest_subkey_index [OF run] by simp
  then show "map_outcome id (map_option kPublicKey) (encryptionKey lib (revoke rs e) now) =
      map_outcome id (map_option kPublicKey) (encryptionKey lib e now)"
    using run
    by (auto simp: encryptionKey_def revoke_subkey entitySubkeyToKey_def [of e] entityToKey_def split: option.split)
  show "map_outcome id (map_option kPrivateKey) (signingKey lib (revoke rs e) now) =
      map_outcome id (map_option kPrivateKey) (signingKey lib e now)"
    using first_subkey_spec [of lib now 0 "Subkeys e"]
    by (auto simp: signingKey_def revoke_subkey entitySubkeyToKey_def [of e] entityToKey_def split: option.split)
  show "encryptionKey (lib\<lparr>KeyExpired := expired\<rparr>) (e\<lparr>Subkeys := []\<rparr>) now = encryptionKey lib (e\<lparr>Subkeys := []\<rparr>) now"
    by (simp add: encryptionKey_def split: option.split)
qed

section \<open>What the encrypting writer writes\<close>

lemma sink_write_result:
  assumes "sink_write lib it w = (r, w')"
  shows "(case r of None \<Rightarrow> w' = w\<lparr>swItems := swItems w @ [it]\<rparr> | Some e \<Rightarrow> w' = w)"
  using assms by (auto simp: sink_write_def split: option.splits)

lemma then_write_result:
  "then_write r f = (x, w') \<longleftrightarrow> (\<exists>e w. r = (Some e, w) \<and> x = Some e \<and> w' = w) \<or> (\<exists>w. r = (None, w) \<and> f w = (x, w'))"
  by (cases r) (auto simp: then_write_def split: option.splits)

definition one_pass_of :: "('q, 'p, 's) pgp \<Rightarrow> 'p \<Rightarrow> one_pass" where
  "one_pass_of lib p = \<lparr>opVersion = 3, opSigType = SigTypeBinary, opHash = crypto_SHA512,
     opPubKeyAlgo = privPubKeyAlgo lib p, opKeyId = privKeyId lib p, opIsLast = True\<rparr>"

definition signature_of :: "('q, 'p, 's) pgp \<Rightarrow> 'p \<Rightarrow> string \<Rightarrow> sig_packet" where
  "signature_of lib p material = \<lparr>sgVersion = 3, sgSigType = SigTypeBinary, sgPubKeyAlgo = privPubKeyAlgo lib p,
     sgHash = crypto_SHA512, sgIssuerKeyId = privKeyId lib p, sgMaterial = material\<rparr>"

text \<open>The end of a stream with the given signer over the hashed data.\<close>

definition trailer :: "('q, 'p, 's) pgp \<Rightarrow> 'p option \<Rightarrow> string \<Rightarrow> item list \<Rightarrow> bool" where
  "trailer lib signer hashed items \<longleftrightarrow>
     (case signer of
        None \<Rightarrow> items = [ItemLiteralEnd, ItemEnd]
      | Some p \<Rightarrow> \<exists>m. Sign lib p crypto_SHA512 hashed = Inr m \<and>
          items = [ItemLiteralEnd, ItemSignature (signature_of lib p m), ItemEnd])"

lemma sym_Close_spec:
  assumes "sym_Close lib w = (r, w')" and "ItemEnd \<notin> set (swItems w)"
  shows "swKey w' = swKey w \<and> (case r of
     None \<Rightarrow> \<exists>tl. swItems w' = swItems w @ tl \<and> trailer lib (swSigner w) (swHashed w) tl
   | Some e \<Rightarrow> ItemEnd \<notin> set (swItems w'))"
  using assms
  by (auto simp: sym_Close_def then_write_result trailer_def signature_of_def split: option.splits sum.splits
      dest!: sink_write_result)

lemma sym_run_spec:
  assumes "sym_run lib ds w = (r, w')" and "ItemEnd \<notin> set (swItems w)"
  shows "swKey w' = swKey w \<and> (case r of
     None \<Rightarrow> \<exists>tl. swItems w' = swItems w @ map ItemData ds @ tl \<and>
         trailer lib (swSigner w) (swHashed w @ concat ds) tl
   | Some e \<Rightarrow> ItemEnd \<notin> set (swItems w'))"
  using assms
proof (induction ds arbitrary: w)
  case Nil
  then show ?case using sym_Close_spec [of lib w r w'] by (simp split: option.splits)
next
  case (Cons d ds)
  obtain r1 w1 where d: "sym_Write lib d w = (r1, w1)" by (cases "sym_Write lib d w")
  then have step: "case r1 of None \<Rightarrow> swItems w1 = swItems w @ [ItemData d] \<and> swKey w1 = swKey w \<and> swSigner w1 = swSigner w \<and>
      (swSigner w \<noteq> None \<longrightarrow> swHashed w1 = swHashed w @ d)
    | Some e \<Rightarrow> swItems w1 = swItems w \<and> swKey w1 = swKey w"
    unfolding sym_Write_def by (cases "swSigner w") (auto dest!: sink_write_result split: option.splits)
  show ?case
  proof (cases r1)
    case None
    with Cons.prems d have "sym_run lib ds w1 = (r, w')" by (simp add: then_write_def)
    from Cons.IH [OF this] step None Cons.prems(2) show ?thesis
      by (auto simp: trailer_def split: option.splits)
  next
    case (Some e)
    with Cons.prems d step show ?thesis by (auto simp: then_write_def)
  qed
qed

lemma symetricallyEncrypt_start:
  assumes "symetricallyEncrypt lib key signer hs = Inr w"
  shows "\<exists>h. swKey w = key \<and> swSigner w = signer \<and> swHashed w = '''' \<and>
    (case hs of None \<Rightarrow> \<not> lhIsBinary h \<and> lhFileName h = '''' | Some x \<Rightarrow> lhIsBinary h = IsBinary x \<and> lhFileName h = FileName x) \<and>
    swItems w = (case signer of None \<Rightarrow> [] | Some p \<Rightarrow> [ItemOnePass (one_pass_of lib p)]) @ [ItemLiteral h]"
  using assms
  by (auto simp: symetricallyEncrypt_def Let_def one_pass_of_def then_write_def sink_write_def split: option.splits)

text \<open>
  The packets of an encrypted stream: when every write and the close succeed, the encrypted
  packet holds, under the given session key, one literal packet with exactly the data written;
  with a signer it is enclosed by a one-pass packet and a signature of that same data, which
  name the same key, algorithm and hash.  On any error the packet is never ended, so that
  nobody can mistake it for a complete one.
\<close>

theorem encrypted_stream_format:
  assumes "symetricallyEncrypt lib key signer hs = Inr w" and "sym_run lib ds w = (r, w')"
  shows "swKey w' = key \<and>
    (case r of
       Some e \<Rightarrow> ItemEnd \<notin> set (swItems w')
     | None \<Rightarrow> \<exists>h. case signer of
          None \<Rightarrow> swItems w' = ItemLiteral h # map ItemData ds @ [ItemLiteralEnd, ItemEnd]
        | Some p \<Rightarrow> \<exists>op sg. swItems w' =
              [ItemOnePass op, ItemLiteral h] @ map ItemData ds @ [ItemLiteralEnd, ItemSignature sg, ItemEnd] \<and>
            Sign lib p (opHash op) (concat ds) = Inr (sgMaterial sg) \<and> opHash op = sgHash sg \<and>
            opKeyId op = sgIssuerKeyId sg \<and> opPubKeyAlgo op = sgPubKeyAlgo sg \<and> opSigType op = sgSigType sg)"
proof -
  obtain h where start: "swKey w = key" "swSigner w = signer" "swHashed w = ''''"
    "swItems w = (case signer of None \<Rightarrow> [] | Some p \<Rightarrow> [ItemOnePass (one_pass_of lib p)]) @ [ItemLiteral h]"
    using symetricallyEncrypt_start [OF assms(1)] by blast
  then have "ItemEnd \<notin> set (swItems w)" by (auto split: option.splits)
  from sym_run_spec [OF assms(2) this] start show ?thesis
    by (auto simp: trailer_def one_pass_of_def signature_of_def split: option.splits)
qed

section \<open>Witnesses\<close>

text \<open>A library over keys that are numbers: even keys encrypt, odd ones sign, none expires.\<close>

fun data_in :: "item list \<Rightarrow> string" where
  "data_in [] = ''''"
| "data_in (ItemData d # items) = d @ data_in items"
| "data_in (_ # items) = data_in items"

definition toy_pgp :: "(nat, nat, unit) pgp" where
  "toy_pgp = \<lparr>CanEncrypt = even, CanSign = odd, KeyExpired = (\<lambda>q sig now. False), SigExpired = (\<lambda>sig now. False),
     pubKeyId = (\<lambda>q. 0), KeySize = (\<lambda>c. 2), privPubKeyAlgo = (\<lambda>p. 1), privKeyId = int, privEncrypted = (\<lambda>p. False),
     OpenEncrypted = (\<lambda>c k. None), SinkError = (\<lambda>items it. None), Sign = (\<lambda>p h s. Inr s),
     SerializeEncryptedKey = (\<lambda>q c k rd. (Inr k, rd)), Seal = (\<lambda>k items. ekKey k @ bytes_of (data_in items))\<rparr>"

definition toy_sig :: "int \<Rightarrow> unit signature" where
  "toy_sig t = \<lparr>FlagsValid = True, FlagEncryptCommunications = True, FlagSign = True, IsPrimaryId = None,
     CreationTime = t, sigRest = ()\<rparr>"

definition toy_subkey :: "nat \<Rightarrow> int \<Rightarrow> (nat, nat, unit) subkey" where
  "toy_subkey q t = \<lparr>skPublicKey = q, skPrivateKey = Some q, skSig = toy_sig t, skRevocations = []\<rparr>"

definition toy_entity :: "(nat, nat, unit) pgp_entity" where
  "toy_entity = \<lparr>PrimaryKey = 1, PrimaryPrivate = Some 1, Identities = [toy_sig 5],
     Subkeys = [toy_subkey 2 10, toy_subkey 4 20, toy_subkey 3 30], Revocations = []\<rparr>"

lemmas toy_defs = toy_pgp_def toy_sig_def toy_subkey_def toy_entity_def zero_time_def

lemma encryptionKey_newest_witness:
  "\<exists>k. encryptionKey toy_pgp toy_entity 100 = Ok (Some k) \<and> kPublicKey k = 4"
proof -
  have later: "\<forall>sk \<in> set (Subkeys toy_entity). zero_time < CreationTime (skSig sk)" by (simp add: toy_defs)
  have usable: "\<exists>sk \<in> set (Subkeys toy_entity). can_encrypt toy_pgp 100 sk" by (simp add: toy_defs can_encrypt_def)
  then obtain j k where k: "encryptionKey toy_pgp toy_entity 100 = Ok (Some k)" "k = entitySubkeyToKey toy_entity (Subkeys toy_entity ! j)"
    and j: "newest_at (can_encrypt toy_pgp 100) (\<lambda>sk. CreationTime (skSig sk)) (Subkeys toy_entity) j"
    using encryptionKey_newest [OF later, of toy_pgp 100] by (simp only: if_True) blast
  have "can_encrypt toy_pgp 100 (Subkeys toy_entity ! 1)" "length (Subkeys toy_entity) = 3"
    by (simp_all add: can_encrypt_def toy_defs)
  with j have at: "j < 3" "can_encrypt toy_pgp 100 (Subkeys toy_entity ! j)"
      "CreationTime (skSig (Subkeys toy_entity ! 1)) \<le> CreationTime (skSig (Subkeys toy_entity ! j))"
    unfolding newest_at_def by auto
  from at(1) consider "j = 0" | "j = 1" | "j = 2" by linarith
  then have "j = 1" using at(2,3) by cases (simp_all add: toy_defs can_encrypt_def)
  with k show ?thesis by (simp add: entitySubkeyToKey_def toy_defs)
qed

lemma signingKey_first_witness:
  "\<exists>j. signingKey toy_pgp toy_entity 100 = Ok (Some (entitySubkeyToKey toy_entity (Subkeys toy_entity ! j))) \<and> j = 2"
proof -
  have "\<exists>sk \<in> set (Subkeys toy_entity). can_sign toy_pgp 100 sk" by (simp add: toy_defs can_sign_def)
  then obtain j where j: "j < length (Subkeys toy_entity)" "can_sign toy_pgp 100 (Subkeys toy_entity ! j)"
    "signingKey toy_pgp toy_entity 100 = Ok (Some (entitySubkeyToKey toy_entity (Subkeys toy_entity ! j)))"
    using signingKey_first [of toy_entity toy_pgp 100] by blast
  then have "j < 3" by (simp add: toy_defs)
  then consider "j = 0" | "j = 1" | "j = 2" by linarith
  then have "j = 2" using j(2) by cases (simp_all add: toy_defs can_sign_def)
  with j show ?thesis by blast
qed

lemma encrypted_stream_format_witness:
  "\<exists>w w' op h sg. symetricallyEncrypt toy_pgp \<lparr>ekCipherFunc = 9, ekKey = [1, 2]\<rparr> (Some 7) None = Inr w \<and>
     sym_run toy_pgp [''ab'', ''c''] w = (None, w') \<and>
     swItems w' = [ItemOnePass op, ItemLiteral h, ItemData ''ab'', ItemData ''c'', ItemLiteralEnd, ItemSignature sg, ItemEnd] \<and>
     sgMaterial sg = ''abc''"
proof -
  let ?key = "\<lparr>ekCipherFunc = 9, ekKey = [1, 2]\<rparr>"
  obtain w where w: "symetricallyEncrypt toy_pgp ?key (Some 7) None = Inr w"
    by (simp add: symetricallyEncrypt_def toy_pgp_def sink_write_def then_write_def)
  obtain r w' where run: "sym_run toy_pgp [''ab'', ''c''] w = (r, w')" by (cases "sym_run toy_pgp [''ab'', ''c''] w")
  have "sink_write toy_pgp it v = (None, v\<lparr>swItems := swItems v @ [it]\<rparr>)" for it v
    by (simp add: sink_write_def toy_pgp_def)
  moreover have "Sign toy_pgp p k s = Inr s" for p k s by (simp add: toy_pgp_def)
  ultimately have "r = None" using run by (auto simp: sym_Write_def sym_Close_def then_write_def split: option.splits)
  with encrypted_stream_format [OF w run] w run show ?thesis
    by (auto simp: toy_pgp_def)
qed

end
