(* ===== verification/Go_Values.thy ===== *)
theory Go_Values
  imports Go_Url "HOL-Library.AList" "HOL-Library.List_Lexorder" "HOL-Library.Char_ord"
begin

text \<open>
  \<open>url.Values\<close> of net/url, as the client uses it: keys set to one value, \<open>Encode\<close> (the keys
  in byte order, both sides percent encoded) and \<open>ParseQuery\<close>, the reading of a query by a
  server.  What is encoded is read back.
\<close>

type_synonym url_values = "(string \<times> string) list"

definition Values_Set :: "string \<Rightarrow> string \<Rightarrow> url_values \<Rightarrow> url_values" where
  "Values_Set k v vs = AList.update k v vs"

definition pair_escape :: "string \<times> string \<Rightarrow> string" where
  "pair_escape p = QueryEscape (fst p) @ ''='' @ QueryEscape (snd p)"

fun join_amp :: "string list \<Rightarrow> string" where
  "join_amp [] = ''''"
| "join_amp [x] = x"
| "join_amp (x # xs) = x @ ''&'' @ join_amp xs"

definition Values_Encode :: "url_values \<Rightarrow> string" where
  "Values_Encode vs = join_amp (map pair_escape (sort_key fst vs))"

text \<open>A piece between two ampersands; an empty one is skipped, one with a semicolon is an error.\<close>

fun split_amp :: "string \<Rightarrow> string list" where
  "split_amp [] = [[]]"
| "split_amp (c # s) =
     (if c = CHR ''&'' then [] # split_amp s
      else case split_amp s of [] \<Rightarrow> [[c]] | x # xs \<Rightarrow> (c # x) # xs)"

definition parse_pair :: "string \<Rightarrow> (string \<times> string) option" where
  "parse_pair s =
     (let (k, v, _) = Cut s (CHR ''='') in
      if CHR '';'' \<in> set s then None
      else case (unescape encodeQueryComponent k, unescape encodeQueryComponent v) of
             (Some k', Some v') \<Rightarrow> Some (k', v')
           | _ \<Rightarrow> None)"

fun parse_pairs :: "string list \<Rightarrow> url_values option" where
  "parse_pairs [] = Some []"
| "parse_pairs (x # xs) =
     (if x = [] then parse_pairs xs
      else case (parse_pair x, parse_pairs xs) of
             (Some p, Some ps) \<Rightarrow> Some (p # ps)
           | _ \<Rightarrow> None)"

definition ParseQuery :: "string \<Rightarrow> url_values option" where
  "ParseQuery q = parse_pairs (split_amp q)"

section \<open>Lookup\<close>

lemma map_of_Values_Set: "map_of (Values_Set k v vs) = (map_of vs)(k \<mapsto> v)"
  by (simp add: Values_Set_def update_conv')

lemma distinct_Values_Set: "distinct (map fst vs) \<Longrightarrow> distinct (map fst (Values_Set k v vs))"
  by (simp add: Values_Set_def distinct_update)

lemma map_of_sort_key:
  fixes vs :: "(string \<times> 'a) list"
  assumes "distinct (map fst vs)"
  shows "map_of (sort_key fst vs) = map_of vs"
proof -
  have "distinct (map fst (sort_key fst vs))" using assms by (simp add: distinct_map)
  with assms show ?thesis by (intro map_of_inject_set [THEN iffD2]) simp_all
qed

section \<open>Round trip\<close>

lemma query_char_plain:
  "d \<in> set (query_escape_char c) \<Longrightarrow> d \<noteq> CHR ''&'' \<and> d \<noteq> CHR ''='' \<and> d \<noteq> CHR '';''"
proof -
  assume d: "d \<in> set (query_escape_char c)"
  have hex: "hex_digit n \<noteq> CHR ''&'' \<and> hex_digit n \<noteq> CHR ''='' \<and> hex_digit n \<noteq> CHR '';''" if "n < 16" for n
  proof -
    from that have "unhex (hex_digit n) = Some n" by simp
    then show ?thesis by (auto simp: unhex_def char_nat_def)
  qed
  have "char_nat c div 16 < 16" "char_nat c mod 16 < 16" using char_nat_less [of c] by auto
  with d hex show ?thesis
    by (auto simp: query_escape_char_def unreserved_def is_alpha_def is_digit_def char_nat_def split: if_splits)
qed

lemma QueryEscape_plain:
  "CHR ''&'' \<notin> set (QueryEscape s)" "CHR ''='' \<notin> set (QueryEscape s)" "CHR '';'' \<notin> set (QueryEscape s)"
  using query_char_plain by (auto simp: QueryEscape_def)

lemma Cut_pair: "c \<notin> set a \<Longrightarrow> Cut (a @ c # b) c = (a, b, True)"
proof -
  assume "c \<notin> set a"
  then have "takeWhile (\<lambda>x. x \<noteq> c) (a @ c # b) = a" by (induction a) auto
  then show ?thesis by (simp add: Cut_def Let_def)
qed

lemma parse_pair_escape: "parse_pair (pair_escape p) = Some p"
  using Cut_pair [OF QueryEscape_plain(2), of "fst p" "QueryEscape (snd p)"] QueryEscape_plain
  by (simp add: parse_pair_def pair_escape_def)

lemma split_amp_plain: "CHR ''&'' \<notin> set s \<Longrightarrow> split_amp s = [s]"
  by (induction s) auto

lemma split_amp_append: "CHR ''&'' \<notin> set s \<Longrightarrow> split_amp (s @ CHR ''&'' # t) = s # split_amp t"
  by (induction s) auto

lemma pair_escape_plain: "CHR ''&'' \<notin> set (pair_escape p)" "pair_escape p \<noteq> []"
  using QueryEscape_plain by (simp_all add: pair_escape_def)

lemma parse_pairs_escape: "parse_pairs (split_amp (join_amp (map pair_escape ps))) = Some ps"
proof (induction ps rule: induct_list012)
  case (2 p)
  then show ?case using pair_escape_plain by (simp add: split_amp_plain parse_pair_escape)
next
  case (3 p q ps)
  then show ?case using pair_escape_plain [of p] by (simp add: split_amp_append parse_pair_escape)
qed simp

lemma ParseQuery_Encode: "ParseQuery (Values_Encode vs) = Some (sort_key fst vs)"
  by (simp add: ParseQuery_def Values_Encode_def parse_pairs_escape)

end
