(* ===== verification/Packages.thy ===== *)
theory Packages
  imports Crypto Go_Values
begin

text \<open>
  The outgoing message of messages.go: the body is encrypted once under a fresh session key, and
  a package for each recipient carries that key, encrypted to the recipient's key or, for a
  recipient without encryption, in the clear.  Maps of the code are association lists with
  distinct keys, in the order in which a range meets them.
\<close>

section \<open>Hexadecimal numbers\<close>

text \<open>\<open>strconv.FormatUint(n, 16)\<close>.\<close>

fun hex_nat :: "nat \<Rightarrow> string" where
  "hex_nat n = (if n < 16 then [lower_hex n] else hex_nat (n div 16) @ [lower_hex (n mod 16)])"

declare hex_nat.simps [simp del]

definition FormatUint16 :: "64 word \<Rightarrow> string" where
  "FormatUint16 w = hex_nat (unat w)"

section \<open>Data\<close>

definition MessagePackageInternal :: int where "MessagePackageInternal = 1"
definition MessagePackageEncryptedOutside :: int where "MessagePackageEncryptedOutside = 2"
definition MessagePackageCleartext :: int where "MessagePackageCleartext = 4"
definition MessagePackageInlinePGP :: int where "MessagePackageInlinePGP = 8"
definition MessagePackagePGPMIME :: int where "MessagePackagePGPMIME = 16"
definition MessagePackageMIME :: int where "MessagePackageMIME = 32"

record MessagePackage =
  mpType :: int
  mpBodyKeyPacket :: string
  mpAttachmentKeyPackets :: "(string \<times> string) list"
  mpSignature :: int

record PackedKey =
  Algorithm :: string
  PackedKey_Key :: string

record MessagePackageSet =
  mpsType :: int
  mpsAddresses :: "(string \<times> MessagePackage) list"
  mpsMIMEType :: string
  mpsBody :: string
  mpsBodyKey :: "PackedKey option"
  mpsAttachmentKeys :: "(string \<times> PackedKey) list option"
  bodyKey :: "EncryptedKey option"
  attachmentKeys :: "(string \<times> EncryptedKey) list"
  set_signature :: int

definition NewMessagePackageSet :: "(string \<times> EncryptedKey) list \<Rightarrow> MessagePackageSet" where
  "NewMessagePackageSet keys =
     \<lparr>mpsType = 0, mpsAddresses = [], mpsMIMEType = '''', mpsBody = '''', mpsBodyKey = None,
      mpsAttachmentKeys = None, bodyKey = None, attachmentKeys = keys, set_signature = 0\<rparr>"

text \<open>The state of the operations: the set, and what crypto/rand will deliver.\<close>

record pstate =
  pkgs :: MessagePackageSet
  rand :: bytes

type_synonym 'a pkg_prog = "(pstate, error, 'a) prog"

definition on_set :: "(MessagePackageSet \<Rightarrow> MessagePackageSet) \<Rightarrow> unit pkg_prog" where
  "on_set f = modifyP (\<lambda>s. s\<lparr>pkgs := f (pkgs s)\<rparr>)"

definition with_rand :: "(bytes, error, 'a) prog \<Rightarrow> 'a pkg_prog" where
  "with_rand m s = (case m (rand s) of None \<Rightarrow> None | Some (r, rd) \<Rightarrow> Some (r, s\<lparr>rand := rd\<rparr>))"

section \<open>Encrypting the body\<close>

definition body_signer ::
  "('q, 'p, 's) pgp \<Rightarrow> ('q, 'p, 's) pgp_entity option \<Rightarrow> int \<Rightarrow> (error, 'p option) outcome" where
  "body_signer lib signedBy now =
     (case signedBy of
        None \<Rightarrow> Ok None
      | Some e \<Rightarrow>
          bindO (signingKey lib e now) (\<lambda>found.
            case found of
              None \<Rightarrow> Err (Opaque ''no valid signing keys'')
            | Some signKey \<Rightarrow>
                (case kPrivateKey signKey of
                   None \<Rightarrow> Err (Opaque ''no private key in signing key'')
                 | Some signer \<Rightarrow>
                     (if privEncrypted lib signer then Err (Opaque ''signing key must be decrypted'')
                      else Ok (Some signer)))))"

definition set_Encrypt ::
  "('q, 'p, 's) pgp \<Rightarrow> string \<Rightarrow> ('q, 'p, 's) pgp_entity option \<Rightarrow> int \<Rightarrow> 'p sym_writer pkg_prog" where
  "set_Encrypt lib mimeType signedBy now =
     bindP (on_set (\<lambda>ps. ps\<lparr>mpsMIMEType := mimeType\<rparr>)) (\<lambda>_.
     bindP (with_rand (generateUnencryptedKey lib CipherAES256)) (\<lambda>key.
     bindP (on_set (\<lambda>ps. ps\<lparr>bodyKey := Some key\<rparr>)) (\<lambda>_.
     bindP (liftP (body_signer lib signedBy now)) (\<lambda>signer.
     bindP (if signedBy \<noteq> None then on_set (\<lambda>ps. ps\<lparr>set_signature := 1\<rparr>) else returnP ()) (\<lambda>_.
     liftP (case symetricallyEncrypt lib key signer None of Inl e \<Rightarrow> Err e | Inr w \<Rightarrow> Ok w))))))"

text \<open>
  \<open>outgoingMessageWriter\<close>: its \<open>Write\<close> is that of the encrypting writer, and \<open>Close\<close> stores
  the base64 text of the packet in the set.
\<close>

definition outgoing_Close :: "('q, 'p, 's) pgp \<Rightarrow> 'p sym_writer \<Rightarrow> unit pkg_prog" where
  "outgoing_Close lib w =
     (case sym_Close lib w of
        (Some e, w') \<Rightarrow> raiseP e
      | (None, w') \<Rightarrow> on_set (\<lambda>ps. ps\<lparr>mpsBody := b64_encode (Seal lib (swKey w') (swItems w'))\<rparr>))"

section \<open>Recipients\<close>

definition cipherFunctionString :: "int \<Rightarrow> (error, string) outcome" where
  "cipherFunctionString cipherFunc =
     (if cipherFunc = CipherAES128 then Ok ''aes128''
      else if cipherFunc = CipherAES192 then Ok ''aes192''
      else if cipherFunc = CipherAES256 then Ok ''aes256''
      else Panic ''protonmail: unsupported cipher function'')"

definition pack_key :: "EncryptedKey \<Rightarrow> (error, PackedKey) outcome" where
  "pack_key key =
     bindO (cipherFunctionString (ekCipherFunc key)) (\<lambda>a.
     Ok \<lparr>Algorithm = a, PackedKey_Key = b64_encode (ekKey key)\<rparr>)"

fun pack_attachments :: "(string \<times> EncryptedKey) list \<Rightarrow> unit pkg_prog" where
  "pack_attachments [] = returnP ()"
| "pack_attachments ((att, key) # keys) =
     bindP (liftP (pack_key key)) (\<lambda>packed.
     bindP (on_set (\<lambda>ps. ps\<lparr>mpsAttachmentKeys := map_option (AList.update att packed) (mpsAttachmentKeys ps)\<rparr>)) (\<lambda>_.
     pack_attachments keys))"

definition AddCleartext :: "string \<Rightarrow> MessagePackage pkg_prog" where
  "AddCleartext addr =
     bindP (getP (\<lambda>s. \<lparr>mpType = MessagePackageCleartext, mpBodyKeyPacket = '''', mpAttachmentKeyPackets = [],
                       mpSignature = set_signature (pkgs s)\<rparr>)) (\<lambda>pkg.
     bindP (on_set (\<lambda>ps. ps\<lparr>mpsAddresses := AList.update addr pkg (mpsAddresses ps)\<rparr>)) (\<lambda>_.
     bindP (on_set (\<lambda>ps. ps\<lparr>mpsType := Bit_Operations.or (mpsType ps) MessagePackageCleartext\<rparr>)) (\<lambda>_.
     bindP (getP pkgs) (\<lambda>ps.
     bindP (if mpsBodyKey ps = None \<or> mpsAttachmentKeys ps = None then
              bindP (liftP (case bodyKey ps of
                              None \<Rightarrow> Panic ''nil pointer dereference''
                            | Some key \<Rightarrow> pack_key key)) (\<lambda>packed.
              bindP (on_set (\<lambda>ps. ps\<lparr>mpsBodyKey := Some packed\<rparr>)) (\<lambda>_.
              bindP (on_set (\<lambda>ps. ps\<lparr>mpsAttachmentKeys := Some []\<rparr>)) (\<lambda>_.
              pack_attachments (attachmentKeys ps))))
            else returnP ()) (\<lambda>_.
     returnP pkg)))))"

definition serializeEncryptedKey :: "('q, 'p, 's) pgp \<Rightarrow> EncryptedKey option \<Rightarrow> 'q \<Rightarrow> string pkg_prog" where
  "serializeEncryptedKey lib symKey pub =
     (case symKey of
        None \<Rightarrow> panicP ''nil pointer dereference''
      | Some key \<Rightarrow>
          with_rand (\<lambda>rd.
            case SerializeEncryptedKey lib pub (ekCipherFunc key) (ekKey key) rd of
              (Inl e, rd') \<Rightarrow> Some (Err e, rd')
            | (Inr packet, rd') \<Rightarrow> Some (Ok (b64_encode packet), rd')))"

fun serialize_attachments ::
  "('q, 'p, 's) pgp \<Rightarrow> 'q \<Rightarrow> (string \<times> EncryptedKey) list \<Rightarrow> (string \<times> string) list \<Rightarrow> (string \<times> string) list pkg_prog" where
  "serialize_attachments lib pub [] acc = returnP acc"
| "serialize_attachments lib pub ((att, key) # keys) acc =
     bindP (serializeEncryptedKey lib (Some key) pub) (\<lambda>attKey.
     serialize_attachments lib pub keys (AList.update att attKey acc))"

definition AddInternal ::
  "('q, 'p, 's) pgp \<Rightarrow> string \<Rightarrow> ('q, 'p, 's) pgp_entity \<Rightarrow> int \<Rightarrow> MessagePackage pkg_prog" where
  "AddInternal lib addr pub now =
     bindP (liftP (encryptionKey lib pub now)) (\<lambda>found.
       case found of
         None \<Rightarrow> raiseP (Opaque (''cannot encrypt a message to key id '' @ FormatUint16 (pubKeyId lib (PrimaryKey pub))
                                 @ '' because it has no encryption keys''))
       | Some encKey \<Rightarrow>
           bindP (getP pkgs) (\<lambda>ps.
           bindP (serializeEncryptedKey lib (bodyKey ps) (kPublicKey encKey)) (\<lambda>bodyPacket.
           bindP (serialize_attachments lib (kPublicKey encKey) (attachmentKeys ps) []) (\<lambda>attPackets.
           bindP (on_set (\<lambda>ps. ps\<lparr>mpsType := Bit_Operations.or (mpsType ps) MessagePackageInternal\<rparr>)) (\<lambda>_.
           bindP (getP (\<lambda>s. \<lparr>mpType = MessagePackageInternal, mpBodyKeyPacket = bodyPacket,
                             mpAttachmentKeyPackets = attPackets, mpSignature = set_signature (pkgs s)\<rparr>)) (\<lambda>pkg.
           bindP (on_set (\<lambda>ps. ps\<lparr>mpsAddresses := AList.update addr pkg (mpsAddresses ps)\<rparr>)) (\<lambda>_.
           returnP pkg)))))))"

section \<open>What one operation does\<close>

lemma on_set_run [simp]: "on_set f s = Some (Ok (), s\<lparr>pkgs := f (pkgs s)\<rparr>)"
  by (simp add: on_set_def modifyP_def)

lemma bindP_on_set [simp]: "bindP (on_set f) g s = g () (s\<lparr>pkgs := f (pkgs s)\<rparr>)"
  by (simp add: bindP_def)

lemma bindP_getP [simp]: "bindP (getP f) g s = g (f s) s"
  by (simp add: bindP_def getP_def)

lemma bindP_liftP: "bindP (liftP r) g s = (case r of Ok a \<Rightarrow> g a s | Err e \<Rightarrow> Some (Err e, s) | Panic m \<Rightarrow> Some (Panic m, s))"
  by (simp add: bindP_def liftP_def split: outcome.split)

text \<open>The packed form of a list of keys.\<close>

definition packed_as :: "(string \<times> EncryptedKey) list \<Rightarrow> (string \<times> PackedKey) list \<Rightarrow> bool" where
  "packed_as keys m \<longleftrightarrow> distinct (map fst m) \<and>
     (\<forall>att. case map_of keys att of
              None \<Rightarrow> map_of m att = None
            | Some k \<Rightarrow> \<exists>pk. pack_key k = Ok pk \<and> map_of m att = Some pk)"

lemma pack_attachments_run:
  assumes "pack_attachments keys s = Some (Ok (), s')" and "mpsAttachmentKeys (pkgs s) = Some m" and "distinct (map fst keys)"
  shows "\<exists>m'. s' = s\<lparr>pkgs := (pkgs s)\<lparr>mpsAttachmentKeys := Some m'\<rparr>\<rparr> \<and>
     (distinct (map fst m) \<longrightarrow> distinct (map fst m')) \<and>
     (\<forall>att. case map_of keys att of
              None \<Rightarrow> map_of m' att = map_of m att
            | Some k \<Rightarrow> \<exists>pk. pack_key k = Ok pk \<and> map_of m' att = Some pk)"
  using assms
proof (induction keys arbitrary: s m)
  case Nil
  then show ?case by (intro exI [of _ m]) (simp add: returnP_def)
next
  case (Cons p keys)
  obtain att key where p: "p = (att, key)" by (cases p)
  let ?s1 = "\<lambda>pk. s\<lparr>pkgs := (pkgs s)\<lparr>mpsAttachmentKeys := Some (AList.update att pk m)\<rparr>\<rparr>"
  from Cons.prems p obtain pk where pk: "pack_key key = Ok pk" and run: "pack_attachments keys (?s1 pk) = Some (Ok (), s')"
    by (cases "pack_key key") (auto simp: bindP_liftP prog_defs(2,3))
  from Cons.IH [OF run] Cons.prems(3) p obtain m' where
    s': "s' = (?s1 pk)\<lparr>pkgs := (pkgs (?s1 pk))\<lparr>mpsAttachmentKeys := Some m'\<rparr>\<rparr>" and
    dist: "distinct (map fst (AList.update att pk m)) \<longrightarrow> distinct (map fst m')" and
    m': "\<forall>a. case map_of keys a of
              None \<Rightarrow> map_of m' a = map_of (AList.update att pk m) a
            | Some k \<Rightarrow> \<exists>pk. pack_key k = Ok pk \<and> map_of m' a = Some pk"
    by auto
  have new: "map_of keys att = None" using Cons.prems(3) p by (simp add: map_of_eq_None_iff)
  with m' have "map_of m' att = Some pk" by (auto simp: update_conv' dest: spec [of _ att])
  with s' m' pk p dist show ?case
    by (intro exI [of _ m']) (auto simp: update_conv' distinct_update split: option.splits if_splits)
qed

text \<open>A state after a cleartext recipient.\<close>

definition cleartext_package :: "int \<Rightarrow> MessagePackage" where
  "cleartext_package sig = \<lparr>mpType = MessagePackageCleartext, mpBodyKeyPacket = '''', mpAttachmentKeyPackets = [], mpSignature = sig\<rparr>"

lemma AddCleartext_Ok:
  assumes "AddCleartext addr s = Some (Ok p, s')" and "distinct (map fst (attachmentKeys (pkgs s)))"
  shows "\<exists>bk ak. p = cleartext_package (set_signature (pkgs s)) \<and>
     s' = s\<lparr>pkgs := (pkgs s)\<lparr>mpsAddresses := AList.update addr p (mpsAddresses (pkgs s)),
            mpsType := Bit_Operations.or (mpsType (pkgs s)) 4, mpsBodyKey := Some bk, mpsAttachmentKeys := Some ak\<rparr>\<rparr> \<and>
     (if mpsBodyKey (pkgs s) = None \<or> mpsAttachmentKeys (pkgs s) = None
      then (\<exists>k. bodyKey (pkgs s) = Some k \<and> pack_key k = Ok bk) \<and> packed_as (attachmentKeys (pkgs s)) ak
      else mpsBodyKey (pkgs s) = Some bk \<and> mpsAttachmentKeys (pkgs s) = Some ak)"
proof -
  let ?p = "cleartext_package (set_signature (pkgs s))"
  let ?s1 = "s\<lparr>pkgs := (pkgs s)\<lparr>mpsAddresses := AList.update addr ?p (mpsAddresses (pkgs s)),
            mpsType := Bit_Operations.or (mpsType (pkgs s)) 4\<rparr>\<rparr>"
  note run = assms(1) [unfolded AddCleartext_def bindP_getP bindP_on_set, folded cleartext_package_def]
  show ?thesis
  proof (cases "mpsBodyKey (pkgs s) = None \<or> mpsAttachmentKeys (pkgs s) = None")
    case False
    then obtain bk ak where "mpsBodyKey (pkgs s) = Some bk" "mpsAttachmentKeys (pkgs s) = Some ak" by auto
    with run show ?thesis
      by (intro exI [of _ bk] exI [of _ ak]) (auto simp: MessagePackageCleartext_def cleartext_package_def returnP_def)
  next
    case True
    from run True obtain k packed where k: "bodyKey (pkgs s) = Some k" "pack_key k = Ok packed"
      by (cases "bodyKey (pkgs s)"; cases "pack_key (the (bodyKey (pkgs s)))") (auto simp: bindP_liftP bindP_assoc prog_defs)
    let ?s2 = "?s1\<lparr>pkgs := (pkgs ?s1)\<lparr>mpsBodyKey := Some packed, mpsAttachmentKeys := Some []\<rparr>\<rparr>"
    from run True k have att: "pack_attachments (attachmentKeys (pkgs s)) ?s2 = Some (Ok (), s')" and p: "p = ?p"
      by (auto simp: bindP_liftP bindP_assoc MessagePackageCleartext_def cleartext_package_def bindP_Some_Ok returnP_def)
    have "\<exists>m'. s' = ?s2\<lparr>pkgs := (pkgs ?s2)\<lparr>mpsAttachmentKeys := Some m'\<rparr>\<rparr> \<and> packed_as (attachmentKeys (pkgs s)) m'"
      using pack_attachments_run [OF att, of "[]"] assms(2) by (simp add: packed_as_def cong: option.case_cong)
    then obtain m' where "s' = ?s2\<lparr>pkgs := (pkgs ?s2)\<lparr>mpsAttachmentKeys := Some m'\<rparr>\<rparr>"
      "packed_as (attachmentKeys (pkgs s)) m'" by blast
    with k p True show ?thesis by (intro exI [of _ packed] exI [of _ m']) simp
  qed
qed

section \<open>A recipient with a key\<close>

text \<open>A base64 text that carries a session key encrypted to a public key.\<close>

definition serialized :: "('q, 'p, 's) pgp \<Rightarrow> 'q \<Rightarrow> EncryptedKey \<Rightarrow> string \<Rightarrow> bool" where
  "serialized lib q key text \<longleftrightarrow>
     (\<exists>rd packet rd'. SerializeEncryptedKey lib q (ekCipherFunc key) (ekKey key) rd = (Inr packet, rd') \<and>
        text = b64_encode packet)"

definition serialized_as :: "('q, 'p, 's) pgp \<Rightarrow> 'q \<Rightarrow> (string \<times> EncryptedKey) list \<Rightarrow> (string \<times> string) list \<Rightarrow> bool" where
  "serialized_as lib q keys m \<longleftrightarrow> distinct (map fst m) \<and>
     (\<forall>att. case map_of keys att of
              None \<Rightarrow> map_of m att = None
            | Some k \<Rightarrow> \<exists>text. serialized lib q k text \<and> map_of m att = Some text)"

lemma serializeEncryptedKey_run:
  assumes "serializeEncryptedKey lib k q s = Some (r, s')"
  shows "pkgs s' = pkgs s \<and> (\<forall>text. r = Ok text \<longrightarrow> (\<exists>key. k = Some key \<and> serialized lib q key text)) \<and>
    (\<forall>msg. r = Panic msg \<longrightarrow> k = None)"
  using assms
  by (auto simp: serializeEncryptedKey_def with_rand_def panicP_def serialized_def
      split: option.splits prod.splits sum.splits)

lemma serialize_attachments_run:
  assumes "serialize_attachments lib q keys acc s = Some (r, s')" and "distinct (map fst keys)"
  shows "pkgs s' = pkgs s \<and> (\<forall>msg. r \<noteq> Panic msg) \<and>
     (\<forall>m. r = Ok m \<longrightarrow> distinct (map fst acc) \<longrightarrow> distinct (map fst m)) \<and> (\<forall>m. r = Ok m \<longrightarrow>
     (\<forall>att. case map_of keys att of
              None \<Rightarrow> map_of m att = map_of acc att
            | Some k \<Rightarrow> \<exists>text. serialized lib q k text \<and> map_of m att = Some text))"
  using assms
proof (induction keys arbitrary: s acc)
  case Nil
  then show ?case by (auto simp: returnP_def)
next
  case (Cons p keys)
  obtain att key where p: "p = (att, key)" by (cases p)
  obtain r1 s1 where one: "serializeEncryptedKey lib (Some key) q s = Some (r1, s1)"
    using Cons.prems(1) p by (auto simp: bindP_def split: option.splits)
  note sp = serializeEncryptedKey_run [OF one]
  show ?case
  proof (cases r1)
    case (Ok tx)
    with Cons.prems p one have run: "serialize_attachments lib q keys (AList.update att tx acc) s1 = Some (r, s')"
      by (simp add: bindP_def)
    have new: "map_of keys att = None" using Cons.prems(2) p by (simp add: map_of_eq_None_iff)
    have rest: "pkgs s' = pkgs s1 \<and> (\<forall>msg. r \<noteq> Panic msg) \<and>
     (\<forall>m. r = Ok m \<longrightarrow> distinct (map fst (AList.update att tx acc)) \<longrightarrow> distinct (map fst m)) \<and> (\<forall>m. r = Ok m \<longrightarrow>
     (\<forall>a. case map_of keys a of
              None \<Rightarrow> map_of m a = map_of (AList.update att tx acc) a
            | Some k \<Rightarrow> \<exists>t. serialized lib q k t \<and> map_of m a = Some t))"
      using Cons.IH [OF run] Cons.prems(2) p by simp
    have this_key: "map_of m att = Some tx" if "r = Ok m" for m
      using rest that new by (auto simp: update_conv' dest: spec [of _ att])
    show ?thesis
    proof (intro conjI allI impI)
      fix m a
      assume r: "r = Ok m"
      with rest have "case map_of keys a of
              None \<Rightarrow> map_of m a = map_of (AList.update att tx acc) a
            | Some k \<Rightarrow> \<exists>t. serialized lib q k t \<and> map_of m a = Some t" by blast
      then show "case map_of (p # keys) a of
              None \<Rightarrow> map_of m a = map_of acc a
            | Some k \<Rightarrow> \<exists>t. serialized lib q k t \<and> map_of m a = Some t"
        using p this_key [OF r] sp Ok by (auto simp: update_conv' split: option.splits if_splits)
    qed (use rest sp distinct_update [of acc att tx] in auto)
  qed (use Cons.prems p one sp in \<open>auto simp: bindP_def\<close>)
qed

definition internal_package :: "('q, 'p, 's) pgp \<Rightarrow> 'q \<Rightarrow> MessagePackageSet \<Rightarrow> MessagePackage \<Rightarrow> bool" where
  "internal_package lib q ps p \<longleftrightarrow> mpType p = MessagePackageInternal \<and> mpSignature p = set_signature ps \<and>
     (\<exists>key. bodyKey ps = Some key \<and> serialized lib q key (mpBodyKeyPacket p)) \<and>
     serialized_as lib q (attachmentKeys ps) (mpAttachmentKeyPackets p)"

lemma AddInternal_run:
  assumes "AddInternal lib addr pub now s = Some (r, s')" and "distinct (map fst (attachmentKeys (pkgs s)))"
  shows "(case r of
     Ok p \<Rightarrow> (\<exists>k. encryptionKey lib pub now = Ok (Some k) \<and> internal_package lib (kPublicKey k) (pkgs s) p) \<and>
       pkgs s' = (pkgs s)\<lparr>mpsAddresses := AList.update addr p (mpsAddresses (pkgs s)),
                          mpsType := Bit_Operations.or (mpsType (pkgs s)) 1\<rparr>
   | Err e \<Rightarrow> pkgs s' = pkgs s
   | Panic msg \<Rightarrow> pkgs s' = pkgs s)"
proof (cases "encryptionKey lib pub now")
  case (Ok found)
  show ?thesis
  proof (cases found)
    case None
    with Ok assms(1) show ?thesis by (auto simp: AddInternal_def bindP_liftP raiseP_def)
  next
    case (Some k)
    let ?q = "kPublicKey k"
    obtain r1 s1 where body: "serializeEncryptedKey lib (bodyKey (pkgs s)) ?q s = Some (r1, s1)"
      using assms(1) Ok Some by (auto simp: AddInternal_def bindP_liftP bindP_def [of "serializeEncryptedKey _ _ _"] split: option.splits)
    note run = assms(1) [unfolded AddInternal_def bindP_liftP Ok Some outcome.case option.case bindP_getP,
        unfolded bindP_def [of "serializeEncryptedKey _ _ _"] body option.case prod.case]
    note b = serializeEncryptedKey_run [OF body]
    show ?thesis
    proof (cases r1)
      case ok1: (Ok bodyPacket)
      obtain r2 s2 where att: "serialize_attachments lib ?q (attachmentKeys (pkgs s)) [] s1 = Some (r2, s2)"
        using run ok1 by (auto simp: bindP_def [of "serialize_attachments _ _ _ _"] split: option.splits)
      note a = serialize_attachments_run [OF att assms(2)]
      have as: "r2 = Ok m \<Longrightarrow> serialized_as lib ?q (attachmentKeys (pkgs s)) m" for m
        using a by (simp add: serialized_as_def del: map_of_eq_Some_iff cong: option.case_cong)
      show ?thesis
      proof (cases r2)
        case (Ok m)
        with run ok1 att have "r = Ok \<lparr>mpType = 1, mpBodyKeyPacket = bodyPacket, mpAttachmentKeyPackets = m,
              mpSignature = set_signature (pkgs s2)\<rparr>"
            "pkgs s' = (pkgs s2)\<lparr>mpsType := Bit_Operations.or (mpsType (pkgs s2)) 1,
               mpsAddresses := AList.update addr \<lparr>mpType = 1, mpBodyKeyPacket = bodyPacket,
                 mpAttachmentKeyPackets = m, mpSignature = set_signature (pkgs s2)\<rparr> (mpsAddresses (pkgs s2))\<rparr>"
          by (auto simp: bindP_def [of "serialize_attachments _ _ _ _"] returnP_def MessagePackageInternal_def)
        with a b as [OF Ok] ok1 \<open>encryptionKey lib pub now = Ok found\<close> Some show ?thesis
          by (auto simp: internal_package_def MessagePackageInternal_def)
      qed (use run ok1 att a b in \<open>auto simp: bindP_def [of "serialize_attachments _ _ _ _"]\<close>)
    qed (use run b in auto)
  qed
qed (use assms(1) in \<open>auto simp: AddInternal_def bindP_liftP prog_defs(2,3)\<close>)

section \<open>Encrypt\<close>

lemma body_signer_Ok:
  assumes "body_signer lib (Some e) now = Ok signer"
  shows "\<exists>k p. signingKey lib e now = Ok (Some k) \<and> kPrivateKey k = Some p \<and> \<not> privEncrypted lib p \<and> signer = Some p"
proof -
  from assms obtain k where k: "signingKey lib e now = Ok (Some k)"
    by (auto simp: body_signer_def bindO_eq_Ok split: option.splits)
  with assms obtain p where "kPrivateKey k = Some p"
    by (cases "kPrivateKey k") (simp_all add: body_signer_def)
  with assms k show ?thesis by (simp add: body_signer_def split: if_splits)
qed

lemma set_Encrypt_Ok:
  assumes "set_Encrypt lib mime signedBy now s = Some (Ok w, s')"
  shows "\<exists>signer h. swItems w = (case signer of None \<Rightarrow> [] | Some p \<Rightarrow> [ItemOnePass (one_pass_of lib p)]) @ [ItemLiteral h] \<and>
     swSigner w = signer \<and>
     (signedBy = None \<longleftrightarrow> signer = None) \<and>
     (\<forall>e. signedBy = Some e \<longrightarrow> (\<exists>k. signingKey lib e now = Ok (Some k) \<and> kPrivateKey k = signer \<and>
        \<not> privEncrypted lib (the signer))) \<and>
     swHashed w = '''' \<and> ekCipherFunc (swKey w) = CipherAES256 \<and>
     pkgs s' = (pkgs s)\<lparr>mpsMIMEType := mime, bodyKey := Some (swKey w),
        set_signature := (if signedBy = None then set_signature (pkgs s) else 1)\<rparr>"
proof -
  obtain key s1 where key: "with_rand (generateUnencryptedKey lib CipherAES256) (s\<lparr>pkgs := (pkgs s)\<lparr>mpsMIMEType := mime\<rparr>\<rparr>) = Some (Ok key, s1)"
    using assms by (auto simp: set_Encrypt_def bindP_Some_Ok)
  then have s1: "pkgs s1 = (pkgs s)\<lparr>mpsMIMEType := mime\<rparr>" and aes: "ekCipherFunc key = CipherAES256"
    by (auto simp: with_rand_def generateUnencryptedKey_def Let_def split: if_splits)
  from assms key obtain signer where signer: "body_signer lib signedBy now = Ok signer"
    by (cases "body_signer lib signedBy now") (auto simp: set_Encrypt_def bindP_Some_Ok prog_defs(2,3))
  with assms key s1 have w: "symetricallyEncrypt lib key signer None = Inr w"
    and s': "pkgs s' = (pkgs s)\<lparr>mpsMIMEType := mime, bodyKey := Some key,
        set_signature := (if signedBy = None then set_signature (pkgs s) else 1)\<rparr>"
    by (auto simp: set_Encrypt_def bindP_Some_Ok liftP_def returnP_def split: sum.splits if_splits)
  from symetricallyEncrypt_start [OF w] obtain h where "swKey w = key" "swSigner w = signer" "swHashed w = ''''"
    "swItems w = (case signer of None \<Rightarrow> [] | Some p \<Rightarrow> [ItemOnePass (one_pass_of lib p)]) @ [ItemLiteral h]" by blast
  moreover from signer have "(signedBy = None \<longleftrightarrow> signer = None) \<and>
     (\<forall>e. signedBy = Some e \<longrightarrow> (\<exists>k. signingKey lib e now = Ok (Some k) \<and> kPrivateKey k = signer \<and> \<not> privEncrypted lib (the signer)))"
    using body_signer_Ok by (cases signedBy) (fastforce simp: body_signer_def [of _ None])+
  ultimately show ?thesis using aes s' by (intro exI [of _ signer] exI [of _ h]) auto
qed

section \<open>A message in the making\<close>

text \<open>
  The life of a set after \<open>Encrypt\<close> returned a writer under the session key \<open>key\<close>: the
  writer, or what became of it after some writes, may be closed, and recipients are added, in
  any order and any number; an operation that fails leaves the caller free to go on.  The list
  has the recipients that were added, the last first: the public key that the session key was
  encrypted to, or \<open>None\<close> for a cleartext one.
\<close>

inductive pkg_run ::
  "('q, 'p, 's) pgp \<Rightarrow> EncryptedKey \<Rightarrow> pstate \<Rightarrow> (string \<times> 'q option) list \<Rightarrow> pstate \<Rightarrow> bool"
  for lib key s0 where
    start: "pkg_run lib key s0 [] s0"
  | body: "pkg_run lib key s0 adds s \<Longrightarrow> swKey w = key \<Longrightarrow> outgoing_Close lib w s = Some (r, s') \<Longrightarrow>
             pkg_run lib key s0 adds s'"
  | cleartext: "pkg_run lib key s0 adds s \<Longrightarrow> AddCleartext addr s = Some (Ok p, s') \<Longrightarrow>
             pkg_run lib key s0 ((addr, None) # adds) s'"
  | internal: "pkg_run lib key s0 adds s \<Longrightarrow> AddInternal lib addr pub now s = Some (Ok p, s') \<Longrightarrow>
             encryptionKey lib pub now = Ok (Some k) \<Longrightarrow> pkg_run lib key s0 ((addr, Some (kPublicKey k)) # adds) s'"
  | refused: "pkg_run lib key s0 adds s \<Longrightarrow> AddInternal lib addr pub now s = Some (Err e, s') \<Longrightarrow>
             pkg_run lib key s0 adds s'"

definition or_types :: "(string \<times> 'q option) list \<Rightarrow> int" where
  "or_types adds = foldr (\<lambda>a t. Bit_Operations.or t (case snd a of None \<Rightarrow> MessagePackageCleartext | Some q \<Rightarrow> MessagePackageInternal)) adds 0"

definition package_for :: "('q, 'p, 's) pgp \<Rightarrow> MessagePackageSet \<Rightarrow> 'q option \<Rightarrow> MessagePackage \<Rightarrow> bool" where
  "package_for lib ps recipient p \<longleftrightarrow>
     (case recipient of None \<Rightarrow> p = cleartext_package (set_signature ps) | Some q \<Rightarrow> internal_package lib q ps p)"

text \<open>The keys in the clear, when there is a cleartext recipient, and none otherwise.\<close>

definition clear_keys ::
  "EncryptedKey \<Rightarrow> (string \<times> EncryptedKey) list \<Rightarrow> (string \<times> 'q option) list \<Rightarrow> PackedKey option \<Rightarrow> (string \<times> PackedKey) list option \<Rightarrow> bool" where
  "clear_keys key keys adds bk ak \<longleftrightarrow>
     (if None \<in> snd ` set adds
      then (\<exists>b a. bk = Some b \<and> pack_key key = Ok b \<and> ak = Some a \<and> packed_as keys a)
      else bk = None \<and> ak = None)"

definition pkg_inv :: "('q, 'p, 's) pgp \<Rightarrow> EncryptedKey \<Rightarrow> (string \<times> EncryptedKey) list \<Rightarrow> int \<Rightarrow> (string \<times> 'q option) list \<Rightarrow> MessagePackageSet \<Rightarrow> bool" where
  "pkg_inv lib key keys sig adds ps \<longleftrightarrow>
     bodyKey ps = Some key \<and> attachmentKeys ps = keys \<and> set_signature ps = sig \<and>
     mpsType ps = or_types adds \<and> distinct (map fst (mpsAddresses ps)) \<and>
     (\<forall>addr. case map_of adds addr of
        None \<Rightarrow> map_of (mpsAddresses ps) addr = None
      | Some recipient \<Rightarrow> \<exists>p. map_of (mpsAddresses ps) addr = Some p \<and> package_for lib ps recipient p) \<and>
     clear_keys key keys adds (mpsBodyKey ps) (mpsAttachmentKeys ps) \<and>
     (mpsBody ps = '''' \<or> (\<exists>items. mpsBody ps = b64_encode (Seal lib key items)))"

lemma package_for_cong:
  "bodyKey ps' = bodyKey ps \<Longrightarrow> attachmentKeys ps' = attachmentKeys ps \<Longrightarrow> set_signature ps' = set_signature ps \<Longrightarrow>
     package_for lib ps' = package_for lib ps"
  by (simp add: package_for_def internal_package_def fun_eq_iff split: option.split)

lemma pkg_inv_add:
  assumes inv: "pkg_inv lib key keys sig adds ps" and p: "package_for lib ps recipient p"
    and ps': "ps' = ps\<lparr>mpsAddresses := AList.update addr p (mpsAddresses ps), mpsType := t, mpsBodyKey := bk, mpsAttachmentKeys := ak\<rparr>"
    and t: "t = or_types ((addr, recipient) # adds)"
    and keys: "clear_keys key keys ((addr, recipient) # adds) bk ak"
  shows "pkg_inv lib key keys sig ((addr, recipient) # adds) ps'"
proof -
  have "package_for lib ps' = package_for lib ps" by (rule package_for_cong) (simp_all add: ps')
  with inv p have "case map_of ((addr, recipient) # adds) a of
      None \<Rightarrow> map_of (mpsAddresses ps') a = None
    | Some recipient \<Rightarrow> \<exists>p. map_of (mpsAddresses ps') a = Some p \<and> package_for lib ps' recipient p" for a
    by (auto simp: ps' update_conv' pkg_inv_def simp del: map_of_eq_Some_iff split: option.splits dest: spec [of _ a])
  with inv keys show ?thesis unfolding pkg_inv_def by (simp add: ps' t distinct_update)
qed

lemma sym_Close_key: "sym_Close lib w = (r, w') \<Longrightarrow> swKey w' = swKey w"
  by (auto simp: sym_Close_def then_write_result split: option.splits sum.splits dest!: sink_write_result)

lemma pkg_run_inv:
  assumes "pkg_run lib key s0 adds s" and "pkg_inv lib key keys sig [] (pkgs s0)" and "distinct (map fst keys)"
  shows "pkg_inv lib key keys sig adds (pkgs s)"
  using assms(1)
proof induction
  case start
  show ?case by (rule assms(2))
next
  case (body adds s w r s')
  obtain x w' where close: "sym_Close lib w = (x, w')" by (cases "sym_Close lib w")
  show ?case
  proof (cases x)
    case None
    with body.hyps(2,3) close sym_Close_key [OF close]
    have ps': "pkgs s' = (pkgs s)\<lparr>mpsBody := b64_encode (Seal lib key (swItems w'))\<rparr>"
      by (auto simp: outgoing_Close_def)
    then have "package_for lib (pkgs s') = package_for lib (pkgs s)" by (intro package_for_cong) simp_all
    with body.IH ps' show ?thesis by (auto simp: pkg_inv_def cong: option.case_cong)
  qed (use body close in \<open>auto simp: outgoing_Close_def raiseP_def\<close>)
next
  case (cleartext adds s addr p s')
  then have dist: "distinct (map fst (attachmentKeys (pkgs s)))" using assms(3) by (simp add: pkg_inv_def)
  from AddCleartext_Ok [OF cleartext.hyps(2) dist] obtain bk ak where
    p: "p = cleartext_package (set_signature (pkgs s))" and
    s': "pkgs s' = (pkgs s)\<lparr>mpsAddresses := AList.update addr p (mpsAddresses (pkgs s)),
            mpsType := Bit_Operations.or (mpsType (pkgs s)) 4, mpsBodyKey := Some bk, mpsAttachmentKeys := Some ak\<rparr>" and
    ks: "if mpsBodyKey (pkgs s) = None \<or> mpsAttachmentKeys (pkgs s) = None
      then (\<exists>k. bodyKey (pkgs s) = Some k \<and> pack_key k = Ok bk) \<and> packed_as (attachmentKeys (pkgs s)) ak
      else mpsBodyKey (pkgs s) = Some bk \<and> mpsAttachmentKeys (pkgs s) = Some ak"
    by auto
  show ?case
  proof (rule pkg_inv_add [OF cleartext.IH _ s'])
    show "package_for lib (pkgs s) None p" by (simp add: package_for_def p)
    show "Bit_Operations.or (mpsType (pkgs s)) 4 = or_types ((addr, None) # adds)"
      using cleartext.IH by (simp add: pkg_inv_def or_types_def MessagePackageCleartext_def)
    show "clear_keys key keys ((addr, None) # adds) (Some bk) (Some ak)"
      using ks cleartext.IH by (auto simp: pkg_inv_def clear_keys_def split: if_splits)
  qed
next
  case (internal adds s addr pub now p s' k)
  then have dist: "distinct (map fst (attachmentKeys (pkgs s)))" using assms(3) by (simp add: pkg_inv_def)
  from AddInternal_run [OF internal.hyps(2) dist] internal.hyps(3) have
    p: "internal_package lib (kPublicKey k) (pkgs s) p" and
    s': "pkgs s' = (pkgs s)\<lparr>mpsAddresses := AList.update addr p (mpsAddresses (pkgs s)),
            mpsType := Bit_Operations.or (mpsType (pkgs s)) 1, mpsBodyKey := mpsBodyKey (pkgs s),
            mpsAttachmentKeys := mpsAttachmentKeys (pkgs s)\<rparr>"
    by auto
  show ?case
  proof (rule pkg_inv_add [OF internal.IH _ s'])
    show "package_for lib (pkgs s) (Some (kPublicKey k)) p" by (simp add: package_for_def p)
    show "Bit_Operations.or (mpsType (pkgs s)) 1 = or_types ((addr, Some (kPublicKey k)) # adds)"
      using internal.IH by (simp add: pkg_inv_def or_types_def MessagePackageInternal_def)
    show "clear_keys key keys ((addr, Some (kPublicKey k)) # adds) (mpsBodyKey (pkgs s)) (mpsAttachmentKeys (pkgs s))"
      using internal.IH by (auto simp: pkg_inv_def clear_keys_def split: if_splits)
  qed
next
  case (refused adds s addr pub now e s')
  then have dist: "distinct (map fst (attachmentKeys (pkgs s)))" using assms(3) by (simp add: pkg_inv_def)
  from AddInternal_run [OF refused.hyps(2) dist] refused show ?case by simp
qed

lemma or_types_value:
  "or_types adds = (if None \<in> snd ` set adds then 4 else 0) + (if \<exists>q. Some q \<in> snd ` set adds then 1 else 0)"
proof (induction adds)
  case (Cons a adds)
  have "or_types (a # adds) = Bit_Operations.or (or_types adds) (case snd a of None \<Rightarrow> 4 | Some q \<Rightarrow> 1)"
    by (simp add: or_types_def MessagePackageCleartext_def MessagePackageInternal_def split: option.split)
  then show ?case unfolding Cons by (cases "snd a") auto
qed (simp add: or_types_def)

lemma pkg_inv_start:
  assumes "set_Encrypt lib mime signedBy now \<lparr>pkgs = NewMessagePackageSet keys, rand = rd\<rparr> = Some (Ok w, s0)"
  shows "pkg_inv lib (swKey w) keys (if signedBy = None then 0 else 1) [] (pkgs s0)"
  using set_Encrypt_Ok [OF assms]
  by (auto simp: pkg_inv_def NewMessagePackageSet_def or_types_def clear_keys_def)

section \<open>On the wire\<close>

definition jmap :: "('a \<Rightarrow> json) \<Rightarrow> (string \<times> 'a) list \<Rightarrow> json" where
  "jmap f m = JObj (map (\<lambda>(k, v). (k, f v)) (sort_key fst m))"

definition MessagePackage_json :: "MessagePackage \<Rightarrow> json" where
  "MessagePackage_json p = JObj
     ([(''Type'', JInt (mpType p))] @ omit_empty ''BodyKeyPacket'' (mpBodyKeyPacket p) @
      (if mpAttachmentKeyPackets p = [] then [] else [(''AttachmentKeyPackets'', jmap JStr (mpAttachmentKeyPackets p))]) @
      [(''Signature'', JInt (mpSignature p))])"

definition PackedKey_json :: "PackedKey \<Rightarrow> json" where
  "PackedKey_json k = JObj [(''Algorithm'', JStr (Algorithm k)), (''Key'', JStr (PackedKey_Key k))]"

definition MessagePackageSet_members :: "MessagePackageSet \<Rightarrow> (string \<times> json) list" where
  "MessagePackageSet_members ps =
     [(''Type'', JInt (mpsType ps)), (''Addresses'', jmap MessagePackage_json (mpsAddresses ps)),
      (''MIMEType'', JStr (mpsMIMEType ps)), (''Body'', JStr (mpsBody ps))] @
     (case mpsBodyKey ps of None \<Rightarrow> [] | Some k \<Rightarrow> [(''BodyKey'', PackedKey_json k)]) @
     (case mpsAttachmentKeys ps of None \<Rightarrow> [] | Some ks \<Rightarrow>
        if ks = [] then [] else [(''AttachmentKeys'', jmap PackedKey_json ks)])"

definition MessagePackageSet_json :: "MessagePackageSet \<Rightarrow> json" where
  "MessagePackageSet_json ps = JObj (MessagePackageSet_members ps)"

section \<open>Properties\<close>

text \<open>
  C5.  After one \<open>Encrypt\<close> on a new set, every recipient that was added, in whatever order,
  among failures, and after repeated additions of the same address, has exactly one package,
  that of its last addition: an internal one carries the session key of this body, and the key
  of each attachment, encrypted to the chosen key of that recipient; a cleartext one carries no
  key.  Nobody else has a package.  The body is sealed under that same session key, and the type
  of the set is the union of the types of all additions.
\<close>

theorem packages_open_body:
  assumes "set_Encrypt lib mime signedBy now \<lparr>pkgs = NewMessagePackageSet keys, rand = rd\<rparr> = Some (Ok w, s0)"
    and "pkg_run lib (swKey w) s0 adds s" and "distinct (map fst keys)"
  shows "(\<forall>addr. case map_of adds addr of
       None \<Rightarrow> map_of (mpsAddresses (pkgs s)) addr = None
     | Some None \<Rightarrow> map_of (mpsAddresses (pkgs s)) addr = Some (cleartext_package (set_signature (pkgs s)))
     | Some (Some q) \<Rightarrow> \<exists>p. map_of (mpsAddresses (pkgs s)) addr = Some p \<and> mpType p = MessagePackageInternal \<and>
         serialized lib q (swKey w) (mpBodyKeyPacket p) \<and> serialized_as lib q keys (mpAttachmentKeyPackets p)) \<and>
     (mpsBody (pkgs s) = '''' \<or> (\<exists>items. mpsBody (pkgs s) = b64_encode (Seal lib (swKey w) items))) \<and>
     mpsType (pkgs s) = or_types adds"
proof -
  note inv = pkg_run_inv [OF assms(2) pkg_inv_start [OF assms(1)] assms(3), unfolded pkg_inv_def]
  show ?thesis
  proof (intro conjI allI)
    fix addr
    from inv have at: "case map_of adds addr of
        None \<Rightarrow> map_of (mpsAddresses (pkgs s)) addr = None
      | Some recipient \<Rightarrow> \<exists>p. map_of (mpsAddresses (pkgs s)) addr = Some p \<and> package_for lib (pkgs s) recipient p" by blast
    have "bodyKey (pkgs s) = Some (swKey w)" "attachmentKeys (pkgs s) = keys" using inv by blast+
    with at show "case map_of adds addr of
       None \<Rightarrow> map_of (mpsAddresses (pkgs s)) addr = None
     | Some None \<Rightarrow> map_of (mpsAddresses (pkgs s)) addr = Some (cleartext_package (set_signature (pkgs s)))
     | Some (Some q) \<Rightarrow> \<exists>p. map_of (mpsAddresses (pkgs s)) addr = Some p \<and> mpType p = MessagePackageInternal \<and>
         serialized lib q (swKey w) (mpBodyKeyPacket p) \<and> serialized_as lib q keys (mpAttachmentKeyPackets p)"
      by (auto simp: package_for_def internal_package_def split: option.splits)
  qed (use inv in blast)+
qed

text \<open>
  C6.  The session keys are put into the set, and so on the wire, in the clear exactly when a
  cleartext recipient was added (and then they stay, even if that address was added again as
  an internal one); the type of the set is the union of the types of all additions.
\<close>

theorem keys_in_clear_iff_cleartext:
  assumes "set_Encrypt lib mime signedBy now \<lparr>pkgs = NewMessagePackageSet keys, rand = rd\<rparr> = Some (Ok w, s0)"
    and "pkg_run lib (swKey w) s0 adds s" and "distinct (map fst keys)"
  shows "(if None \<in> snd ` set adds
      then (\<exists>ak. mpsBodyKey (pkgs s) = Some \<lparr>Algorithm = ''aes256'', PackedKey_Key = b64_encode (ekKey (swKey w))\<rparr> \<and>
              mpsAttachmentKeys (pkgs s) = Some ak \<and> packed_as keys ak)
      else mpsBodyKey (pkgs s) = None \<and> mpsAttachmentKeys (pkgs s) = None) \<and>
     (''BodyKey'' \<in> fst ` set (MessagePackageSet_members (pkgs s)) \<longleftrightarrow> None \<in> snd ` set adds) \<and>
     mpsType (pkgs s) = (if None \<in> snd ` set adds then 4 else 0) + (if \<exists>q. Some q \<in> snd ` set adds then 1 else 0)"
proof -
  note inv = pkg_run_inv [OF assms(2) pkg_inv_start [OF assms(1)] assms(3), unfolded pkg_inv_def]
  have "ekCipherFunc (swKey w) = CipherAES256" using set_Encrypt_Ok [OF assms(1)] by blast
  then have "pack_key (swKey w) = Ok \<lparr>Algorithm = ''aes256'', PackedKey_Key = b64_encode (ekKey (swKey w))\<rparr>"
    by (simp add: pack_key_def cipherFunctionString_def CipherAES128_def CipherAES192_def CipherAES256_def)
  with inv have "if None \<in> snd ` set adds
      then (\<exists>ak. mpsBodyKey (pkgs s) = Some \<lparr>Algorithm = ''aes256'', PackedKey_Key = b64_encode (ekKey (swKey w))\<rparr> \<and>
              mpsAttachmentKeys (pkgs s) = Some ak \<and> packed_as keys ak)
      else mpsBodyKey (pkgs s) = None \<and> mpsAttachmentKeys (pkgs s) = None"
    by (auto simp: clear_keys_def)
  moreover from this have "''BodyKey'' \<in> fst ` set (MessagePackageSet_members (pkgs s)) \<longleftrightarrow> None \<in> snd ` set adds"
    by (auto simp: MessagePackageSet_members_def split: option.splits if_splits)
  ultimately show ?thesis using inv by (simp add: or_types_value)
qed

text \<open>
  C35.  A set is for one body: \<open>Encrypt\<close> called again replaces the session key and nothing
  else of what was derived from it, so packages and keys in the clear are those of the old
  key, also after further cleartext recipients, and an unsigned second body is still marked as
  signed.
\<close>

theorem second_Encrypt_keeps_old_keys:
  assumes "set_Encrypt lib mime signedBy now s = Some (Ok w, s')"
    and "mpsBodyKey (pkgs s) = Some bk" and "mpsAttachmentKeys (pkgs s) = Some ak"
    and "distinct (map fst (attachmentKeys (pkgs s)))"
  shows "bodyKey (pkgs s') = Some (swKey w) \<and> mpsAddresses (pkgs s') = mpsAddresses (pkgs s) \<and>
     mpsBodyKey (pkgs s') = Some bk \<and> set_signature (pkgs s') = (if signedBy = None then set_signature (pkgs s) else 1) \<and>
     (\<forall>addr p s''. AddCleartext addr s' = Some (Ok p, s'') \<longrightarrow> mpsBodyKey (pkgs s'') = Some bk)"
proof -
  from set_Encrypt_Ok [OF assms(1)] have s': "pkgs s' = (pkgs s)\<lparr>mpsMIMEType := mime, bodyKey := Some (swKey w),
        set_signature := (if signedBy = None then set_signature (pkgs s) else 1)\<rparr>" by blast
  have "mpsBodyKey (pkgs s'') = Some bk" if "AddCleartext addr s' = Some (Ok p, s'')" for addr p s''
    using AddCleartext_Ok [OF that] assms(2-4) s' by auto
  with s' assms(2) show ?thesis by simp
qed

text \<open>
  Adding a recipient before \<open>Encrypt\<close> panics: an internal one as soon as the recipient
  has a key, with the set unchanged, a cleartext one after its package was entered.
\<close>

theorem recipient_before_Encrypt_panics:
  assumes "bodyKey (pkgs s) = None" and "mpsBodyKey (pkgs s) = None"
  shows "(\<exists>s'. AddCleartext addr s = Some (Panic ''nil pointer dereference'', s') \<and>
       map_of (mpsAddresses (pkgs s')) addr \<noteq> None) \<and>
     (encryptionKey lib pub now = Ok (Some k) \<longrightarrow>
       AddInternal lib addr pub now s = Some (Panic ''nil pointer dereference'', s))"
  using assms
  by (simp add: AddCleartext_def AddInternal_def bindP_liftP serializeEncryptedKey_def bindP_assoc update_conv' panicP_def)

fun sym_writes :: "('q, 'p, 's) pgp \<Rightarrow> string list \<Rightarrow> 'p sym_writer \<Rightarrow> 'p writing" where
  "sym_writes lib [] w = (None, w)"
| "sym_writes lib (d # ds) w = then_write (sym_Write lib d w) (sym_writes lib ds)"

lemma sym_run_writes: "sym_writes lib ds w = (None, w1) \<Longrightarrow> sym_run lib ds w = sym_Close lib w1"
proof (induction ds arbitrary: w)
  case (Cons d ds)
  then show ?case by (cases "sym_Write lib d w"; cases "fst (sym_Write lib d w)") (auto simp: then_write_def)
qed simp

text \<open>
  The body that is sent: after any writes, a close that succeeds stores the base64 text of
  one packet, sealed under the session key, that holds exactly what was written, signed by the
  signing key of the entity that was given, or unsigned if none was; a close that fails leaves
  the set as it was.
\<close>

theorem outgoing_body_format:
  assumes "set_Encrypt lib mime signedBy now s = Some (Ok w, s0)"
    and "sym_writes lib ds w = (None, w1)" and "outgoing_Close lib w1 s1 = Some (r, s2)"
  shows "case r of
     Ok u \<Rightarrow> \<exists>items h. pkgs s2 = (pkgs s1)\<lparr>mpsBody := b64_encode (Seal lib (swKey w) items)\<rparr> \<and>
       (case signedBy of
          None \<Rightarrow> items = ItemLiteral h # map ItemData ds @ [ItemLiteralEnd, ItemEnd]
        | Some e \<Rightarrow> \<exists>k p op sg. signingKey lib e now = Ok (Some k) \<and> kPrivateKey k = Some p \<and>
            Sign lib p (opHash op) (concat ds) = Inr (sgMaterial sg) \<and> opHash op = sgHash sg \<and>
            items = [ItemOnePass op, ItemLiteral h] @ map ItemData ds @ [ItemLiteralEnd, ItemSignature sg, ItemEnd])
   | Err e \<Rightarrow> s2 = s1
   | Panic msg \<Rightarrow> False"
proof -
  obtain x w2 where close: "sym_Close lib w1 = (x, w2)" by (cases "sym_Close lib w1")
  from set_Encrypt_Ok [OF assms(1)] obtain signer h where signer: "swSigner w = signer" "signedBy = None \<longleftrightarrow> signer = None"
      "\<forall>e. signedBy = Some e \<longrightarrow> (\<exists>k. signingKey lib e now = Ok (Some k) \<and> kPrivateKey k = signer \<and>
        \<not> privEncrypted lib (the signer))"
    and start: "swHashed w = ''''"
      "swItems w = (case signer of None \<Rightarrow> [] | Some p \<Rightarrow> [ItemOnePass (one_pass_of lib p)]) @ [ItemLiteral h]"
    by (elim exE conjE) (rule that)
  show ?thesis
  proof (cases x)
    case (Some e)
    with close assms(3) show ?thesis by (auto simp: outgoing_Close_def raiseP_def)
  next
    case None
    then have run: "sym_run lib ds w = (None, w2)" using sym_run_writes [OF assms(2)] close by simp
    have r: "r = Ok ()" and s2: "pkgs s2 = (pkgs s1)\<lparr>mpsBody := b64_encode (Seal lib (swKey w2) (swItems w2))\<rparr>"
      using assms(3) close None by (auto simp: outgoing_Close_def)
    from start have "ItemEnd \<notin> set (swItems w)" by (auto split: option.splits)
    from sym_run_spec [OF run this] obtain tl where "swKey w2 = swKey w" "swItems w2 = swItems w @ map ItemData ds @ tl"
      "trailer lib signer (concat ds) tl" using start signer(1) by auto
    note items = this
    show ?thesis
    proof (cases signedBy)
      case None
      with signer have "signer = None" by simp
      with items s2 r start None show ?thesis
        by (simp add: trailer_def) (rule exI [of _ "swItems w2"], simp)
    next
      case (Some e)
      with signer obtain k p where kp: "signingKey lib e now = Ok (Some k)" "kPrivateKey k = Some p" "signer = Some p"
        by (cases signer) auto
      with items obtain m where "Sign lib p crypto_SHA512 (concat ds) = Inr m"
        "tl = [ItemLiteralEnd, ItemSignature (signature_of lib p m), ItemEnd]" by (auto simp: trailer_def)
      with items kp s2 r start Some show ?thesis
        by (simp, intro exI [of _ "swItems w2"] conjI exI [of _ h] exI [of _ k] exI [of _ p] exI [of _ "one_pass_of lib p"]
            exI [of _ "signature_of lib p m"]) (simp_all add: one_pass_of_def signature_of_def)
    qed
  qed
qed

section \<open>Witnesses\<close>

definition toy_keys :: "(string \<times> EncryptedKey) list" where
  "toy_keys = [(''att'', \<lparr>ekCipherFunc = CipherAES256, ekKey = [7]\<rparr>)]"

definition toy_start :: pstate where
  "toy_start = \<lparr>pkgs = NewMessagePackageSet toy_keys, rand = [1, 2, 3]\<rparr>"

definition toy_writer :: "nat sym_writer" where
  "toy_writer = \<lparr>swKey = \<lparr>ekCipherFunc = CipherAES256, ekKey = [1, 2]\<rparr>,
     swItems = [ItemLiteral \<lparr>lhIsBinary = False, lhFileName = '''', lhTime = 0\<rparr>], swSigner = None, swHashed = ''''\<rparr>"

definition toy_ready :: pstate where
  "toy_ready = \<lparr>pkgs = (NewMessagePackageSet toy_keys)\<lparr>mpsMIMEType := ''text/plain'', bodyKey := Some (swKey toy_writer)\<rparr>,
     rand = [3]\<rparr>"

lemma toy_sink [simp]: "sink_write toy_pgp it v = (None, v\<lparr>swItems := swItems v @ [it]\<rparr>)"
  by (simp add: sink_write_def toy_pgp_def)

lemma toy_lib [simp]:
  "OpenEncrypted toy_pgp c k = None" "SerializeEncryptedKey toy_pgp q c b rd = (Inr b, rd)"
  by (simp_all add: toy_pgp_def)

lemma toy_open: "symetricallyEncrypt toy_pgp (swKey toy_writer) None None = Inr toy_writer"
  by (simp add: symetricallyEncrypt_def then_write_def toy_writer_def)

lemma toy_key: "generateUnencryptedKey toy_pgp CipherAES256 [1, 2, 3] = Some (Ok (swKey toy_writer), [3])"
  by (simp add: generateUnencryptedKey_def toy_pgp_def toy_writer_def numeral_eq_Suc)

lemma toy_serialize: "serializeEncryptedKey toy_pgp (Some k) q s = Some (Ok (b64_encode (ekKey k)), s)"
  by (simp add: serializeEncryptedKey_def with_rand_def)

lemma bindP_run: "m s = Some (Ok a, s') \<Longrightarrow> bindP m f s = f a s'"
  by (simp add: bindP_def)

lemma toy_attachments:
  "serialize_attachments toy_pgp q toy_keys [] s = Some (Ok [(''att'', b64_encode [7])], s)"
  by (simp add: toy_keys_def bindP_run [OF toy_serialize] returnP_def)

lemma toy_encrypt: "set_Encrypt toy_pgp ''text/plain'' None 100 toy_start = Some (Ok toy_writer, toy_ready)"
proof -
  have key: "with_rand (generateUnencryptedKey toy_pgp CipherAES256) (toy_start\<lparr>pkgs := (pkgs toy_start)\<lparr>mpsMIMEType := ''text/plain''\<rparr>\<rparr>)
      = Some (Ok (swKey toy_writer), toy_start\<lparr>pkgs := (pkgs toy_start)\<lparr>mpsMIMEType := ''text/plain''\<rparr>, rand := [3]\<rparr>)"
    using toy_key by (simp add: with_rand_def toy_start_def)
  show ?thesis
    by (simp add: set_Encrypt_def bindP_run [of "with_rand (generateUnencryptedKey toy_pgp CipherAES256)", OF key] body_signer_def toy_open liftP_def)
       (simp add: toy_ready_def toy_start_def)
qed

lemma toy_encryption_key:
  "encryptionKey toy_pgp toy_entity 100 = Ok (Some (entitySubkeyToKey toy_entity (toy_subkey 4 20)))"
  by (simp add: encryptionKey_def can_encrypt_def toy_defs)

lemma toy_pack: "pack_key \<lparr>ekCipherFunc = CipherAES256, ekKey = k\<rparr> = Ok \<lparr>Algorithm = ''aes256'', PackedKey_Key = b64_encode k\<rparr>"
  by (simp add: pack_key_def cipherFunctionString_def CipherAES128_def CipherAES192_def CipherAES256_def)

lemma pack_attachments_toy:
  "pack_attachments toy_keys s = Some (Ok (), s\<lparr>pkgs := (pkgs s)\<lparr>mpsAttachmentKeys :=
     map_option (AList.update ''att'' \<lparr>Algorithm = ''aes256'', PackedKey_Key = b64_encode [7]\<rparr>) (mpsAttachmentKeys (pkgs s))\<rparr>\<rparr>)"
  by (simp add: toy_keys_def bindP_liftP toy_pack returnP_def)

text \<open>A run with one recipient of each kind.\<close>

lemma toy_pkg_run:
  "\<exists>s. pkg_run toy_pgp (swKey toy_writer) toy_ready [(''eve'', None), (''bob'', Some 4)] s \<and> mpsMIMEType (pkgs s) = ''text/plain''"
proof -
  have ready: "bodyKey (pkgs toy_ready) = Some (swKey toy_writer)" "mpsBodyKey (pkgs toy_ready) = None"
      "attachmentKeys (pkgs toy_ready) = toy_keys" "mpsMIMEType (pkgs toy_ready) = ''text/plain''"
    by (simp_all add: toy_ready_def NewMessagePackageSet_def)
  obtain p s1 where bob: "AddInternal toy_pgp ''bob'' toy_entity 100 toy_ready = Some (Ok p, s1)"
      "bodyKey (pkgs s1) = Some (swKey toy_writer)" "mpsBodyKey (pkgs s1) = None" "attachmentKeys (pkgs s1) = toy_keys"
      "mpsMIMEType (pkgs s1) = ''text/plain''"
    using ready by (simp add: AddInternal_def bindP_liftP toy_encryption_key bindP_run [OF toy_serialize]
        bindP_run [OF toy_attachments] returnP_def)
  obtain p' s2 where eve: "AddCleartext ''eve'' s1 = Some (Ok p', s2)" "mpsMIMEType (pkgs s2) = ''text/plain''"
    using bob by (auto simp: AddCleartext_def prog_defs pack_attachments_toy toy_pack toy_writer_def)
  have "kPublicKey (entitySubkeyToKey toy_entity (toy_subkey 4 20)) = 4" by (simp add: entitySubkeyToKey_def toy_subkey_def)
  with pkg_run.internal [OF pkg_run.start bob(1) toy_encryption_key]
  have "pkg_run toy_pgp (swKey toy_writer) toy_ready [(''bob'', Some 4)] s1" by simp
  from pkg_run.cleartext [OF this eve(1)] eve(2) show ?thesis by blast
qed

lemma toy_keys_distinct: "distinct (map fst toy_keys)"
  by (simp add: toy_keys_def)

lemma packages_open_body_witness:
  "\<exists>s p. pkg_run toy_pgp (swKey toy_writer) toy_ready [(''eve'', None), (''bob'', Some 4)] s \<and>
     map_of (mpsAddresses (pkgs s)) ''bob'' = Some p \<and> serialized toy_pgp 4 (swKey toy_writer) (mpBodyKeyPacket p)"
proof -
  obtain s where run: "pkg_run toy_pgp (swKey toy_writer) toy_ready [(''eve'', None), (''bob'', Some 4)] s" using toy_pkg_run by blast
  from packages_open_body [OF toy_encrypt [unfolded toy_start_def] run toy_keys_distinct, THEN conjunct1, THEN spec, of "''bob''"]
  have "\<exists>p. map_of (mpsAddresses (pkgs s)) ''bob'' = Some p \<and> serialized toy_pgp 4 (swKey toy_writer) (mpBodyKeyPacket p)"
    by auto
  with run show ?thesis by blast
qed

lemma keys_in_clear_iff_cleartext_witness:
  "\<exists>s. pkg_run toy_pgp (swKey toy_writer) toy_ready [(''eve'', None), (''bob'', Some 4)] s \<and> mpsType (pkgs s) = 5 \<and>
     mpsBodyKey (pkgs s) = Some \<lparr>Algorithm = ''aes256'', PackedKey_Key = b64_encode [1, 2]\<rparr>"
proof -
  obtain s where run: "pkg_run toy_pgp (swKey toy_writer) toy_ready [(''eve'', None), (''bob'', Some 4)] s" using toy_pkg_run by blast
  from keys_in_clear_iff_cleartext [OF toy_encrypt [unfolded toy_start_def] run toy_keys_distinct]
  have "mpsType (pkgs s) = 5 \<and> mpsBodyKey (pkgs s) = Some \<lparr>Algorithm = ''aes256'', PackedKey_Key = b64_encode (ekKey (swKey toy_writer))\<rparr>"
    by auto
  with run show ?thesis by (auto simp: toy_writer_def)
qed

definition toy_used :: pstate where
  "toy_used = toy_start\<lparr>pkgs := (pkgs toy_start)\<lparr>mpsBodyKey := Some \<lparr>Algorithm = ''aes256'', PackedKey_Key = ''old''\<rparr>,
     mpsAttachmentKeys := Some []\<rparr>\<rparr>"

lemma second_Encrypt_keeps_old_keys_witness:
  "\<exists>w s'. set_Encrypt toy_pgp ''text/plain'' None 100 toy_used = Some (Ok w, s') \<and>
     mpsBodyKey (pkgs s') = Some \<lparr>Algorithm = ''aes256'', PackedKey_Key = ''old''\<rparr>"
proof -
  have key: "with_rand (generateUnencryptedKey toy_pgp CipherAES256) (toy_used\<lparr>pkgs := (pkgs toy_used)\<lparr>mpsMIMEType := ''text/plain''\<rparr>\<rparr>)
      = Some (Ok (swKey toy_writer), toy_used\<lparr>pkgs := (pkgs toy_used)\<lparr>mpsMIMEType := ''text/plain''\<rparr>, rand := [3]\<rparr>)"
    using toy_key by (simp add: with_rand_def toy_used_def toy_start_def)
  obtain s' where run: "set_Encrypt toy_pgp ''text/plain'' None 100 toy_used = Some (Ok toy_writer, s')"
    by (simp add: set_Encrypt_def bindP_run [of "with_rand (generateUnencryptedKey toy_pgp CipherAES256)", OF key] body_signer_def toy_open liftP_def)
  have "mpsBodyKey (pkgs toy_used) = Some \<lparr>Algorithm = ''aes256'', PackedKey_Key = ''old''\<rparr>" "mpsAttachmentKeys (pkgs toy_used) = Some []"
    "distinct (map fst (attachmentKeys (pkgs toy_used)))"
    by (simp_all add: toy_used_def toy_start_def NewMessagePackageSet_def toy_keys_def)
  from second_Encrypt_keeps_old_keys [OF run this] run show ?thesis by blast
qed

lemma recipient_before_Encrypt_panics_witness:
  "AddInternal toy_pgp ''bob'' toy_entity 100 toy_start = Some (Panic ''nil pointer dereference'', toy_start)"
proof -
  have "bodyKey (pkgs toy_start) = None" "mpsBodyKey (pkgs toy_start) = None"
    by (simp_all add: toy_start_def NewMessagePackageSet_def)
  from recipient_before_Encrypt_panics [OF this, THEN conjunct2, THEN mp, OF toy_encryption_key]
  show ?thesis .
qed

lemma outgoing_body_format_witness:
  "\<exists>w1 s2 items h. sym_writes toy_pgp [''hi''] toy_writer = (None, w1) \<and> outgoing_Close toy_pgp w1 toy_ready = Some (Ok (), s2) \<and>
     mpsBody (pkgs s2) = b64_encode (Seal toy_pgp (swKey toy_writer) items) \<and>
     items = [ItemLiteral h, ItemData ''hi'', ItemLiteralEnd, ItemEnd]"
proof -
  let ?w1 = "toy_writer\<lparr>swItems := swItems toy_writer @ [ItemData ''hi'']\<rparr>"
  have "swSigner toy_writer = None" by (simp add: toy_writer_def)
  then have "sym_writes toy_pgp [''hi''] toy_writer = (None, ?w1)" "swSigner ?w1 = None"
    by (simp_all add: sym_Write_def then_write_def)
  then obtain w1 where w1: "sym_writes toy_pgp [''hi''] toy_writer = (None, w1)" "swSigner w1 = None" by metis
  obtain s2 where s2: "outgoing_Close toy_pgp w1 toy_ready = Some (Ok (), s2)"
    using w1(2) by (simp add: outgoing_Close_def sym_Close_def then_write_def)
  from outgoing_body_format [OF toy_encrypt w1(1) s2] obtain items h where
    "pkgs s2 = (pkgs toy_ready)\<lparr>mpsBody := b64_encode (Seal toy_pgp (swKey toy_writer) items)\<rparr>"
    "items = [ItemLiteral h, ItemData ''hi'', ItemLiteralEnd, ItemEnd]" by (simp only: outcome.case option.case) auto
  moreover from this have "mpsBody (pkgs s2) = b64_encode (Seal toy_pgp (swKey toy_writer) items)" by simp
  ultimately show ?thesis using w1(1) s2 by blast
qed

end
