(* ===== verification/Events.thy ===== *)
theory Events
  imports Message_Data Calls "HOL-Library.Char_ord" "HOL-Library.List_Lexorder"
begin

text \<open>
  events.go: the change stream.  An event carries per-message updates; \<open>DiffLabelIDs\<close> and
  \<open>Patch\<close> apply an update to what the caller knows of a message.  Go ranges over a map in an
  order of its own choosing: it is an argument \<open>iter\<close> of the definitions that range over one.
\<close>

section \<open>Events\<close>

definition EventRefreshMail :: int where "EventRefreshMail = 1"
definition EventRefreshContacts :: int where "EventRefreshContacts = 2"

definition EventDelete :: int where "EventDelete = 0"
definition EventCreate :: int where "EventCreate = 1"
definition EventUpdate :: int where "EventUpdate = 2"
definition EventUpdateFlags :: int where "EventUpdateFlags = 3"

lemmas action_defs = EventDelete_def EventCreate_def EventUpdate_def EventUpdateFlags_def

record EventMessageUpdate =
  uUnread :: "int option"
  uType :: "int option"
  uTime :: int
  uIsReplied :: "int option"
  uIsRepliedAll :: "int option"
  uIsForwarded :: "int option"
  uLabelIDs :: "string list option"
  uLabelIDsAdded :: "string list option"
  uLabelIDsRemoved :: "string list option"

definition EventMessageUpdate_fields :: "EventMessageUpdate fields" where
  "EventMessageUpdate_fields =
     [field ''Unread'' uUnread uUnread_update (dec_pointer dec_int 0),
      field ''Type'' uType uType_update (dec_pointer dec_int 0),
      field ''Time'' uTime uTime_update dec_int,
      field ''IsReplied'' uIsReplied uIsReplied_update (dec_pointer dec_int 0),
      field ''IsRepliedAll'' uIsRepliedAll uIsRepliedAll_update (dec_pointer dec_int 0),
      field ''IsForwarded'' uIsForwarded uIsForwarded_update (dec_pointer dec_int 0),
      field ''LabelIDs'' uLabelIDs uLabelIDs_update dec_strings,
      field ''LabelIDsAdded'' uLabelIDsAdded uLabelIDsAdded_update dec_strings,
      field ''LabelIDsRemoved'' uLabelIDsRemoved uLabelIDsRemoved_update dec_strings]"

definition zero_EventMessageUpdate :: EventMessageUpdate where
  "zero_EventMessageUpdate = \<lparr>uUnread = None, uType = None, uTime = 0, uIsReplied = None,
     uIsRepliedAll = None, uIsForwarded = None, uLabelIDs = None, uLabelIDsAdded = None,
     uLabelIDsRemoved = None\<rparr>"

record EventMessage =
  emID :: string
  emAction :: int
  emCreated :: "Message option"
  emUpdated :: "EventMessageUpdate option"

record EventContact =
  ecID :: string
  ecAction :: int
  ecContact :: "Contact option"

record Event =
  evID :: string
  evRefresh :: int
  evMessages :: "EventMessage option list option"
  evContacts :: "EventContact option list option"
  evMessageCounts :: "MessageCount option list option"
  evNotices :: "string list option"

section \<open>Labels\<close>

definition buildLabelsSet :: "string list \<Rightarrow> string set" where
  "buildLabelsSet labelIDs = foldl (\<lambda>s labelID. insert labelID s) {} labelIDs"

text \<open>The keys of a map in the order of a range over it: each of them once.\<close>

definition ranges :: "(string set \<Rightarrow> string list) \<Rightarrow> bool" where
  "ranges iter \<longleftrightarrow> (\<forall>s. finite s \<longrightarrow> distinct (iter s) \<and> set (iter s) = s)"

fun DiffLabelIDs ::
  "(string set \<Rightarrow> string list) \<Rightarrow> EventMessageUpdate \<Rightarrow> string list \<Rightarrow> string list option \<times> string list option" where
  "DiffLabelIDs iter update current =
     (case (uLabelIDsAdded update, uLabelIDsRemoved update) of
        (Some added, Some removed) \<Rightarrow> (Some added, Some removed)
      | _ \<Rightarrow>
          (case uLabelIDs update of
             None \<Rightarrow> (None, None)
           | Some labelIDs \<Rightarrow>
               (let currentSet = buildLabelsSet current;
                    updateSet = buildLabelsSet labelIDs;
                    nilslice = (\<lambda>xs. if xs = [] then None else Some xs)
                in (nilslice [l \<leftarrow> iter updateSet. l \<notin> currentSet],
                    nilslice [l \<leftarrow> iter currentSet. l \<notin> updateSet]))))"

definition labels :: "string list option \<Rightarrow> string list" where
  "labels xs = (case xs of None \<Rightarrow> [] | Some l \<Rightarrow> l)"

definition Patch :: "(string set \<Rightarrow> string list) \<Rightarrow> EventMessageUpdate \<Rightarrow> Message \<Rightarrow> Message" where
  "Patch iter update msg =
     (let msg = msg\<lparr>mTime := uTime update\<rparr>;
          msg = (case uUnread update of Some x \<Rightarrow> msg\<lparr>mUnread := x\<rparr> | None \<Rightarrow> msg);
          msg = (case uType update of Some x \<Rightarrow> msg\<lparr>mType := x\<rparr> | None \<Rightarrow> msg);
          msg = (case uIsReplied update of Some x \<Rightarrow> msg\<lparr>mIsReplied := x\<rparr> | None \<Rightarrow> msg);
          msg = (case uIsRepliedAll update of Some x \<Rightarrow> msg\<lparr>mIsRepliedAll := x\<rparr> | None \<Rightarrow> msg);
          msg = (case uIsForwarded update of Some x \<Rightarrow> msg\<lparr>mIsForwarded := x\<rparr> | None \<Rightarrow> msg)
      in case uLabelIDs update of
           Some l \<Rightarrow> msg\<lparr>mLabelIDs := Some l\<rparr>
         | None \<Rightarrow>
             (case (uLabelIDsAdded update, uLabelIDsRemoved update) of
                (Some added, Some removed) \<Rightarrow>
                  (let s = buildLabelsSet (labels (mLabelIDs msg));
                       s = foldl (\<lambda>s labelID. insert labelID s) s added;
                       s = foldl (\<lambda>s labelID. s - {labelID}) s removed
                   in msg\<lparr>mLabelIDs := Some (iter s)\<rparr>)
              | _ \<Rightarrow> msg))"

section \<open>Decoding\<close>

text \<open>A \<open>json.RawMessage\<close> keeps the value, null included; without the key it is empty.\<close>

record rawEventMessage =
  rawID :: string
  rawAction :: int
  rawMessage :: "json option"

definition rawEventMessage_fields :: "rawEventMessage fields" where
  "rawEventMessage_fields =
     [field ''ID'' rawID rawID_update dec_string,
      field ''Action'' rawAction rawAction_update dec_int,
      field ''Message'' rawMessage rawMessage_update (\<lambda>j _. Inr (Some j))]"

definition unmarshal_raw :: "json option \<Rightarrow> 'a decoder \<Rightarrow> 'a \<Rightarrow> error + 'a" where
  "unmarshal_raw raw d zero =
     (case raw of
        None \<Rightarrow> Inl (Opaque ''unexpected end of JSON input'')
      | Some j \<Rightarrow> d j zero)"

definition EventMessage_UnmarshalJSON :: "EventMessage decoder" where
  "EventMessage_UnmarshalJSON j em =
     (case dec_struct rawEventMessage_fields j \<lparr>rawID = '''', rawAction = 0, rawMessage = None\<rparr> of
        Inl e \<Rightarrow> Inl e
      | Inr raw \<Rightarrow>
          (let em = em\<lparr>emID := rawID raw, emAction := rawAction raw\<rparr> in
           if rawAction raw = EventCreate then
             map_sum id (\<lambda>m. em\<lparr>emCreated := Some m\<rparr>)
               (unmarshal_raw (rawMessage raw) (dec_struct Message_fields) zero_Message)
           else if rawAction raw = EventUpdate \<or> rawAction raw = EventUpdateFlags then
             map_sum id (\<lambda>u. em\<lparr>emUpdated := Some u\<rparr>)
               (unmarshal_raw (rawMessage raw) (dec_struct EventMessageUpdate_fields) zero_EventMessageUpdate)
           else Inr em))"

definition zero_EventMessage :: EventMessage where
  "zero_EventMessage = \<lparr>emID = '''', emAction = 0, emCreated = None, emUpdated = None\<rparr>"

definition EventContact_fields :: "EventContact fields" where
  "EventContact_fields =
     [field ''ID'' ecID ecID_update dec_string,
      field ''Action'' ecAction ecAction_update dec_int,
      field ''Contact'' ecContact ecContact_update (dec_pointer (dec_struct Contact_fields) zero_Contact)]"

definition Event_fields :: "Event fields" where
  "Event_fields =
     [field ''EventID'' evID evID_update dec_string,
      field ''Refresh'' evRefresh evRefresh_update dec_int,
      field ''Messages'' evMessages evMessages_update
        (dec_slice (dec_pointer EventMessage_UnmarshalJSON zero_EventMessage) None),
      field ''Contacts'' evContacts evContacts_update
        (dec_slice (dec_pointer (dec_struct EventContact_fields) \<lparr>ecID = '''', ecAction = 0, ecContact = None\<rparr>) None),
      field ''MessageCounts'' evMessageCounts evMessageCounts_update dec_MessageCounts,
      field ''Notices'' evNotices evNotices_update dec_strings]"

definition zero_Event :: Event where
  "zero_Event = \<lparr>evID = '''', evRefresh = 0, evMessages = None, evContacts = None,
     evMessageCounts = None, evNotices = None\<rparr>"

record event_resp = resp +
  erEvent :: "Event option"

definition Client_GetEvent :: "('w, 'k) env \<Rightarrow> string \<Rightarrow> ('w, 'k, Event option) io" where
  "Client_GetEvent env cursor =
     (let cursor = (if cursor = '''' then ''latest'' else cursor) in
      bindP (get_json env ''GET'' (''/events/'' @ cursor) (embed erEvent erEvent_update zero_Event Event_fields)
               \<lparr>RespCode = 0, RawAPIError = None, erEvent = None\<rparr>)
        (\<lambda>respData. returnP (erEvent respData)))"

section \<open>Applying an update\<close>

lemma foldl_insert: "foldl (\<lambda>s x. insert x s) A xs = A \<union> set xs"
  by (induction xs arbitrary: A) auto

lemma foldl_remove: "foldl (\<lambda>s x. s - {x}) A xs = A - set xs"
  by (induction xs arbitrary: A) auto

lemma buildLabelsSet_set [simp]: "buildLabelsSet xs = set xs"
  by (simp add: buildLabelsSet_def foldl_insert)

definition full_shape :: "EventMessageUpdate \<Rightarrow> bool" where
  "full_shape u \<longleftrightarrow> uLabelIDs u \<noteq> None \<and> (uLabelIDsAdded u = None \<or> uLabelIDsRemoved u = None)"

definition delta_shape :: "EventMessageUpdate \<Rightarrow> bool" where
  "delta_shape u \<longleftrightarrow> uLabelIDs u = None \<and> uLabelIDsAdded u \<noteq> None \<and> uLabelIDsRemoved u \<noteq> None"

text \<open>
  C34.  \<open>Patch\<close> and \<open>DiffLabelIDs\<close> agree on an update of one shape, whatever the order of
  the maps: the labels of the patched message are those it had, with the added ones and without
  the removed ones.  For a full list the difference is exact: what it adds was not there, what
  it removes was, and the message ends with the list that was sent.
\<close>

theorem Patch_agrees_with_Diff:
  assumes "ranges iter" and "full_shape u \<or> delta_shape u"
    and "DiffLabelIDs iter u (labels (mLabelIDs msg)) = (added, removed)"
  shows "set (labels (mLabelIDs (Patch iter u msg))) =
       (set (labels (mLabelIDs msg)) \<union> set (labels added)) - set (labels removed) \<and>
     (full_shape u \<longrightarrow>
       set (labels added) \<inter> set (labels (mLabelIDs msg)) = {} \<and>
       set (labels removed) \<subseteq> set (labels (mLabelIDs msg)) \<and>
       mLabelIDs (Patch iter u msg) = uLabelIDs u)"
proof -
  have iter: "set (iter (set xs)) = set xs" "\<And>ys. set (iter (set xs \<union> set ys - set zs)) = set xs \<union> set ys - set zs"
    for xs zs using assms(1) by (auto simp: ranges_def)
  show ?thesis
  proof (cases "full_shape u")
    case True
    then obtain l where l: "uLabelIDs u = Some l" by (auto simp: full_shape_def)
    let ?cur = "labels (mLabelIDs msg)"
    have "DiffLabelIDs iter u ?cur =
        (let nilslice = (\<lambda>xs. if xs = [] then None else Some xs)
         in (nilslice [x \<leftarrow> iter (set l). x \<notin> set ?cur], nilslice [x \<leftarrow> iter (set ?cur). x \<notin> set l]))"
      using True l by (cases "uLabelIDsAdded u"; cases "uLabelIDsRemoved u") (simp_all add: full_shape_def Let_def)
    then have "labels added = [x \<leftarrow> iter (set l). x \<notin> set ?cur]" "labels removed = [x \<leftarrow> iter (set ?cur). x \<notin> set l]"
      using assms(3) by (auto simp: Let_def labels_def split: if_splits)
    then have "set (labels added) = set l - set ?cur" "set (labels removed) = set ?cur - set l"
      by (auto simp: iter)
    moreover have "mLabelIDs (Patch iter u msg) = Some l" by (simp add: Patch_def Let_def l)
    ultimately show ?thesis using True l by (auto simp: labels_def [of "Some l"])
  next
    case False
    with assms(2) obtain a r where ar: "uLabelIDs u = None" "uLabelIDsAdded u = Some a" "uLabelIDsRemoved u = Some r"
      by (auto simp: delta_shape_def)
    then have "added = Some a" "removed = Some r" using assms(3) by simp_all
    moreover have "mLabelIDs (Patch iter u msg) = Some (iter (set (labels (mLabelIDs msg)) \<union> set a - set r))"
      by (simp add: Patch_def Let_def ar foldl_insert foldl_remove split: option.split)
    ultimately show ?thesis using False by (simp add: labels_def [of "Some _"] iter)
  qed
qed

text \<open>
  When an update carries both shapes the two functions contradict each other:
  \<open>DiffLabelIDs\<close> takes the added and removed lists, \<open>Patch\<close> the full list, so that the patched
  message has, for instance, none of the labels that were reported as added.
\<close>

theorem Patch_contradicts_Diff:
  assumes "uLabelIDs u = Some full" and "uLabelIDsAdded u = Some added" and "uLabelIDsRemoved u = Some removed"
  shows "DiffLabelIDs iter u current = (Some added, Some removed) \<and> mLabelIDs (Patch iter u msg) = Some full \<and>
     (set added \<inter> set full = {} \<longrightarrow> (\<forall>l \<in> set added. l \<notin> set (labels (mLabelIDs (Patch iter u msg)))))"
  using assms by (auto simp: Patch_def Let_def labels_def)

text \<open>
  \<open>Patch\<close> changes what the update names and nothing else, with one exception: the time
  is always overwritten, and as it is not a pointer, an update that says nothing of the time
  (here, one decoded from an empty object) sets it to zero.
\<close>

theorem Patch_frame:
  "(\<exists>ids. Patch iter u msg = msg
      \<lparr>mTime := uTime u,
       mUnread := (case uUnread u of Some x \<Rightarrow> x | None \<Rightarrow> mUnread msg),
       mType := (case uType u of Some x \<Rightarrow> x | None \<Rightarrow> mType msg),
       mIsReplied := (case uIsReplied u of Some x \<Rightarrow> x | None \<Rightarrow> mIsReplied msg),
       mIsRepliedAll := (case uIsRepliedAll u of Some x \<Rightarrow> x | None \<Rightarrow> mIsRepliedAll msg),
       mIsForwarded := (case uIsForwarded u of Some x \<Rightarrow> x | None \<Rightarrow> mIsForwarded msg),
       mLabelIDs := ids\<rparr> \<and>
      (if uLabelIDs u = None \<and> (uLabelIDsAdded u = None \<or> uLabelIDsRemoved u = None) then ids = mLabelIDs msg
       else ids \<noteq> None)) \<and>
   (\<exists>v. dec_struct EventMessageUpdate_fields (JObj []) zero_EventMessageUpdate = Inr v \<and>
      Patch iter v msg = msg\<lparr>mTime := 0\<rparr>)"
proof
  show "\<exists>v. dec_struct EventMessageUpdate_fields (JObj []) zero_EventMessageUpdate = Inr v \<and>
      Patch iter v msg = msg\<lparr>mTime := 0\<rparr>"
    by (simp add: Patch_def zero_EventMessageUpdate_def Let_def)
  show "\<exists>ids. Patch iter u msg = msg
      \<lparr>mTime := uTime u,
       mUnread := (case uUnread u of Some x \<Rightarrow> x | None \<Rightarrow> mUnread msg),
       mType := (case uType u of Some x \<Rightarrow> x | None \<Rightarrow> mType msg),
       mIsReplied := (case uIsReplied u of Some x \<Rightarrow> x | None \<Rightarrow> mIsReplied msg),
       mIsRepliedAll := (case uIsRepliedAll u of Some x \<Rightarrow> x | None \<Rightarrow> mIsRepliedAll msg),
       mIsForwarded := (case uIsForwarded u of Some x \<Rightarrow> x | None \<Rightarrow> mIsForwarded msg),
       mLabelIDs := ids\<rparr> \<and>
      (if uLabelIDs u = None \<and> (uLabelIDsAdded u = None \<or> uLabelIDsRemoved u = None) then ids = mLabelIDs msg
       else ids \<noteq> None)"
    by (intro exI [of _ "mLabelIDs (Patch iter u msg)"])
       (simp add: Patch_def Let_def split: option.split)
qed

section \<open>Dispatch\<close>

lemma map_sum_id_Inr: "map_sum id f x = Inr y \<longleftrightarrow> (\<exists>z. x = Inr z \<and> y = f z)"
  by (cases x) auto

text \<open>
  An event message that decodes has exactly the payload of its action: a created message
  for a creation, an update for an update or a flags update, and nothing for a deletion or
  an action that is not known, whatever the key Message holds then.
\<close>

theorem EventMessage_payload:
  assumes "EventMessage_UnmarshalJSON j zero_EventMessage = Inr em"
  shows "(emCreated em \<noteq> None \<longleftrightarrow> emAction em = 1) \<and> (emUpdated em \<noteq> None \<longleftrightarrow> emAction em = 2 \<or> emAction em = 3)"
  using assms
  by (auto simp: EventMessage_UnmarshalJSON_def zero_EventMessage_def action_defs Let_def map_sum_id_Inr
      split: sum.splits if_splits)

section \<open>Witnesses\<close>

lemma sorted_ranges: "ranges sorted_list_of_set"
  by (simp add: ranges_def)

lemma Patch_agrees_with_Diff_witness:
  "\<exists>added removed.
     DiffLabelIDs sorted_list_of_set (zero_EventMessageUpdate\<lparr>uLabelIDs := Some [''a'', ''b'']\<rparr>) [''b'', ''c''] = (added, removed) \<and>
     set (labels added) \<inter> {''b'', ''c''} = {} \<and> {''b'', ''c''} \<union> set (labels added) - set (labels removed) = {''a'', ''b''}"
proof -
  let ?u = "zero_EventMessageUpdate\<lparr>uLabelIDs := Some [''a'', ''b'']\<rparr>"
  let ?msg = "zero_Message\<lparr>mLabelIDs := Some [''b'', ''c'']\<rparr>"
  have "full_shape ?u \<or> delta_shape ?u" by (simp add: full_shape_def zero_EventMessageUpdate_def)
  moreover have full: "full_shape ?u" by (simp add: full_shape_def zero_EventMessageUpdate_def)
  obtain added removed where d: "DiffLabelIDs sorted_list_of_set ?u (labels (mLabelIDs ?msg)) = (added, removed)"
    by (cases "DiffLabelIDs sorted_list_of_set ?u (labels (mLabelIDs ?msg))")
  ultimately have res: "set (labels (mLabelIDs (Patch sorted_list_of_set ?u ?msg))) =
       (set (labels (mLabelIDs ?msg)) \<union> set (labels added)) - set (labels removed) \<and>
     (full_shape ?u \<longrightarrow>
       set (labels added) \<inter> set (labels (mLabelIDs ?msg)) = {} \<and>
       set (labels removed) \<subseteq> set (labels (mLabelIDs ?msg)) \<and>
       mLabelIDs (Patch sorted_list_of_set ?u ?msg) = uLabelIDs ?u)"
    using Patch_agrees_with_Diff [OF sorted_ranges _ d] by blast
  have cur: "labels (mLabelIDs ?msg) = [''b'', ''c'']" by (simp add: labels_def)
  from res full have "mLabelIDs (Patch sorted_list_of_set ?u ?msg) = Some [''a'', ''b'']"
    "set (labels added) \<inter> {''b'', ''c''} = {}"
    unfolding cur by simp_all
  moreover from res have "{''b'', ''c''} \<union> set (labels added) - set (labels removed) =
      set (labels (mLabelIDs (Patch sorted_list_of_set ?u ?msg)))"
    unfolding cur by (metis list.set(1,2))
  ultimately show ?thesis using d unfolding cur by (intro exI [of _ added] exI [of _ removed]) (simp add: labels_def [of "Some _"])
qed

lemma Patch_contradicts_Diff_witness:
  "DiffLabelIDs sorted_list_of_set (zero_EventMessageUpdate\<lparr>uLabelIDs := Some [''x''],
       uLabelIDsAdded := Some [''a''], uLabelIDsRemoved := Some []\<rparr>) [] = (Some [''a''], Some []) \<and>
   mLabelIDs (Patch sorted_list_of_set (zero_EventMessageUpdate\<lparr>uLabelIDs := Some [''x''],
       uLabelIDsAdded := Some [''a''], uLabelIDsRemoved := Some []\<rparr>) zero_Message) = Some [''x'']"
  using Patch_contradicts_Diff [of "zero_EventMessageUpdate\<lparr>uLabelIDs := Some [''x''],
       uLabelIDsAdded := Some [''a''], uLabelIDsRemoved := Some []\<rparr>" "[''x'']" "[''a'']" "[]" sorted_list_of_set "[]" zero_Message]
  by simp

lemma EventMessage_payload_witness:
  "\<exists>em. EventMessage_UnmarshalJSON (JObj [(''ID'', JStr ''m''), (''Action'', JNum ''1''), (''Message'', JObj [])]) zero_EventMessage
     = Inr em \<and> emCreated em \<noteq> None \<and> emUpdated em = None"
proof -
  let ?j = "JObj [(''ID'', JStr ''m''), (''Action'', JNum ''1''), (''Message'', JObj [])]"
  have one: "dec_int (JNum ''1'') old = Inr 1" for old
    by (simp add: parse_int_def parse_nat_def char_digit_def Let_def)
  obtain em where em: "EventMessage_UnmarshalJSON ?j zero_EventMessage = Inr em" "emAction em = 1"
    by (simp add: EventMessage_UnmarshalJSON_def rawEventMessage_fields_def find_field_def field_def one
        action_defs unmarshal_raw_def Let_def del: dec_int.simps)
  from EventMessage_payload [OF em(1)] em show ?thesis by auto
qed

section \<open>The contract of the calls\<close>

interpretation get_event: api_call "\<lambda>env. Client_GetEvent env cursor" "''GET''" "''/events/'' @ (if cursor = '''' then ''latest'' else cursor)" None for cursor
  unfolding Client_GetEvent_def Let_def by (rule api_get)

end
