(* ===== verification/Messages.thy ===== *)
theory Messages
  imports Calls Packages Json_Roundtrip Events
begin

text \<open>
  The calls of messages.go: listing, counting and reading messages, drafts, the batch operations
  and sending.  A pointer argument that the code dereferences is an option: nil panics.
\<close>

section \<open>Queries\<close>

record MessageFilter =
  fPage :: int
  fPageSize :: int
  fLimit :: int
  fLabel :: string
  fSort :: string
  fAsc :: bool
  fBegin :: int
  fEnd :: int
  fKeyword :: string
  fTo :: string
  fFrom :: string
  fSubject :: string
  fAttachments :: "bool option"
  fStarred :: "bool option"
  fUnread :: "bool option"
  fConversation :: string
  fAddressID :: string
  fID :: "string list"
  fExternalID :: string

definition set_if :: "bool \<Rightarrow> string \<Rightarrow> string \<Rightarrow> url_values \<Rightarrow> url_values" where
  "set_if b k v vs = (if b then Values_Set k v vs else vs)"

definition filter_values :: "MessageFilter \<Rightarrow> url_values" where
  "filter_values f =
     (let v = [];
          v = set_if (fPage f \<noteq> 0) ''Page'' (Itoa (fPage f)) v;
          v = set_if (fPageSize f \<noteq> 0) ''PageSize'' (Itoa (fPageSize f)) v;
          v = set_if (fLimit f \<noteq> 0) ''Limit'' (Itoa (fLimit f)) v;
          v = set_if (fLabel f \<noteq> '''') ''Label'' (fLabel f) v;
          v = set_if (fSort f \<noteq> '''') ''Sort'' (fSort f) v;
          v = set_if (fAsc f) ''Desc'' ''0'' v;
          v = set_if (fConversation f \<noteq> '''') ''Conversation'' (fConversation f) v;
          v = set_if (fAddressID f \<noteq> '''') ''AddressID'' (fAddressID f) v;
          v = set_if (fExternalID f \<noteq> '''') ''ExternalID'' (fExternalID f) v
      in v)"

definition dec_Message :: "Message option decoder" where
  "dec_Message = dec_pointer (dec_struct Message_fields) zero_Message"

record messages_resp = resp +
  mrTotal :: int
  mrMessages :: "Message option list option"

definition messages_resp_fields :: "messages_resp fields" where
  "messages_resp_fields =
     [field ''Total'' mrTotal mrTotal_update dec_int,
      field ''Messages'' mrMessages mrMessages_update (dec_slice dec_Message None)]"

definition zero_messages_resp :: messages_resp where
  "zero_messages_resp = \<lparr>RespCode = 0, RawAPIError = None, mrTotal = 0, mrMessages = None\<rparr>"

definition ListMessages ::
  "('w, 'k) env \<Rightarrow> MessageFilter option \<Rightarrow> ('w, 'k, int \<times> Message option list option) io" where
  "ListMessages env filt =
     (case filt of
        None \<Rightarrow> panicP ''nil pointer dereference''
      | Some f \<Rightarrow>
          bindP (get_json env ''GET'' (''/messages?'' @ Values_Encode (filter_values f)) messages_resp_fields zero_messages_resp)
            (\<lambda>respData. returnP (mrTotal respData, mrMessages respData)))"

record counts_resp = resp +
  crCounts :: "MessageCount option list option"

definition counts_resp_fields :: "counts_resp fields" where
  "counts_resp_fields = [field ''Counts'' crCounts crCounts_update dec_MessageCounts]"

definition zero_counts_resp :: counts_resp where
  "zero_counts_resp = \<lparr>RespCode = 0, RawAPIError = None, crCounts = None\<rparr>"

definition CountMessages :: "('w, 'k) env \<Rightarrow> string \<Rightarrow> ('w, 'k, MessageCount option list option) io" where
  "CountMessages env address =
     bindP (get_json env ''GET'' (''/messages/count?'' @ Values_Encode (set_if (address \<noteq> '''') ''Address'' address []))
              counts_resp_fields zero_counts_resp)
       (\<lambda>respData. returnP (crCounts respData))"

section \<open>Single messages and drafts\<close>

record message_resp = resp +
  msgrMessage :: "Message option"

definition message_resp_fields :: "message_resp fields" where
  "message_resp_fields = [field ''Message'' msgrMessage msgrMessage_update dec_Message]"

definition zero_message_resp :: message_resp where
  "zero_message_resp = \<lparr>RespCode = 0, RawAPIError = None, msgrMessage = None\<rparr>"

definition GetMessage :: "('w, 'k) env \<Rightarrow> string \<Rightarrow> ('w, 'k, Message option) io" where
  "GetMessage env msgID =
     bindP (get_json env ''GET'' (''/messages/'' @ msgID) message_resp_fields zero_message_resp)
       (\<lambda>respData. returnP (msgrMessage respData))"

text \<open>\<open>Action\<close> is a pointer: with \<open>omitempty\<close> it is left out when nil, and sent when it points to 0.\<close>

definition draft_json :: "Message option \<Rightarrow> string \<Rightarrow> json" where
  "draft_json msg parentID =
     (let actionPtr = (if parentID \<noteq> '''' then Some MessageReply else None)
      in JObj ([(''Message'', jptr Message_json msg)] @ omit_empty ''ParentID'' parentID @
               (case actionPtr of None \<Rightarrow> [] | Some a \<Rightarrow> [(''Action'', JInt a)])))"

definition CreateDraftMessage :: "('w, 'k) env \<Rightarrow> Message option \<Rightarrow> string \<Rightarrow> ('w, 'k, Message option) io" where
  "CreateDraftMessage env msg parentID =
     bindP (call_json env ''POST'' ''/messages'' (draft_json msg parentID) message_resp_fields zero_message_resp)
       (\<lambda>respData. returnP (msgrMessage respData))"

definition UpdateDraftMessage :: "('w, 'k) env \<Rightarrow> Message option \<Rightarrow> ('w, 'k, Message option) io" where
  "UpdateDraftMessage env msg =
     (case msg of
        None \<Rightarrow> panicP ''nil pointer dereference''
      | Some m \<Rightarrow>
          bindP (call_json env ''PUT'' (''/messages/'' @ mID m) (JObj [(''Message'', Message_json m)])
                   message_resp_fields zero_message_resp)
            (\<lambda>respData. returnP (msgrMessage respData)))"

section \<open>Batches\<close>

text \<open>Without a response struct \<open>doJSON\<close> decodes into a bare envelope.\<close>

definition call_nil :: "('w, 'k) env \<Rightarrow> string \<Rightarrow> string \<Rightarrow> json \<Rightarrow> ('w, 'k, unit) io" where
  "call_nil env meth path body = bindP (call_json env meth path body [] zero_resp) (\<lambda>respData. returnP ())"

definition strings_json :: "string list option \<Rightarrow> json" where
  "strings_json = jslice JStr"

definition doMessages :: "('w, 'k) env \<Rightarrow> string \<Rightarrow> string list option \<Rightarrow> ('w, 'k, unit) io" where
  "doMessages env action ids = call_nil env ''PUT'' (''/messages/'' @ action) (JObj [(''IDs'', strings_json ids)])"

definition MarkMessagesRead :: "('w, 'k) env \<Rightarrow> string list option \<Rightarrow> ('w, 'k, unit) io" where
  "MarkMessagesRead env ids = doMessages env ''read'' ids"

definition MarkMessagesUnread :: "('w, 'k) env \<Rightarrow> string list option \<Rightarrow> ('w, 'k, unit) io" where
  "MarkMessagesUnread env ids = doMessages env ''unread'' ids"

definition DeleteMessages :: "('w, 'k) env \<Rightarrow> string list option \<Rightarrow> ('w, 'k, unit) io" where
  "DeleteMessages env ids = doMessages env ''delete'' ids"

definition UndeleteMessages :: "('w, 'k) env \<Rightarrow> string list option \<Rightarrow> ('w, 'k, unit) io" where
  "UndeleteMessages env ids = doMessages env ''undelete'' ids"

definition LabelMessages :: "('w, 'k) env \<Rightarrow> string \<Rightarrow> string list option \<Rightarrow> ('w, 'k, unit) io" where
  "LabelMessages env labelID ids =
     call_nil env ''PUT'' ''/messages/label'' (JObj [(''LabelID'', JStr labelID), (''IDs'', strings_json ids)])"

definition UnlabelMessages :: "('w, 'k) env \<Rightarrow> string \<Rightarrow> string list option \<Rightarrow> ('w, 'k, unit) io" where
  "UnlabelMessages env labelID ids =
     call_nil env ''PUT'' ''/messages/unlabel'' (JObj [(''LabelID'', JStr labelID), (''IDs'', strings_json ids)])"

section \<open>Sending\<close>

record OutgoingMessage =
  omID :: string
  omExpirationTime :: int
  omPackages :: "MessagePackageSet option list option"

definition OutgoingMessage_json :: "OutgoingMessage \<Rightarrow> json" where
  "OutgoingMessage_json m = JObj
     [(''ID'', JStr (omID m)), (''ExpirationTime'', JInt (omExpirationTime m)),
      (''Packages'', jslice (jptr MessagePackageSet_json) (omPackages m))]"

record sent_resp = resp +
  srSent :: "Message option"
  srParent :: "Message option"

definition sent_resp_fields :: "sent_resp fields" where
  "sent_resp_fields =
     [field ''Sent'' srSent srSent_update dec_Message, field ''Parent'' srParent srParent_update dec_Message]"

definition zero_sent_resp :: sent_resp where
  "zero_sent_resp = \<lparr>RespCode = 0, RawAPIError = None, srSent = None, srParent = None\<rparr>"

definition SendMessage :: "('w, 'k) env \<Rightarrow> OutgoingMessage option \<Rightarrow> ('w, 'k, Message option \<times> Message option) io" where
  "SendMessage env msg =
     (case msg of
        None \<Rightarrow> panicP ''nil pointer dereference''
      | Some m \<Rightarrow>
          bindP (call_json env ''POST'' (''/messages/'' @ omID m) (OutgoingMessage_json m) sent_resp_fields zero_sent_resp)
            (\<lambda>respData. returnP (srSent respData, srParent respData)))"

section \<open>The query of a filter\<close>

lemma map_of_set_if: "map_of (set_if b k v vs) = (if b then (map_of vs)(k \<mapsto> v) else map_of vs)"
  by (simp add: set_if_def map_of_Values_Set)

lemma distinct_set_if: "distinct (map fst vs) \<Longrightarrow> distinct (map fst (set_if b k v vs))"
  by (simp add: set_if_def distinct_Values_Set)

lemma distinct_filter_values: "distinct (map fst (filter_values f))"
  by (simp add: filter_values_def Let_def distinct_set_if)

definition nonempty :: "string \<Rightarrow> string option" where
  "nonempty s = (if s = '''' then None else Some s)"

definition nonzero :: "int \<Rightarrow> string option" where
  "nonzero i = (if i = 0 then None else Some (Itoa i))"

lemma map_of_filter_values:
  "map_of (filter_values f) =
     Map.empty(''Page'' := nonzero (fPage f), ''PageSize'' := nonzero (fPageSize f), ''Limit'' := nonzero (fLimit f),
       ''Label'' := nonempty (fLabel f), ''Sort'' := nonempty (fSort f), ''Desc'' := (if fAsc f then Some ''0'' else None),
       ''Conversation'' := nonempty (fConversation f), ''AddressID'' := nonempty (fAddressID f),
       ''ExternalID'' := nonempty (fExternalID f))"
  by (rule ext) (simp add: filter_values_def map_of_set_if nonzero_def nonempty_def)

text \<open>
  C24.  \<open>ListMessages\<close> asks for what its filter says: the query of its one request, as a server
  reads it, has the nine fields that the code knows, each exactly when it is set, with its
  value unharmed by the escaping.
\<close>

theorem ListMessages_query:
  assumes "quiet (cl s)" and "url_parse (baseURL (cl s) @ ''/messages?'' @ Values_Encode (filter_values f)) \<noteq> None"
    and "ListMessages env (Some f) s = Some (r, s')"
  shows "\<exists>q query ps. requests (trace s') = requests (trace s) @ [q] \<and> Method q = ''GET'' \<and> ReqBody q = None \<and>
     URL q = baseURL (cl s) @ ''/messages?'' @ query \<and> ParseQuery query = Some ps \<and>
     map_of ps =
       Map.empty(''Page'' := nonzero (fPage f), ''PageSize'' := nonzero (fPageSize f), ''Limit'' := nonzero (fLimit f),
         ''Label'' := nonempty (fLabel f), ''Sort'' := nonempty (fSort f), ''Desc'' := (if fAsc f then Some ''0'' else None),
         ''Conversation'' := nonempty (fConversation f), ''AddressID'' := nonempty (fAddressID f),
         ''ExternalID'' := nonempty (fExternalID f))"
proof -
  have one: "sends (ListMessages env (Some f)) s ''GET'' (''/messages?'' @ Values_Encode (filter_values f)) None"
    unfolding ListMessages_def option.case by (rule sends_bind_return [OF get_json_sends [OF assms(1)]])
  obtain q where "requests (trace s') = requests (trace s) @ [q]" "Method q = ''GET''"
    "URL q = baseURL (cl s) @ ''/messages?'' @ Values_Encode (filter_values f)" "ReqBody q = None"
    by (rule sends_D [OF one assms(3,2)])
  then show ?thesis
    by (intro exI [of _ q] exI [of _ "Values_Encode (filter_values f)"] exI [of _ "sort_key fst (filter_values f)"])
       (simp add: ParseQuery_Encode map_of_sort_key distinct_filter_values map_of_filter_values)
qed

text \<open>
  The other fields of the filter are not sent: two filters that differ in the period, the
  keyword, the participants, the subject, the three flags or the list of IDs make the same call.
\<close>

theorem ListMessages_ignores_fields:
  "ListMessages env (Some (f\<lparr>fBegin := b, fEnd := e, fKeyword := k, fTo := t, fFrom := fr, fSubject := sb,
       fAttachments := at, fStarred := st, fUnread := un, fID := ids\<rparr>)) = ListMessages env (Some f)"
  by (simp add: ListMessages_def filter_values_def)

section \<open>Drafts on the wire\<close>

lemma message_served:
  assumes "dec_struct Message_fields j zero_Message = Inr m" and "j \<noteq> JNull" and "json_ints j" and "json_utf8 j"
    and "serves env (baseURL (cl s) @ ''/messages/'' @ msgID) (JObj [(''Code'', JInt 1000), (''Message'', j)])"
    and "url_parse (baseURL (cl s) @ ''/messages/'' @ msgID) \<noteq> None"
  shows "\<exists>s'. GetMessage env msgID s = Some (Ok (Some m), s') \<and> cl s' = cl s"
proof -
  have "dec_struct (resp_fields @ message_resp_fields) (JObj [(''Code'', JInt 1000), (''Message'', j)]) zero_message_resp =
      Inr (zero_message_resp\<lparr>RespCode := 1000, msgrMessage := Some m\<rparr>)"
    using assms(1,2)
    by (simp add: resp_fields_def message_resp_fields_def zero_message_resp_def dec_Message_def dec_pointer_def find_field_def field_def
        dec_int_JInt)
  from get_json_served [OF assms(5,6) _ _ this] assms(3,4) obtain s'
    where "get_json env ''GET'' (''/messages/'' @ msgID) message_resp_fields zero_message_resp s =
      Some (Ok (zero_message_resp\<lparr>RespCode := 1000, msgrMessage := Some m\<rparr>), s')" "cl s' = cl s"
    by (auto simp: zero_message_resp_def)
  then show ?thesis by (simp add: GetMessage_def bindP_def returnP_def)
qed

text \<open>
  C22.  A draft reaches the server as it is: the one request of \<open>CreateDraftMessage\<close> posts a
  body that the server parses as an object whose \<open>Message\<close> decodes to the very message,
  every field of it, and that names a parent and the action 0 (reply) exactly when a parent is
  given; the strings are valid UTF-8, since the encoder replaces what is not, and no attachment
  of the message holds a session key, which is not sent.  A server that keeps
  this \<open>Message\<close> and serves it under some id gives the very message to any client that asks for
  it by \<open>GetMessage\<close>.
\<close>

theorem draft_reaches_server:
  assumes "quiet (cl s)" and "url_parse (baseURL (cl s) @ ''/messages'') \<noteq> None"
    and "CreateDraftMessage env (Some m) parentID s = Some (r, s')" and "int64_Message m"
    and "json_utf8 (Message_json m)" and "valid_utf8 parentID"
  shows "\<exists>q body ms j. requests (trace s') = requests (trace s) @ [q] \<and> Method q = ''POST'' \<and>
     URL q = baseURL (cl s) @ ''/messages'' \<and> ReqBody q = Some body \<and> json_decode body = Inr (JObj ms) \<and>
     map_of ms ''Message'' = Some j \<and> dec_struct Message_fields j zero_Message = Inr m \<and>
     map_of ms ''ParentID'' = (if parentID = '''' then None else Some (JStr parentID)) \<and>
     map_of ms ''Action'' = (if parentID = '''' then None else Some (JInt 0)) \<and>
     (\<forall>env2 s2 msgID. url_parse (baseURL (cl s2) @ ''/messages/'' @ msgID) \<noteq> None \<longrightarrow>
        serves env2 (baseURL (cl s2) @ ''/messages/'' @ msgID) (JObj [(''Code'', JInt 1000), (''Message'', j)]) \<longrightarrow>
        (\<exists>s3. GetMessage env2 msgID s2 = Some (Ok (Some m), s3) \<and> cl s3 = cl s2))"
proof -
  have one: "sends (CreateDraftMessage env (Some m) parentID) s ''POST'' ''/messages'' (Some (json_encode (draft_json (Some m) parentID)))"
    unfolding CreateDraftMessage_def by (rule sends_bind_return [OF call_json_sends [OF assms(1)]])
  obtain q where q: "requests (trace s') = requests (trace s) @ [q]" "Method q = ''POST''"
    "URL q = baseURL (cl s) @ ''/messages''" "ReqBody q = Some (json_encode (draft_json (Some m) parentID))"
    by (rule sends_D [OF one assms(3,2)])
  obtain ms where ms: "draft_json (Some m) parentID = JObj ms" "map_of ms ''Message'' = Some (Message_json m)"
     "map_of ms ''ParentID'' = (if parentID = '''' then None else Some (JStr parentID))"
     "map_of ms ''Action'' = (if parentID = '''' then None else Some (JInt 0))"
    by (simp add: draft_json_def jptr_def omit_empty_def MessageReply_def)
  have "json_ints (draft_json (Some m) parentID)"
    by (simp add: draft_json_def jptr_def json_ints_Message split: option.split)
  moreover have "json_utf8 (draft_json (Some m) parentID)"
    using assms(5,6) by (simp add: draft_json_def jptr_def)
  ultimately have "json_decode (json_encode (draft_json (Some m) parentID)) = Inr (JObj ms)"
    using ms(1) by (simp add: json_roundtrip)
  moreover have "json_ints (Message_json m)" "Message_json m \<noteq> JNull" by (rule json_ints_Message) (rule message_codec.not_null)
  ultimately show ?thesis using q ms Message_json_roundtrip [OF assms(4)] message_served assms(5) by blast
qed

section \<open>The contract of the calls\<close>

interpretation list_messages: api_call "\<lambda>env. ListMessages env (Some f)" "''GET''" "''/messages?'' @ Values_Encode (filter_values f)" None for f
  unfolding ListMessages_def option.case by (rule api_get)

interpretation count_messages: api_call "\<lambda>env. CountMessages env address" "''GET''" "''/messages/count?'' @ Values_Encode (set_if (address \<noteq> '''') ''Address'' address [])" None for address
  unfolding CountMessages_def by (rule api_get)

interpretation get_message: api_call "\<lambda>env. GetMessage env msgID" "''GET''" "''/messages/'' @ msgID" None for msgID
  unfolding GetMessage_def by (rule api_get)

interpretation create_draft: api_call "\<lambda>env. CreateDraftMessage env msg parentID" "''POST''" "''/messages''" "Some (draft_json msg parentID)" for msg parentID
  unfolding CreateDraftMessage_def by (rule api_post)

interpretation update_draft: api_call "\<lambda>env. UpdateDraftMessage env (Some m)" "''PUT''" "''/messages/'' @ mID m" "Some (JObj [(''Message'', Message_json m)])" for m
  unfolding UpdateDraftMessage_def option.case by (rule api_post)

interpretation batch: api_call "\<lambda>env. doMessages env action ids" "''PUT''" "''/messages/'' @ action" "Some (JObj [(''IDs'', strings_json ids)])" for action ids
  unfolding doMessages_def call_nil_def by (rule api_post)

interpretation label_messages: api_call "\<lambda>env. LabelMessages env labelID ids" "''PUT''" "''/messages/label''" "Some (JObj [(''LabelID'', JStr labelID), (''IDs'', strings_json ids)])" for labelID ids
  unfolding LabelMessages_def call_nil_def by (rule api_post)

interpretation unlabel_messages: api_call "\<lambda>env. UnlabelMessages env labelID ids" "''PUT''" "''/messages/unlabel''" "Some (JObj [(''LabelID'', JStr labelID), (''IDs'', strings_json ids)])" for labelID ids
  unfolding UnlabelMessages_def call_nil_def by (rule api_post)

interpretation send_message: api_call "\<lambda>env. SendMessage env (Some m)" "''POST''" "''/messages/'' @ omID m" "Some (OutgoingMessage_json m)" for m
  unfolding SendMessage_def option.case by (rule api_post)

end
