(* ===== verification/Listings.thy ===== *)
theory Listings
  imports Messages
begin

text \<open>
  The calls of labels.go, conversations.go and calendar.go, with their data.  All of them are the
  same pattern, whose contract is the locale \<open>api_call\<close>.
\<close>

section \<open>Labels\<close>

definition LabelInbox :: string where "LabelInbox = ''0''"
definition LabelAllDraft :: string where "LabelAllDraft = ''1''"
definition LabelAllSent :: string where "LabelAllSent = ''2''"
definition LabelTrash :: string where "LabelTrash = ''3''"
definition LabelSpam :: string where "LabelSpam = ''4''"
definition LabelAllMail :: string where "LabelAllMail = ''5''"
definition LabelArchive :: string where "LabelArchive = ''6''"
definition LabelSent :: string where "LabelSent = ''7''"
definition LabelDraft :: string where "LabelDraft = ''8''"
definition LabelStarred :: string where "LabelStarred = ''10''"

definition LabelMessage :: int where "LabelMessage = 1"
definition LabelContact :: int where "LabelContact = 2"

record Label =
  lID :: string
  lName :: string
  lColor :: string
  lDisplay :: int
  lType :: int
  lExclusive :: int
  lNotify :: int
  lOrder :: int

definition Label_fields :: "Label fields" where
  "Label_fields =
     [field ''ID'' lID lID_update dec_string,
      field ''Name'' lName lName_update dec_string,
      field ''Color'' lColor lColor_update dec_string,
      field ''Display'' lDisplay lDisplay_update dec_int,
      field ''Type'' lType lType_update dec_int,
      field ''Exclusive'' lExclusive lExclusive_update dec_int,
      field ''Notify'' lNotify lNotify_update dec_int,
      field ''Order'' lOrder lOrder_update dec_int]"

definition zero_Label :: Label where
  "zero_Label = \<lparr>lID = '''', lName = '''', lColor = '''', lDisplay = 0, lType = 0, lExclusive = 0, lNotify = 0, lOrder = 0\<rparr>"

record labels_resp = resp +
  lrLabels :: "Label option list option"

definition labels_resp_fields :: "labels_resp fields" where
  "labels_resp_fields =
     [field ''Labels'' lrLabels lrLabels_update (dec_slice (dec_pointer (dec_struct Label_fields) zero_Label) None)]"

definition zero_labels_resp :: labels_resp where
  "zero_labels_resp = \<lparr>RespCode = 0, RawAPIError = None, lrLabels = None\<rparr>"

definition ListLabels :: "('w, 'k) env \<Rightarrow> ('w, 'k, Label option list option) io" where
  "ListLabels env =
     bindP (get_json env ''GET'' ''/labels'' labels_resp_fields zero_labels_resp)
       (\<lambda>respData. returnP (lrLabels respData))"

section \<open>Conversations\<close>

record Conversation =
  cvID :: string
  cvOrder :: int
  cvSubject :: string
  cvSenders :: participants
  cvRecipients :: participants
  cvNumMessages :: int
  cvNumUnread :: int
  cvNumAttachments :: int
  cvExpirationTime :: int
  cvTotalSize :: int
  cvAddressID :: string
  cvLabelIDs :: "string list option"

definition Conversation_fields :: "Conversation fields" where
  "Conversation_fields =
     [field ''ID'' cvID cvID_update dec_string,
      field ''Order'' cvOrder cvOrder_update dec_int,
      field ''Subject'' cvSubject cvSubject_update dec_string,
      field ''Senders'' cvSenders cvSenders_update dec_participants,
      field ''Recipients'' cvRecipients cvRecipients_update dec_participants,
      field ''NumMessages'' cvNumMessages cvNumMessages_update dec_int,
      field ''NumUnread'' cvNumUnread cvNumUnread_update dec_int,
      field ''NumAttachments'' cvNumAttachments cvNumAttachments_update dec_int,
      field ''ExpirationTime'' cvExpirationTime cvExpirationTime_update dec_int,
      field ''TotalSize'' cvTotalSize cvTotalSize_update dec_int,
      field ''AddressID'' cvAddressID cvAddressID_update dec_string,
      field ''LabelIDs'' cvLabelIDs cvLabelIDs_update dec_strings]"

definition zero_Conversation :: Conversation where
  "zero_Conversation = \<lparr>cvID = '''', cvOrder = 0, cvSubject = '''', cvSenders = None, cvRecipients = None,
     cvNumMessages = 0, cvNumUnread = 0, cvNumAttachments = 0, cvExpirationTime = 0, cvTotalSize = 0,
     cvAddressID = '''', cvLabelIDs = None\<rparr>"

record conversation_resp = resp +
  cvrConversation :: "Conversation option"
  cvrMessages :: "Message option list option"

definition conversation_resp_fields :: "conversation_resp fields" where
  "conversation_resp_fields =
     [field ''Conversation'' cvrConversation cvrConversation_update (dec_pointer (dec_struct Conversation_fields) zero_Conversation),
      field ''Messages'' cvrMessages cvrMessages_update (dec_slice dec_Message None)]"

definition zero_conversation_resp :: conversation_resp where
  "zero_conversation_resp = \<lparr>RespCode = 0, RawAPIError = None, cvrConversation = None, cvrMessages = None\<rparr>"

definition GetConversation ::
  "('w, 'k) env \<Rightarrow> string \<Rightarrow> string \<Rightarrow> ('w, 'k, Conversation option \<times> Message option list option) io" where
  "GetConversation env convID msgID =
     bindP (get_json env ''GET'' (''/conversations/'' @ convID @ ''?'' @ Values_Encode (set_if (msgID \<noteq> '''') ''MessageID'' msgID []))
              conversation_resp_fields zero_conversation_resp)
       (\<lambda>respData. returnP (cvrConversation respData, cvrMessages respData))"

section \<open>Calendars\<close>

definition calendarPath :: string where "calendarPath = ''/calendar/v1''"

record Calendar =
  calID :: string
  calName :: string
  calDescription :: string
  calColor :: string
  calDisplay :: int
  calFlags :: int

definition Calendar_fields :: "Calendar fields" where
  "Calendar_fields =
     [field ''ID'' calID calID_update dec_string,
      field ''Name'' calName calName_update dec_string,
      field ''Description'' calDescription calDescription_update dec_string,
      field ''Color'' calColor calColor_update dec_string,
      field ''Display'' calDisplay calDisplay_update dec_int,
      field ''Flags'' calFlags calFlags_update dec_int]"

definition zero_Calendar :: Calendar where
  "zero_Calendar = \<lparr>calID = '''', calName = '''', calDescription = '''', calColor = '''', calDisplay = 0, calFlags = 0\<rparr>"

record CalendarEventCard =
  cecType :: int
  cecData :: string
  cecSignature :: string
  cecMemberID :: string

definition CalendarEventCard_fields :: "CalendarEventCard fields" where
  "CalendarEventCard_fields =
     [field ''Type'' cecType cecType_update dec_int,
      field ''Data'' cecData cecData_update dec_string,
      field ''Signature'' cecSignature cecSignature_update dec_string,
      field ''MemberID'' cecMemberID cecMemberID_update dec_string]"

definition zero_CalendarEventCard :: CalendarEventCard where
  "zero_CalendarEventCard = \<lparr>cecType = 0, cecData = '''', cecSignature = '''', cecMemberID = ''''\<rparr>"

text \<open>The field of type \<open>interface{}\<close> keeps the JSON value.\<close>

record CalendarEvent =
  ceventID :: string
  ceventCalendarID :: string
  ceventCalendarKeyPacket :: string
  ceventCreateTime :: int
  ceventLastEditTime :: int
  ceventAuthor :: string
  ceventPermissions :: int
  ceventSharedKeyPacket :: string
  ceventSharedEvents :: "CalendarEventCard list option"
  ceventCalendarEvents :: "json option"
  ceventPersonalEvent :: "CalendarEventCard list option"

definition dec_any :: "json option decoder" where
  "dec_any j old = Inr (if j = JNull then None else Some j)"

definition dec_cards :: "CalendarEventCard list option decoder" where
  "dec_cards = dec_slice (dec_struct CalendarEventCard_fields) zero_CalendarEventCard"

definition CalendarEvent_fields :: "CalendarEvent fields" where
  "CalendarEvent_fields =
     [field ''ID'' ceventID ceventID_update dec_string,
      field ''CalendarID'' ceventCalendarID ceventCalendarID_update dec_string,
      field ''CalendarKeyPacket'' ceventCalendarKeyPacket ceventCalendarKeyPacket_update dec_string,
      field ''CreateTime'' ceventCreateTime ceventCreateTime_update dec_int,
      field ''LastEditTime'' ceventLastEditTime ceventLastEditTime_update dec_int,
      field ''Author'' ceventAuthor ceventAuthor_update dec_string,
      field ''Permissions'' ceventPermissions ceventPermissions_update dec_int,
      field ''SharedKeyPacket'' ceventSharedKeyPacket ceventSharedKeyPacket_update dec_string,
      field ''SharedEvents'' ceventSharedEvents ceventSharedEvents_update dec_cards,
      field ''CalendarEvents'' ceventCalendarEvents ceventCalendarEvents_update dec_any,
      field ''PersonalEvent'' ceventPersonalEvent ceventPersonalEvent_update dec_cards]"

definition zero_CalendarEvent :: CalendarEvent where
  "zero_CalendarEvent = \<lparr>ceventID = '''', ceventCalendarID = '''', ceventCalendarKeyPacket = '''', ceventCreateTime = 0,
     ceventLastEditTime = 0, ceventAuthor = '''', ceventPermissions = 0, ceventSharedKeyPacket = '''',
     ceventSharedEvents = None, ceventCalendarEvents = None, ceventPersonalEvent = None\<rparr>"

record calendars_resp = resp +
  calrCalendars :: "Calendar option list option"

definition calendars_resp_fields :: "calendars_resp fields" where
  "calendars_resp_fields =
     [field ''Calendars'' calrCalendars calrCalendars_update (dec_slice (dec_pointer (dec_struct Calendar_fields) zero_Calendar) None)]"

definition zero_calendars_resp :: calendars_resp where
  "zero_calendars_resp = \<lparr>RespCode = 0, RawAPIError = None, calrCalendars = None\<rparr>"

text \<open>The page, and the page size when it is positive, as the paginated calls send them.\<close>

definition page_values :: "int \<Rightarrow> int \<Rightarrow> url_values" where
  "page_values page pageSize = set_if (pageSize > 0) ''PageSize'' (Itoa pageSize) (Values_Set ''Page'' (Itoa page) [])"

definition ListCalendars :: "('w, 'k) env \<Rightarrow> int \<Rightarrow> int \<Rightarrow> ('w, 'k, Calendar option list option) io" where
  "ListCalendars env page pageSize =
     bindP (get_json env ''GET'' (calendarPath @ ''?'' @ Values_Encode (page_values page pageSize))
              calendars_resp_fields zero_calendars_resp)
       (\<lambda>respData. returnP (calrCalendars respData))"

record CalendarEventFilter =
  cefStart :: int
  cefEnd :: int
  cefTimezone :: string
  cefPage :: int
  cefPageSize :: int

definition event_values :: "CalendarEventFilter \<Rightarrow> url_values" where
  "event_values f =
     (let v = [];
          v = Values_Set ''Start'' (Itoa (cefStart f)) v;
          v = Values_Set ''End'' (Itoa (cefEnd f)) v;
          v = Values_Set ''Timezone'' (cefTimezone f) v;
          v = Values_Set ''Page'' (Itoa (cefPage f)) v
      in set_if (cefPageSize f > 0) ''PageSize'' (Itoa (cefPageSize f)) v)"

record events_resp = resp +
  evrEvents :: "CalendarEvent option list option"

definition events_resp_fields :: "events_resp fields" where
  "events_resp_fields =
     [field ''Events'' evrEvents evrEvents_update (dec_slice (dec_pointer (dec_struct CalendarEvent_fields) zero_CalendarEvent) None)]"

definition zero_events_resp :: events_resp where
  "zero_events_resp = \<lparr>RespCode = 0, RawAPIError = None, evrEvents = None\<rparr>"

definition ListCalendarEvents ::
  "('w, 'k) env \<Rightarrow> string \<Rightarrow> CalendarEventFilter option \<Rightarrow> ('w, 'k, CalendarEvent option list option) io" where
  "ListCalendarEvents env calendarID filt =
     (case filt of
        None \<Rightarrow> panicP ''nil pointer dereference''
      | Some f \<Rightarrow>
          bindP (get_json env ''GET'' (calendarPath @ ''/'' @ calendarID @ ''/events?'' @ Values_Encode (event_values f))
                   events_resp_fields zero_events_resp)
            (\<lambda>respData. returnP (evrEvents respData)))"

section \<open>The contract of the calls\<close>

interpretation list_labels: api_call ListLabels "''GET''" "''/labels''" None
  unfolding ListLabels_def [abs_def] by (rule api_get)

interpretation get_conversation: api_call "\<lambda>env. GetConversation env convID msgID" "''GET''" "''/conversations/'' @ convID @ ''?'' @ Values_Encode (set_if (msgID \<noteq> '''') ''MessageID'' msgID [])" None for convID msgID
  unfolding GetConversation_def by (rule api_get)

interpretation list_calendars: api_call "\<lambda>env. ListCalendars env page pageSize" "''GET''" "calendarPath @ ''?'' @ Values_Encode (page_values page pageSize)" None for page pageSize
  unfolding ListCalendars_def by (rule api_get)

interpretation list_calendar_events: api_call "\<lambda>env. ListCalendarEvents env calendarID (Some f)" "''GET''" "calendarPath @ ''/'' @ calendarID @ ''/events?'' @ Values_Encode (event_values f)" None for calendarID f
  unfolding ListCalendarEvents_def option.case by (rule api_get)

end
