(* ===== verification/Contacts.thy ===== *)
theory Contacts
  imports Listings
begin

text \<open>
  The calls of contacts.go, with their requests and answers, batches included: the answer to a
  batch holds an envelope for each item.
\<close>

section \<open>Calls\<close>

record ContactExport =
  cxID :: string
  cxCards :: "ContactCard option list option"

record ContactImport =
  ciCards :: "ContactCard option list option"

definition dec_contact_cards :: "ContactCard option list option decoder" where
  "dec_contact_cards = dec_slice (dec_pointer (dec_struct ContactCard_fields) zero_ContactCard) None"

definition ContactExport_fields :: "ContactExport fields" where
  "ContactExport_fields =
     [field ''ID'' cxID cxID_update dec_string, field ''Cards'' cxCards cxCards_update dec_contact_cards]"

definition zero_ContactExport :: ContactExport where
  "zero_ContactExport = \<lparr>cxID = '''', cxCards = None\<rparr>"

definition ContactCard_json :: "ContactCard \<Rightarrow> json" where
  "ContactCard_json c = JObj
     [(''Type'', JInt (ccType c)), (''Data'', JStr (ccData c)), (''Signature'', JStr (ccSignature c))]"

definition ContactImport_json :: "ContactImport \<Rightarrow> json" where
  "ContactImport_json c = JObj [(''Cards'', jslice (jptr ContactCard_json) (ciCards c))]"

lemma ContactCard_fit: "list_all (field_keeps (\<lambda>j. True) (\<lambda>c. int64 (ccType c))) ContactCard_fields"
  unfolding ContactCard_fields_def list.pred_inject by (intro conjI TrueI field_keepsI) (auto intro: dec_int_fits)

lemma ContactCard_texts: "list_all (field_keeps json_utf8 (\<lambda>c. json_utf8 (ContactCard_json c))) ContactCard_fields"
  unfolding ContactCard_fields_def list.pred_inject
  by (intro conjI TrueI field_keepsI) (auto simp: ContactCard_json_def dest: string_codec.texts)

interpretation card_codec: struct_codec ContactCard_json "dec_struct ContactCard_fields" zero_ContactCard "\<lambda>c. int64 (ccType c)"
proof
  show "int64 (ccType x)" if "dec_struct ContactCard_fields j old = Inr x" "int64 (ccType old)" for j old x
    by (rule dec_struct_fit [OF ContactCard_fit that])
  show "json_utf8 (ContactCard_json x)" if "dec_struct ContactCard_fields j old = Inr x" "json_utf8 j" "json_utf8 (ContactCard_json old)"
    for j old x using that by (rule dec_struct_texts [OF ContactCard_texts])
qed (simp_all add: ContactCard_json_def ContactCard_fields_def zero_ContactCard_def find_field_def field_def dec_int_int64,
    simp add: int64_def)

text \<open>The cards of an import whose types fit 64 bits.\<close>

definition int64_cards :: "ContactCard option list option \<Rightarrow> bool" where
  "int64_cards = pred_option (list_all (pred_option (\<lambda>c. int64 (ccType c))))"

interpretation cards_codec: codec "jslice (jptr ContactCard_json)" dec_contact_cards None int64_cards
  unfolding dec_contact_cards_def [abs_def] int64_cards_def by (rule card_codec.ptr.slice)

record contacts_resp = resp +
  ctrContacts :: "Contact option list option"
  ctrTotal :: int

definition dec_Contact :: "Contact option decoder" where
  "dec_Contact = dec_pointer (dec_struct Contact_fields) zero_Contact"

definition contacts_resp_fields :: "contacts_resp fields" where
  "contacts_resp_fields =
     [field ''Contacts'' ctrContacts ctrContacts_update (dec_slice dec_Contact None),
      field ''Total'' ctrTotal ctrTotal_update dec_int]"

definition zero_contacts_resp :: contacts_resp where
  "zero_contacts_resp = \<lparr>RespCode = 0, RawAPIError = None, ctrContacts = None, ctrTotal = 0\<rparr>"

definition ListContacts :: "('w, 'k) env \<Rightarrow> int \<Rightarrow> int \<Rightarrow> ('w, 'k, int \<times> Contact option list option) io" where
  "ListContacts env page pageSize =
     bindP (get_json env ''GET'' (''/contacts?'' @ Values_Encode (page_values page pageSize)) contacts_resp_fields zero_contacts_resp)
       (\<lambda>respData. returnP (ctrTotal respData, ctrContacts respData))"

record emails_resp = resp +
  emrContactEmails :: "ContactEmail option list option"
  emrTotal :: int

definition emails_resp_fields :: "emails_resp fields" where
  "emails_resp_fields =
     [field ''ContactEmails'' emrContactEmails emrContactEmails_update
        (dec_slice (dec_pointer (dec_struct ContactEmail_fields) zero_ContactEmail) None),
      field ''Total'' emrTotal emrTotal_update dec_int]"

definition zero_emails_resp :: emails_resp where
  "zero_emails_resp = \<lparr>RespCode = 0, RawAPIError = None, emrContactEmails = None, emrTotal = 0\<rparr>"

definition ListContactsEmails ::
  "('w, 'k) env \<Rightarrow> int \<Rightarrow> int \<Rightarrow> ('w, 'k, int \<times> ContactEmail option list option) io" where
  "ListContactsEmails env page pageSize =
     bindP (get_json env ''GET'' (''/contacts/emails?'' @ Values_Encode (page_values page pageSize)) emails_resp_fields zero_emails_resp)
       (\<lambda>respData. returnP (emrTotal respData, emrContactEmails respData))"

record exports_resp = resp +
  exrContacts :: "ContactExport option list option"
  exrTotal :: int

definition exports_resp_fields :: "exports_resp fields" where
  "exports_resp_fields =
     [field ''Contacts'' exrContacts exrContacts_update
        (dec_slice (dec_pointer (dec_struct ContactExport_fields) zero_ContactExport) None),
      field ''Total'' exrTotal exrTotal_update dec_int]"

definition zero_exports_resp :: exports_resp where
  "zero_exports_resp = \<lparr>RespCode = 0, RawAPIError = None, exrContacts = None, exrTotal = 0\<rparr>"

definition ListContactsExport ::
  "('w, 'k) env \<Rightarrow> int \<Rightarrow> int \<Rightarrow> ('w, 'k, int \<times> ContactExport option list option) io" where
  "ListContactsExport env page pageSize =
     bindP (get_json env ''GET'' (''/contacts/export?'' @ Values_Encode (page_values page pageSize)) exports_resp_fields zero_exports_resp)
       (\<lambda>respData. returnP (exrTotal respData, exrContacts respData))"

record contact_resp = resp +
  conrContact :: "Contact option"

definition contact_resp_fields :: "contact_resp fields" where
  "contact_resp_fields = [field ''Contact'' conrContact conrContact_update dec_Contact]"

definition zero_contact_resp :: contact_resp where
  "zero_contact_resp = \<lparr>RespCode = 0, RawAPIError = None, conrContact = None\<rparr>"

definition GetContact :: "('w, 'k) env \<Rightarrow> string \<Rightarrow> ('w, 'k, Contact option) io" where
  "GetContact env contactID =
     bindP (get_json env ''GET'' (''/contacts/'' @ contactID) contact_resp_fields zero_contact_resp)
       (\<lambda>respData. returnP (conrContact respData))"

text \<open>The answer to a batch holds an envelope for each item.\<close>

record CreateContactResp =
  ccrIndex :: int
  ccrResponse :: contact_resp

definition CreateContactResp_fields :: "CreateContactResp fields" where
  "CreateContactResp_fields =
     [field ''Index'' ccrIndex ccrIndex_update dec_int,
      field ''Response'' ccrResponse ccrResponse_update (dec_struct (resp_fields @ contact_resp_fields))]"

definition zero_CreateContactResp :: CreateContactResp where
  "zero_CreateContactResp = \<lparr>ccrIndex = 0, ccrResponse = zero_contact_resp\<rparr>"

definition CreateContactResp_Err :: "CreateContactResp \<Rightarrow> error option" where
  "CreateContactResp_Err r = resp_Err (ccrResponse r)"

record creates_resp = resp +
  crsResponses :: "CreateContactResp option list option"

definition creates_resp_fields :: "creates_resp fields" where
  "creates_resp_fields =
     [field ''Responses'' crsResponses crsResponses_update
        (dec_slice (dec_pointer (dec_struct CreateContactResp_fields) zero_CreateContactResp) None)]"

definition zero_creates_resp :: creates_resp where
  "zero_creates_resp = \<lparr>RespCode = 0, RawAPIError = None, crsResponses = None\<rparr>"

definition CreateContacts ::
  "('w, 'k) env \<Rightarrow> ContactImport option list option \<Rightarrow> ('w, 'k, CreateContactResp option list option) io" where
  "CreateContacts env contacts =
     bindP (call_json env ''POST'' ''/contacts''
              (JObj [(''Contacts'', jslice (jptr ContactImport_json) contacts),
                     (''Overwrite'', JInt 0), (''Groups'', JInt 0), (''Labels'', JInt 0)])
              creates_resp_fields zero_creates_resp)
       (\<lambda>respData. returnP (crsResponses respData))"

definition UpdateContact :: "('w, 'k) env \<Rightarrow> string \<Rightarrow> ContactImport option \<Rightarrow> ('w, 'k, Contact option) io" where
  "UpdateContact env contactID contact =
     bindP (call_json env ''PUT'' (''/contacts/'' @ contactID) (jptr ContactImport_json contact) contact_resp_fields zero_contact_resp)
       (\<lambda>respData. returnP (conrContact respData))"

record DeleteContactResp =
  dcrID :: string
  dcrResponse :: resp

definition DeleteContactResp_fields :: "DeleteContactResp fields" where
  "DeleteContactResp_fields =
     [field ''ID'' dcrID dcrID_update dec_string, field ''Response'' dcrResponse dcrResponse_update (dec_struct resp_fields)]"

definition zero_DeleteContactResp :: DeleteContactResp where
  "zero_DeleteContactResp = \<lparr>dcrID = '''', dcrResponse = zero_resp\<rparr>"

definition DeleteContactResp_Err :: "DeleteContactResp \<Rightarrow> error option" where
  "DeleteContactResp_Err r = resp_Err (dcrResponse r)"

record deletes_resp = resp +
  dlrResponses :: "DeleteContactResp option list option"

definition deletes_resp_fields :: "deletes_resp fields" where
  "deletes_resp_fields =
     [field ''Responses'' dlrResponses dlrResponses_update
        (dec_slice (dec_pointer (dec_struct DeleteContactResp_fields) zero_DeleteContactResp) None)]"

definition zero_deletes_resp :: deletes_resp where
  "zero_deletes_resp = \<lparr>RespCode = 0, RawAPIError = None, dlrResponses = None\<rparr>"

definition DeleteContacts ::
  "('w, 'k) env \<Rightarrow> string list option \<Rightarrow> ('w, 'k, DeleteContactResp option list option) io" where
  "DeleteContacts env ids =
     bindP (call_json env ''PUT'' ''/contacts/delete'' (JObj [(''IDs'', strings_json ids)]) deletes_resp_fields zero_deletes_resp)
       (\<lambda>respData. returnP (dlrResponses respData))"

definition DeleteAllContacts :: "('w, 'k) env \<Rightarrow> ('w, 'k, unit) io" where
  "DeleteAllContacts env =
     bindP (get_json env ''DELETE'' ''/contacts'' [] zero_resp) (\<lambda>respData. returnP ())"

section \<open>Contacts that are stored and fetched\<close>

lemma contact_served:
  assumes "serves env (baseURL (cl s) @ ''/contacts/'' @ contactID)
      (JObj [(''Code'', JInt 1000), (''Contact'', JObj [(''ID'', JStr contactID), (''Cards'', jslice (jptr ContactCard_json) cards)])])"
    and "url_parse (baseURL (cl s) @ ''/contacts/'' @ contactID) \<noteq> None" and "int64_cards cards"
    and "json_utf8 (jslice (jptr ContactCard_json) cards)" and "valid_utf8 contactID"
  shows "\<exists>s' c. GetContact env contactID s = Some (Ok (Some c), s') \<and> cID c = contactID \<and> cCards c = cards"
proof -
  let ?c = "zero_Contact\<lparr>cID := contactID, cCards := cards\<rparr>"
  let ?j = "JObj [(''Code'', JInt 1000), (''Contact'', JObj [(''ID'', JStr contactID), (''Cards'', jslice (jptr ContactCard_json) cards)])]"
  have "dec_slice (dec_pointer (dec_struct ContactCard_fields) zero_ContactCard) None (jslice (jptr ContactCard_json) cards) None = Inr cards"
    using cards_codec.reads [OF assms(3)] by (simp add: dec_contact_cards_def)
  then have "dec_struct (resp_fields @ contact_resp_fields) ?j zero_contact_resp =
      Inr (zero_contact_resp\<lparr>RespCode := 1000, conrContact := Some ?c\<rparr>)"
    by (simp add: resp_fields_def contact_resp_fields_def zero_contact_resp_def dec_Contact_def dec_pointer_def find_field_def field_def
        dec_int_JInt Contact_fields_def zero_Contact_def)
  moreover have "json_ints ?j" "json_utf8 ?j" using assms(4,5) by (simp_all add: cards_codec.ints)
  ultimately obtain s' where "get_json env ''GET'' (''/contacts/'' @ contactID) contact_resp_fields zero_contact_resp s =
      Some (Ok (zero_contact_resp\<lparr>RespCode := 1000, conrContact := Some ?c\<rparr>), s')"
    using get_json_served [OF assms(1,2)] by (force simp: zero_contact_resp_def)
  then show ?thesis by (simp add: GetContact_def bindP_def returnP_def)
qed

text \<open>
  C23.  A contact comes back from the server: the one request of \<open>CreateContacts\<close> posts a body
  that parses and has, for every contact in order, the cards; a server that keeps these cards
  and serves them under an id gives the very cards to any client that asks for that id, nil
  slices, nil cards and signatures included.  The strings are valid UTF-8, since the encoder
  replaces what is not.
\<close>

theorem contacts_stored_and_fetched:
  assumes "quiet (cl s)" and "url_parse (baseURL (cl s) @ ''/contacts'') \<noteq> None"
    and "CreateContacts env (Some contacts) s = Some (r, s')"
    and "i < length contacts" and "contacts ! i = Some c" and "int64_cards (ciCards c)"
    and "json_utf8 (jslice (jptr ContactImport_json) (Some contacts))"
  shows "\<exists>q body ms cs members cards. requests (trace s') = requests (trace s) @ [q] \<and> Method q = ''POST'' \<and>
     URL q = baseURL (cl s) @ ''/contacts'' \<and> ReqBody q = Some body \<and> json_decode body = Inr (JObj ms) \<and>
     map_of ms ''Contacts'' = Some (JArr cs) \<and> length cs = length contacts \<and> cs ! i = JObj members \<and>
     map_of members ''Cards'' = Some cards \<and>
     (\<forall>env2 s2 contactID. valid_utf8 contactID \<longrightarrow> url_parse (baseURL (cl s2) @ ''/contacts/'' @ contactID) \<noteq> None \<longrightarrow>
        serves env2 (baseURL (cl s2) @ ''/contacts/'' @ contactID)
          (JObj [(''Code'', JInt 1000), (''Contact'', JObj [(''ID'', JStr contactID), (''Cards'', cards)])]) \<longrightarrow>
        (\<exists>s3 c'. GetContact env2 contactID s2 = Some (Ok (Some c'), s3) \<and> cID c' = contactID \<and> cCards c' = ciCards c))"
proof -
  let ?ms = "[(''Contacts'', jslice (jptr ContactImport_json) (Some contacts)), (''Overwrite'', JInt 0), (''Groups'', JInt 0), (''Labels'', JInt 0)]"
  let ?cs = "map (jptr ContactImport_json) contacts"
  have one: "sends (CreateContacts env (Some contacts)) s ''POST'' ''/contacts'' (Some (json_encode (JObj ?ms)))"
    unfolding CreateContacts_def by (rule sends_bind_return [OF call_json_sends [OF assms(1)]])
  obtain q where q: "requests (trace s') = requests (trace s) @ [q]" "Method q = ''POST''"
    "URL q = baseURL (cl s) @ ''/contacts''" "ReqBody q = Some (json_encode (JObj ?ms))"
    by (rule sends_D [OF one assms(3,2)])
  have "json_ints (jslice (jptr ContactImport_json) (Some contacts))"
    by (intro json_ints_jslice json_ints_jptr) (simp add: ContactImport_json_def cards_codec.ints)
  then have "json_decode (json_encode (JObj ?ms)) = Inr (JObj ?ms)" using assms(7) by (intro json_roundtrip(1)) simp_all
  moreover have "map_of ?ms ''Contacts'' = Some (JArr ?cs)" by (simp add: jslice_def)
  moreover have "?cs ! i = JObj [(''Cards'', jslice (jptr ContactCard_json) (ciCards c))]"
    using assms(4,5) by (simp add: jptr_def ContactImport_json_def)
  moreover have "map_of [(''Cards'', jslice (jptr ContactCard_json) (ciCards c))] ''Cards'' = Some (jslice (jptr ContactCard_json) (ciCards c))"
    by simp
  moreover have "length ?cs = length contacts" by simp
  moreover have "json_utf8 (ContactImport_json c)"
    using assms(7) nth_mem [OF assms(4)] assms(5) by (force simp: json_utf8_jslice json_utf8_jptr)
  then have "json_utf8 (jslice (jptr ContactCard_json) (ciCards c))" by (simp add: ContactImport_json_def)
  ultimately show ?thesis using q contact_served [OF _ _ assms(6)] by blast
qed

section \<open>The contract of the calls\<close>

interpretation list_contacts: api_call "\<lambda>env. ListContacts env page pageSize" "''GET''" "''/contacts?'' @ Values_Encode (page_values page pageSize)" None for page pageSize
  unfolding ListContacts_def by (rule api_get)

interpretation list_contact_emails: api_call "\<lambda>env. ListContactsEmails env page pageSize" "''GET''" "''/contacts/emails?'' @ Values_Encode (page_values page pageSize)" None for page pageSize
  unfolding ListContactsEmails_def by (rule api_get)

interpretation list_contacts_export: api_call "\<lambda>env. ListContactsExport env page pageSize" "''GET''" "''/contacts/export?'' @ Values_Encode (page_values page pageSize)" None for page pageSize
  unfolding ListContactsExport_def by (rule api_get)

interpretation get_contact: api_call "\<lambda>env. GetContact env contactID" "''GET''" "''/contacts/'' @ contactID" None for contactID
  unfolding GetContact_def by (rule api_get)

interpretation create_contacts: api_call "\<lambda>env. CreateContacts env contacts" "''POST''" "''/contacts''" "Some (JObj [(''Contacts'', jslice (jptr ContactImport_json) contacts), (''Overwrite'', JInt 0), (''Groups'', JInt 0), (''Labels'', JInt 0)])" for contacts
  unfolding CreateContacts_def by (rule api_post)

interpretation update_contact: api_call "\<lambda>env. UpdateContact env contactID contact" "''PUT''" "''/contacts/'' @ contactID" "Some (jptr ContactImport_json contact)" for contactID contact
  unfolding UpdateContact_def by (rule api_post)

interpretation delete_contacts: api_call "\<lambda>env. DeleteContacts env ids" "''PUT''" "''/contacts/delete''" "Some (JObj [(''IDs'', strings_json ids)])" for ids
  unfolding DeleteContacts_def by (rule api_post)

interpretation delete_all_contacts: api_call DeleteAllContacts "''DELETE''" "''/contacts''" None
  unfolding DeleteAllContacts_def [abs_def] by (rule api_get)

end
