(* ===== verification/Endpoints.thy ===== *)
theory Endpoints
  imports Contacts
begin

text \<open>The calls of the client, with what each asks of the server.\<close>

text \<open>
  C36.  The interface to the server, for a client that is not signed in or has no callback (a
  callback can make a call send again, or never return): every one of these calls returns
  without a panic and leaves the client as it was.  When its URL parses it sends exactly one request, with the
  method, the path below the root URL and the body that the API names for it, announced as JSON
  when there is one, with the versions, the user agent and, exactly when the client is signed in,
  its user id and token; when it does not, nothing is sent and the call returns an error.
\<close>

theorem api_surface:
  assumes "quiet (cl s)"
  shows "asks_for (GetCurrentUser env) s ''GET'' (''/users'') None \<and>
     asks_for (ListAddresses env) s ''GET'' (''/addresses'') None \<and>
     asks_for (GetPublicKeys env email) s ''GET'' (''/keys?'' @ ''Email='' @ QueryEscape email) None \<and>
     asks_for (Client_AuthInfo env username) s ''POST'' (''/auth/info'') (Some (JObj [(''Username'', JStr username)])) \<and>
     asks_for (Client_AuthTOTP env code) s ''POST'' (''/auth/2fa'') (Some (JObj [(''TwoFactorCode'', JStr code)])) \<and>
     asks_for (Client_GetEvent env cursor) s ''GET'' (''/events/'' @ (if cursor = '''' then ''latest'' else cursor)) None \<and>
     asks_for (ListMessages env (Some filt)) s ''GET'' (''/messages?'' @ Values_Encode (filter_values filt)) None \<and>
     asks_for (CountMessages env address) s ''GET'' (''/messages/count?'' @ Values_Encode (set_if (address \<noteq> '''') ''Address'' address [])) None \<and>
     asks_for (GetMessage env msgID) s ''GET'' (''/messages/'' @ msgID) None \<and>
     asks_for (CreateDraftMessage env msg parentID) s ''POST'' (''/messages'') (Some (draft_json msg parentID)) \<and>
     asks_for (UpdateDraftMessage env (Some m)) s ''PUT'' (''/messages/'' @ mID m) (Some (JObj [(''Message'', Message_json m)])) \<and>
     asks_for (doMessages env action ids) s ''PUT'' (''/messages/'' @ action) (Some (JObj [(''IDs'', strings_json ids)])) \<and>
     asks_for (LabelMessages env labelID ids) s ''PUT'' (''/messages/label'') (Some (JObj [(''LabelID'', JStr labelID), (''IDs'', strings_json ids)])) \<and>
     asks_for (UnlabelMessages env labelID ids) s ''PUT'' (''/messages/unlabel'') (Some (JObj [(''LabelID'', JStr labelID), (''IDs'', strings_json ids)])) \<and>
     asks_for (SendMessage env (Some om)) s ''POST'' (''/messages/'' @ omID om) (Some (OutgoingMessage_json om)) \<and>
     asks_for (ListLabels env) s ''GET'' (''/labels'') None \<and>
     asks_for (GetConversation env convID msgID) s ''GET'' (''/conversations/'' @ convID @ ''?'' @ Values_Encode (set_if (msgID \<noteq> '''') ''MessageID'' msgID [])) None \<and>
     asks_for (ListCalendars env page pageSize) s ''GET'' (calendarPath @ ''?'' @ Values_Encode (page_values page pageSize)) None \<and>
     asks_for (ListCalendarEvents env calendarID (Some ef)) s ''GET'' (calendarPath @ ''/'' @ calendarID @ ''/events?'' @ Values_Encode (event_values ef)) None \<and>
     asks_for (ListContacts env page pageSize) s ''GET'' (''/contacts?'' @ Values_Encode (page_values page pageSize)) None \<and>
     asks_for (ListContactsEmails env page pageSize) s ''GET'' (''/contacts/emails?'' @ Values_Encode (page_values page pageSize)) None \<and>
     asks_for (ListContactsExport env page pageSize) s ''GET'' (''/contacts/export?'' @ Values_Encode (page_values page pageSize)) None \<and>
     asks_for (GetContact env contactID) s ''GET'' (''/contacts/'' @ contactID) None \<and>
     asks_for (CreateContacts env contacts) s ''POST'' (''/contacts'') (Some (JObj [(''Contacts'', jslice (jptr ContactImport_json) contacts), (''Overwrite'', JInt 0), (''Groups'', JInt 0), (''Labels'', JInt 0)])) \<and>
     asks_for (UpdateContact env contactID contact) s ''PUT'' (''/contacts/'' @ contactID) (Some (jptr ContactImport_json contact)) \<and>
     asks_for (DeleteContacts env ids) s ''PUT'' (''/contacts/delete'') (Some (JObj [(''IDs'', strings_json ids)])) \<and>
     asks_for (DeleteAllContacts env) s ''DELETE'' (''/contacts'') None"
  by (intro conjI current_user.one_request [OF assms]
      addresses.one_request [OF assms]
      public_keys.one_request [OF assms]
      auth_info.one_request [OF assms]
      auth_totp.one_request [OF assms]
      get_event.one_request [OF assms]
      list_messages.one_request [OF assms]
      count_messages.one_request [OF assms]
      get_message.one_request [OF assms]
      create_draft.one_request [OF assms]
      update_draft.one_request [OF assms]
      batch.one_request [OF assms]
      label_messages.one_request [OF assms]
      unlabel_messages.one_request [OF assms]
      send_message.one_request [OF assms]
      list_labels.one_request [OF assms]
      get_conversation.one_request [OF assms]
      list_calendars.one_request [OF assms]
      list_calendar_events.one_request [OF assms]
      list_contacts.one_request [OF assms]
      list_contact_emails.one_request [OF assms]
      list_contacts_export.one_request [OF assms]
      get_contact.one_request [OF assms]
      create_contacts.one_request [OF assms]
      update_contact.one_request [OF assms]
      delete_contacts.one_request [OF assms]
      delete_all_contacts.one_request [OF assms])

end
