(* ===== verification/Openpgp_Streams.thy ===== *)
theory Openpgp_Streams
  imports Packages
begin

text \<open>
  Streams around go-crypto: a scripted \<open>io.Reader\<close>, the details of an OpenPGP message, and what
  else is called of the library to write and read armored, encrypted and signed texts.
\<close>

section \<open>Readers\<close>

text \<open>A reader is what its calls return, one after the other; then it is at its end.\<close>

datatype read_end = EOF | ReadError error

type_synonym reader = "(string \<times> read_end option) list"

fun read_next :: "reader \<Rightarrow> (string \<times> read_end option) \<times> reader" where
  "read_next [] = (('''', Some EOF), [])"
| "read_next (x # xs) = (x, xs)"

text \<open>Reading to the end, as \<open>io.Copy\<close> and \<open>io.ReadAll\<close> do: the data, and the error if it was one.\<close>

fun read_all :: "reader \<Rightarrow> string \<times> error option" where
  "read_all [] = ('''', None)"
| "read_all ((d, e) # rest) =
     (case e of
        None \<Rightarrow> (let (ds, err) = read_all rest in (d @ ds, err))
      | Some EOF \<Rightarrow> (d, None)
      | Some (ReadError err) \<Rightarrow> (d, Some err))"

definition strings_NewReader :: "string \<Rightarrow> reader" where
  "strings_NewReader s = (if s = '''' then [] else [(s, None)])"

lemma read_all_NewReader [simp]: "read_all (strings_NewReader s) = (s, None)"
  by (simp add: strings_NewReader_def)

section \<open>Message details and the rest of the library\<close>

record ('q, 'p, 's) details =
  mdIsEncrypted :: bool
  mdIsSigned :: bool
  mdSignatureError :: "error option"
  mdSignedByKeyId :: "64 word"
  mdSignedBy :: "('q, 'p, 's) pgp_key option"

definition zero_details :: "('q, 'p, 's) details" where
  "zero_details = \<lparr>mdIsEncrypted = False, mdIsSigned = False, mdSignatureError = None, mdSignedByKeyId = 0, mdSignedBy = None\<rparr>"

text \<open>
  \<open>openpgp.Encrypt\<close> is three functions: its own error, the error of a write after what was
  written, and the packets that its writer has written when it is closed.  \<open>ReadPGP\<close> is
  \<open>openpgp.ReadMessage\<close>: it gives the details and the reader of the unverified body.
\<close>

record ('q, 'p, 's) pgp_io = "('q, 'p, 's) pgp" +
  ArmorStart :: "string \<Rightarrow> error option"
  ArmorClose :: "string \<Rightarrow> error option"
  ArmorText :: "string \<Rightarrow> string \<Rightarrow> string"
  DecodeArmor :: "string \<Rightarrow> error + string"
  EncryptStart :: "('q, 'p, 's) pgp_entity list \<Rightarrow> ('q, 'p, 's) pgp_entity option \<Rightarrow> error option"
  EncryptWrite :: "string \<Rightarrow> string \<Rightarrow> error option"
  EncryptClose :: "('q, 'p, 's) pgp_entity list \<Rightarrow> ('q, 'p, 's) pgp_entity option \<Rightarrow> string \<Rightarrow> error + string"
  ReadPGP :: "string \<times> error option \<Rightarrow> ('q, 'p, 's) pgp_entity list \<Rightarrow> error + ('q, 'p, 's) details \<times> reader"
  CheckDetached :: "('q, 'p, 's) pgp_entity list \<Rightarrow> string \<Rightarrow> string \<Rightarrow> ('q, 'p, 's) pgp_entity option \<times> error option"
  DetachSignText :: "('q, 'p, 's) pgp_entity \<Rightarrow> string \<Rightarrow> error + string"

section \<open>Messages (messages.go)\<close>

definition Message_Read ::
  "('q, 'p, 's) pgp_io \<Rightarrow> Message \<Rightarrow> ('q, 'p, 's) pgp_entity list \<Rightarrow> error + ('q, 'p, 's) details \<times> reader" where
  "Message_Read lib msg keyring =
     (if mIsEncrypted msg = MessageUnencrypted then Inr (zero_details, strings_NewReader (mBody msg))
      else case DecodeArmor lib (mBody msg) of
             Inl e \<Rightarrow> Inl e
           | Inr block \<Rightarrow> ReadPGP lib (block, None) keyring)"

record ('q, 'p, 's) messageWriter =
  mwTo :: "('q, 'p, 's) pgp_entity list"
  mwSigned :: "('q, 'p, 's) pgp_entity option"
  mwPlaintext :: string

definition messageWriter_Write ::
  "('q, 'p, 's) pgp_io \<Rightarrow> string \<Rightarrow> ('q, 'p, 's) messageWriter \<Rightarrow> error option \<times> ('q, 'p, 's) messageWriter" where
  "messageWriter_Write lib p w =
     (case EncryptWrite lib (mwPlaintext w) p of
        Some e \<Rightarrow> (Some e, w)
      | None \<Rightarrow> (None, w\<lparr>mwPlaintext := mwPlaintext w @ p\<rparr>))"

definition messageWriter_Close ::
  "('q, 'p, 's) pgp_io \<Rightarrow> ('q, 'p, 's) messageWriter \<Rightarrow> Message \<Rightarrow> error option \<times> Message" where
  "messageWriter_Close lib w msg =
     (case EncryptClose lib (mwTo w) (mwSigned w) (mwPlaintext w) of
        Inl e \<Rightarrow> (Some e, msg)
      | Inr packets \<Rightarrow>
          (case ArmorClose lib packets of
             Some e \<Rightarrow> (Some e, msg)
           | None \<Rightarrow> (None, msg\<lparr>mBody := ArmorText lib ''PGP MESSAGE'' packets\<rparr>)))"

definition Message_Encrypt ::
  "('q, 'p, 's) pgp_io \<Rightarrow> ('q, 'p, 's) pgp_entity list \<Rightarrow> ('q, 'p, 's) pgp_entity option \<Rightarrow> error + ('q, 'p, 's) messageWriter" where
  "Message_Encrypt lib to signedBy =
     (case ArmorStart lib ''PGP MESSAGE'' of
        Some e \<Rightarrow> Inl e
      | None \<Rightarrow>
          (case EncryptStart lib to signedBy of
             Some e \<Rightarrow> Inl e
           | None \<Rightarrow> Inr \<lparr>mwTo = to, mwSigned = signedBy, mwPlaintext = ''''\<rparr>))"

fun messageWriter_writes ::
  "('q, 'p, 's) pgp_io \<Rightarrow> string list \<Rightarrow> ('q, 'p, 's) messageWriter \<Rightarrow> error option \<times> ('q, 'p, 's) messageWriter" where
  "messageWriter_writes lib [] w = (None, w)"
| "messageWriter_writes lib (p # ps) w =
     (case messageWriter_Write lib p w of
        (Some e, w') \<Rightarrow> (Some e, w')
      | (None, w') \<Rightarrow> messageWriter_writes lib ps w')"

lemma messageWriter_writes_data:
  assumes "messageWriter_writes lib ps w = (None, w')"
  shows "mwPlaintext w' = mwPlaintext w @ concat ps \<and> mwTo w' = mwTo w \<and> mwSigned w' = mwSigned w"
  using assms
proof (induction ps arbitrary: w)
  case (Cons p ps)
  then obtain w1 where "messageWriter_Write lib p w = (None, w1)" "messageWriter_writes lib ps w1 = (None, w')"
    by (auto split: prod.splits option.splits)
  with Cons.IH show ?case by (auto simp: messageWriter_Write_def split: option.splits)
qed simp

text \<open>
  A message that was encrypted is read back: what was written to the writer of
  \<open>Encrypt\<close>, in any chunks, is what \<open>Read\<close> delivers to a key ring that opens the packets,
  although the caller has to mark the message as encrypted himself; if it stays marked as
  unencrypted, \<open>Read\<close> hands out the armored text.
\<close>

theorem Message_encrypt_read:
  assumes armor: "\<And>t c. DecodeArmor lib (ArmorText lib t c) = Inr c"
    and decrypt: "\<And>data packets. EncryptClose lib to signedBy data = Inr packets \<Longrightarrow>
        \<exists>md body. ReadPGP lib (packets, None) keyring = Inr (md, body) \<and> read_all body = (data, None)"
    and "Message_Encrypt lib to signedBy = Inr w" and "messageWriter_writes lib ps w = (None, w')"
    and "messageWriter_Close lib w' msg = (None, msg')"
  shows "(\<forall>enc. enc \<noteq> MessageUnencrypted \<longrightarrow>
       (\<exists>md body. Message_Read lib (msg'\<lparr>mIsEncrypted := enc\<rparr>) keyring = Inr (md, body) \<and> read_all body = (concat ps, None))) \<and>
     mIsEncrypted msg' = mIsEncrypted msg \<and>
     (mIsEncrypted msg = MessageUnencrypted \<longrightarrow>
       (\<exists>md body. Message_Read lib msg' keyring = Inr (md, body) \<and> read_all body = (mBody msg', None)))"
proof -
  from assms(3) have w: "w = \<lparr>mwTo = to, mwSigned = signedBy, mwPlaintext = ''''\<rparr>"
    by (auto simp: Message_Encrypt_def split: option.splits)
  with messageWriter_writes_data [OF assms(4)] have w': "mwPlaintext w' = concat ps" "mwTo w' = to" "mwSigned w' = signedBy"
    by simp_all
  with assms(5) obtain packets where p: "EncryptClose lib to signedBy (concat ps) = Inr packets"
    "msg' = msg\<lparr>mBody := ArmorText lib ''PGP MESSAGE'' packets\<rparr>"
    by (auto simp: messageWriter_Close_def split: sum.splits option.splits)
  obtain md body where "ReadPGP lib (packets, None) keyring = Inr (md, body)" "read_all body = (concat ps, None)"
    using decrypt [OF p(1)] by blast
  with p armor show ?thesis by (simp add: Message_Read_def)
qed

section \<open>Witnesses\<close>

text \<open>A library that only marks what it did; bodies arrive in two pieces.\<close>

definition toy_io :: "(nat, nat, unit) pgp_io" where
  "toy_io = pgp.extend toy_pgp
     \<lparr>ArmorStart = (\<lambda>t. None), ArmorClose = (\<lambda>c. None), ArmorText = (\<lambda>t c. CHR ''-'' # c), DecodeArmor = (\<lambda>t. Inr (tl t)),
      EncryptStart = (\<lambda>to signer. None), EncryptWrite = (\<lambda>before p. None),
      EncryptClose = (\<lambda>to signer data. Inr (CHR ''#'' # data)),
      ReadPGP = (\<lambda>(s, err) keyring. Inr (zero_details\<lparr>mdIsEncrypted := True\<rparr>, [(take 1 (tl s), None), (drop 1 (tl s), Some EOF)])),
      CheckDetached = (\<lambda>keyring data sig. if sig = rev data then (Some toy_entity, None) else (None, Some (Opaque ''openpgp: invalid signature''))),
      DetachSignText = (\<lambda>s data. Inr (rev data))\<rparr>"

lemma toy_io_simps [simp]:
  "ArmorStart toy_io t = None" "ArmorClose toy_io c = None" "ArmorText toy_io t c = CHR ''-'' # c"
  "DecodeArmor toy_io t = Inr (tl t)" "EncryptStart toy_io to signer = None" "EncryptWrite toy_io b p = None"
  "EncryptClose toy_io to signer data = Inr (CHR ''#'' # data)"
  "ReadPGP toy_io (s, err) keyring = Inr (zero_details\<lparr>mdIsEncrypted := True\<rparr>, [(take 1 (tl s), None), (drop 1 (tl s), Some EOF)])"
  "CheckDetached toy_io keyring data sig = (if sig = rev data then (Some toy_entity, None) else (None, Some (Opaque ''openpgp: invalid signature'')))"
  "DetachSignText toy_io ent data = Inr (rev data)"
  by (simp_all add: toy_io_def pgp.extend_def)

lemma take_1_drop_1: "take 1 s @ drop 1 s = s"
  by (rule append_take_drop_id)

lemma Message_encrypt_read_witness:
  "\<forall>msg. \<exists>msg' md body. messageWriter_Close toy_io \<lparr>mwTo = [toy_entity], mwSigned = None, mwPlaintext = ''hello''\<rparr> msg = (None, msg') \<and>
     Message_Read toy_io (msg'\<lparr>mIsEncrypted := 1\<rparr>) [toy_entity] = Inr (md, body) \<and> read_all body = (''hello'', None)"
proof
  fix msg
  let ?w = "\<lparr>mwTo = [toy_entity], mwSigned = None, mwPlaintext = ''''\<rparr> :: (nat, nat, unit) messageWriter"
  let ?w' = "?w\<lparr>mwPlaintext := ''hello''\<rparr>"
  have start: "Message_Encrypt toy_io [toy_entity] None = Inr ?w" by (simp add: Message_Encrypt_def)
  have writes: "messageWriter_writes toy_io [''he'', ''llo''] ?w = (None, ?w')" by (simp add: messageWriter_Write_def)
  obtain msg' where close: "messageWriter_Close toy_io ?w' msg = (None, msg')" by (simp add: messageWriter_Close_def)
  have armor: "DecodeArmor toy_io (ArmorText toy_io t c) = Inr c" for t c by simp
  have opens: "EncryptClose toy_io [toy_entity] None data = Inr packets \<Longrightarrow>
      \<exists>md body. ReadPGP toy_io (packets, None) [toy_entity] = Inr (md, body) \<and> read_all body = (data, None)" for data packets
    by (auto simp: take_1_drop_1)
  have "(1 :: int) \<noteq> MessageUnencrypted" by (simp add: MessageUnencrypted_def)
  with Message_encrypt_read [OF armor opens start writes close] close
  show "\<exists>msg' md body. messageWriter_Close toy_io \<lparr>mwTo = [toy_entity], mwSigned = None, mwPlaintext = ''hello''\<rparr> msg = (None, msg') \<and>
     Message_Read toy_io (msg'\<lparr>mIsEncrypted := 1\<rparr>) [toy_entity] = Inr (md, body) \<and> read_all body = (''hello'', None)"
    by auto
qed

end
