(* ===== verification/Multipart.thy ===== *)
theory Multipart
  imports Openpgp_Streams Calls
begin

text \<open>
  \<open>mime/multipart\<close> over an \<open>io.Pipe\<close>, as attachments.go and import.go use them: the writer with
  its parts, the pipe whose reading end the transport closes whenever it likes, and a reference
  rendering of a whole form.
\<close>

section \<open>The pipe and the writer\<close>

datatype pipe = PipeOpen | ReaderClosed | WriterClosed

text \<open>
  \<open>mwBody\<close> is what the reading end has taken, \<open>mwLast\<close> the number of the last part, with the
  state of that part: closed, and the error of a failed write.
\<close>

record multipart_writer =
  mwBoundary :: string
  mwBody :: string
  mwPipe :: pipe
  mwParts :: nat
  mwLast :: "nat option"
  mwLastClosed :: bool
  mwLastErr :: "error option"

definition crlf :: string where "crlf = [CHR 0x0D, CHR 0x0A]"

definition ErrClosedPipe :: error where
  "ErrClosedPipe = Opaque ''io: read/write on closed pipe''"

definition multipart_NewWriter :: "string \<Rightarrow> multipart_writer" where
  "multipart_NewWriter boundary = \<lparr>mwBoundary = boundary, mwBody = '''', mwPipe = PipeOpen, mwParts = 0,
     mwLast = None, mwLastClosed = False, mwLastErr = None\<rparr>"

text \<open>
  A write ends when the reader has taken all of it (\<open>None\<close>), or fails when the reader closes after
  some bytes (\<open>Some n\<close>).
\<close>

definition pipe_write :: "nat option \<Rightarrow> string \<Rightarrow> multipart_writer \<Rightarrow> error option \<times> multipart_writer" where
  "pipe_write stop data w =
     (if mwPipe w \<noteq> PipeOpen then (Some ErrClosedPipe, w)
      else case stop of
        None \<Rightarrow> (None, w\<lparr>mwBody := mwBody w @ data\<rparr>)
      | Some n \<Rightarrow> (Some ErrClosedPipe, w\<lparr>mwBody := mwBody w @ take n data, mwPipe := ReaderClosed\<rparr>))"

type_synonym mime_header = "(string \<times> string) list"

definition header_lines :: "mime_header \<Rightarrow> string" where
  "header_lines hdr = concat (map (\<lambda>(k, v). k @ '': '' @ v @ crlf) hdr)"

definition part_head :: "string \<Rightarrow> bool \<Rightarrow> mime_header \<Rightarrow> string" where
  "part_head boundary first hdr =
     (if first then '''' else crlf) @ ''--'' @ boundary @ crlf @ header_lines hdr @ crlf"

definition CreatePart :: "nat option \<Rightarrow> mime_header \<Rightarrow> multipart_writer \<Rightarrow> (error + nat) \<times> multipart_writer" where
  "CreatePart stop hdr w0 =
     (let w = w0\<lparr>mwLastClosed := True\<rparr> in
      case (if mwLast w0 = None then None else mwLastErr w0) of
        Some e \<Rightarrow> (Inl e, w)
      | None \<Rightarrow>
          (case pipe_write stop (part_head (mwBoundary w) (mwLast w = None) hdr) w of
             (Some e, w') \<Rightarrow> (Inl e, w')
           | (None, w') \<Rightarrow>
               (Inr (mwParts w'), w'\<lparr>mwParts := Suc (mwParts w'), mwLast := Some (mwParts w'),
                                    mwLastClosed := False, mwLastErr := None\<rparr>)))"

definition part_Write :: "nat option \<Rightarrow> nat \<Rightarrow> string \<Rightarrow> multipart_writer \<Rightarrow> error option \<times> multipart_writer" where
  "part_Write stop i data w =
     (if mwLast w \<noteq> Some i \<or> mwLastClosed w then (Some (Opaque ''multipart: can't write to finished part''), w)
      else case pipe_write stop data w of
        (Some e, w') \<Rightarrow> (Some e, w'\<lparr>mwLastErr := Some e\<rparr>)
      | (None, w') \<Rightarrow> (None, w'))"

definition mw_Close :: "nat option \<Rightarrow> multipart_writer \<Rightarrow> error option \<times> multipart_writer" where
  "mw_Close stop w0 =
     (let w = w0\<lparr>mwLastClosed := True\<rparr> in
      case (if mwLast w0 = None then None else mwLastErr w0) of
        Some e \<Rightarrow> (Some e, w)
      | None \<Rightarrow> pipe_write stop (crlf @ ''--'' @ mwBoundary w @ ''--'' @ crlf) (w\<lparr>mwLast := None\<rparr>))"

section \<open>The reference\<close>

text \<open>A form is its parts, each a header and a content.\<close>

type_synonym form = "(mime_header \<times> string) list"

definition render_part :: "string \<Rightarrow> bool \<Rightarrow> mime_header \<times> string \<Rightarrow> string" where
  "render_part boundary first p = part_head boundary first (fst p) @ snd p"

definition render_open :: "string \<Rightarrow> form \<Rightarrow> string" where
  "render_open boundary ps =
     (case ps of [] \<Rightarrow> '''' | p # qs \<Rightarrow> render_part boundary True p @ concat (map (render_part boundary False) qs))"

definition render :: "string \<Rightarrow> form \<Rightarrow> string" where
  "render boundary ps = render_open boundary ps @ crlf @ ''--'' @ boundary @ ''--'' @ crlf"

lemma render_open_snoc:
  "render_open b (ps @ [p]) = render_open b ps @ render_part b (ps = []) p"
  by (cases ps) (simp_all add: render_open_def)

lemma render_open_more: "render_open b (ps @ [(hdr, c)]) @ d = render_open b (ps @ [(hdr, c @ d)])"
  by (simp add: render_open_snoc render_part_def)

text \<open>
  A writer that holds a form: nothing has failed, the reader took all of it and waits for more.
\<close>

definition holds :: "multipart_writer \<Rightarrow> form \<Rightarrow> bool" where
  "holds w ps \<longleftrightarrow> mwPipe w = PipeOpen \<and> mwBody w = render_open (mwBoundary w) ps \<and> mwParts w = length ps \<and>
     (if ps = [] then mwLast w = None else mwLast w = Some (length ps - 1) \<and> mwLastErr w = None \<and> \<not> mwLastClosed w)"

lemma holds_start [simp]: "holds (multipart_NewWriter b) []"
  by (simp add: holds_def multipart_NewWriter_def render_open_def)

lemma CreatePart_holds:
  assumes "CreatePart stop hdr w = (Inr i, w')" and "holds w ps"
  shows "holds w' (ps @ [(hdr, '''')]) \<and> i = length ps \<and> mwBoundary w' = mwBoundary w"
  using assms
  by (auto simp: CreatePart_def pipe_write_def holds_def render_open_snoc render_part_def Let_def
      split: if_splits option.splits)

lemma CreatePart_uncut:
  assumes "holds w ps"
  shows "\<exists>w'. CreatePart None hdr w = (Inr (length ps), w')"
  using assms by (cases "ps = []") (simp_all add: CreatePart_def pipe_write_def holds_def Let_def)

lemma part_Write_holds:
  assumes "part_Write stop i data w = (None, w')" and "holds w (ps @ [(hdr, c)])"
  shows "holds w' (ps @ [(hdr, c @ data)]) \<and> i = length ps \<and> mwBoundary w' = mwBoundary w"
  using assms
  by (auto simp: part_Write_def pipe_write_def holds_def render_open_more split: if_splits option.splits)

lemma part_Write_uncut:
  assumes "holds w (ps @ [(hdr, c)])"
  shows "\<exists>w'. part_Write None (length ps) data w = (None, w')"
  using assms by (auto simp: part_Write_def pipe_write_def holds_def)

lemma mw_Close_holds:
  assumes "mw_Close stop w = (None, w')" and "holds w ps"
  shows "mwBody w' = render (mwBoundary w) ps \<and> mwPipe w' = PipeOpen"
  using assms
  by (auto simp: mw_Close_def pipe_write_def holds_def render_def Let_def split: if_splits option.splits)

lemma mw_Close_uncut:
  assumes "holds w ps"
  shows "\<exists>w'. mw_Close None w = (None, w')"
  using assms by (cases "ps = []") (simp_all add: mw_Close_def pipe_write_def holds_def Let_def)

section \<open>Fields and copies\<close>

definition mw_then :: "error option \<times> multipart_writer \<Rightarrow> (multipart_writer \<Rightarrow> error option \<times> multipart_writer) \<Rightarrow>
    error option \<times> multipart_writer" where
  "mw_then r f = (case r of (Some e, w) \<Rightarrow> (Some e, w) | (None, w) \<Rightarrow> f w)"

definition in_part :: "mime_header \<Rightarrow> (nat \<Rightarrow> multipart_writer \<Rightarrow> error option \<times> multipart_writer) \<Rightarrow>
    multipart_writer \<Rightarrow> error option \<times> multipart_writer" where
  "in_part hdr f w = (case CreatePart None hdr w of (Inl e, w') \<Rightarrow> (Some e, w') | (Inr i, w') \<Rightarrow> f i w')"

definition form_name :: "string \<Rightarrow> string" where
  "form_name name = ''form-data; name='' @ [CHR 0x22] @ name @ [CHR 0x22]"

definition field_header :: "string \<Rightarrow> mime_header" where
  "field_header name = [(''Content-Disposition'', form_name name)]"

definition file_header :: "string \<Rightarrow> string \<Rightarrow> mime_header" where
  "file_header name file =
     [(''Content-Disposition'', form_name name @ ''; filename='' @ [CHR 0x22] @ file @ [CHR 0x22]),
      (''Content-Type'', ''application/octet-stream'')]"

definition WriteField :: "string \<Rightarrow> string \<Rightarrow> multipart_writer \<Rightarrow> error option \<times> multipart_writer" where
  "WriteField name val = in_part (field_header name) (\<lambda>i. part_Write None i val)"

text \<open>\<open>io.Copy\<close> into a part.\<close>

fun copy_part :: "reader \<Rightarrow> nat \<Rightarrow> multipart_writer \<Rightarrow> error option \<times> multipart_writer" where
  "copy_part [] i w = (None, w)"
| "copy_part ((d, e) # rest) i w =
     mw_then (if d = '''' then (None, w) else part_Write None i d w) (\<lambda>w.
       case e of
         None \<Rightarrow> copy_part rest i w
       | Some EOF \<Rightarrow> (None, w)
       | Some (ReadError x) \<Rightarrow> (Some x, w))"

lemma WriteField_holds:
  assumes "holds w ps"
  shows "\<exists>w'. WriteField name val w = (None, w') \<and> holds w' (ps @ [(field_header name, val)]) \<and> mwBoundary w' = mwBoundary w"
proof -
  obtain w1 where 1: "CreatePart None (field_header name) w = (Inr (length ps), w1)"
    using CreatePart_uncut [OF assms] by blast
  have h1: "holds w1 (ps @ [(field_header name, [])])" "mwBoundary w1 = mwBoundary w"
    using CreatePart_holds [OF 1 assms] by simp_all
  obtain w2 where 2: "part_Write None (length ps) val w1 = (None, w2)"
    using part_Write_uncut [OF h1(1)] by blast
  have "holds w2 (ps @ [(field_header name, val)])" "mwBoundary w2 = mwBoundary w1"
    using part_Write_holds [OF 2 h1(1)] by simp_all
  moreover have "WriteField name val w = (None, w2)"
    using 1 2 by (simp add: WriteField_def in_part_def)
  ultimately show ?thesis using h1(2) by (intro exI [of _ w2]) simp
qed

lemma copy_part_holds:
  assumes "holds w (ps @ [(hdr, c)])"
  shows "\<exists>w'. copy_part r (length ps) w = (snd (read_all r), w') \<and> holds w' (ps @ [(hdr, c @ fst (read_all r))]) \<and>
     mwBoundary w' = mwBoundary w"
  using assms
proof (induction r arbitrary: w c)
  case (Cons x rest)
  obtain d e where x: "x = (d, e)" by (cases x)
  obtain w1 where 1: "(if d = '''' then (None, w) else part_Write None (length ps) d w) = (None, w1)"
    "holds w1 (ps @ [(hdr, c @ d)])" "mwBoundary w1 = mwBoundary w"
    proof (cases "d = ''''")
    case True
    with Cons.prems that show ?thesis by simp
  next
    case False
    obtain w1 where "part_Write None (length ps) d w = (None, w1)" using part_Write_uncut [OF Cons.prems] by blast
    with part_Write_holds [OF this Cons.prems] False that show ?thesis by simp
  qed
  show ?case
  proof (cases e)
    case None
    from Cons.IH [OF 1(2)] obtain w2 where "copy_part rest (length ps) w1 = (snd (read_all rest), w2)"
      "holds w2 (ps @ [(hdr, (c @ d) @ fst (read_all rest))])" "mwBoundary w2 = mwBoundary w1" by blast
    moreover have "read_all (x # rest) = (d @ fst (read_all rest), snd (read_all rest))"
      using x None by (simp add: case_prod_unfold Let_def)
    ultimately show ?thesis using 1 x None by (simp add: mw_then_def)
  next
    case (Some re)
    with 1 x show ?thesis by (cases re) (simp_all add: mw_then_def)
  qed
qed simp

section \<open>Media types\<close>

definition isTSpecial :: "char \<Rightarrow> bool" where
  "isTSpecial c = (c \<in> set (''()<>@,;:/[]?='' @ [CHR 0x5C, CHR 0x22]))"

definition isTokenChar :: "char \<Rightarrow> bool" where
  "isTokenChar c = ((of_char c :: nat) > 0x20 \<and> (of_char c :: nat) < 0x7F \<and> \<not> isTSpecial c)"

definition isToken :: "string \<Rightarrow> bool" where
  "isToken s = (s \<noteq> '''' \<and> list_all isTokenChar s)"

definition needsEncoding :: "string \<Rightarrow> bool" where
  "needsEncoding s = list_ex (\<lambda>c. ((of_char c :: nat) < 0x20 \<or> (of_char c :: nat) > 0x7E) \<and> c \<noteq> CHR 0x09) s"

definition percent :: "char \<Rightarrow> string" where
  "percent c =
     (if (of_char c :: nat) \<le> 0x20 \<or> (of_char c :: nat) \<ge> 0x7F \<or> c \<in> set [CHR 0x2A, CHR 0x27, CHR 0x25] \<or> isTSpecial c
      then [CHR 0x25, hex_digit (char_nat c div 16), hex_digit (char_nat c mod 16)] else [c])"

definition quoted :: "string \<Rightarrow> string" where
  "quoted s = [CHR 0x22] @ concat (map (\<lambda>c. if c = CHR 0x22 \<or> c = CHR 0x5C then [CHR 0x5C, c] else [c]) s) @ [CHR 0x22]"

definition media_param :: "string \<times> string \<Rightarrow> string" where
  "media_param p =
     ''; '' @ fst p @
     (if needsEncoding (snd p) then ''*=utf-8'' @ [CHR 0x27, CHR 0x27] @ concat (map percent (snd p))
      else if isToken (snd p) then ''='' @ snd p
      else ''='' @ quoted (snd p))"

text \<open>For the type \<open>form-data\<close> and parameters whose names are lower-case tokens.\<close>

definition FormatMediaType_form :: "(string \<times> string) list \<Rightarrow> string" where
  "FormatMediaType_form params = ''form-data'' @ concat (map media_param (sort_key fst params))"

text \<open>No value can break out of its header line.\<close>

definition one_line :: "string \<Rightarrow> bool" where
  "one_line s \<longleftrightarrow> CHR 0x0D \<notin> set s \<and> CHR 0x0A \<notin> set s"

lemma one_line_simps [simp]:
  "one_line []" "one_line (c # s) \<longleftrightarrow> c \<noteq> CHR 0x0D \<and> c \<noteq> CHR 0x0A \<and> one_line s"
  "one_line (s @ t) \<longleftrightarrow> one_line s \<and> one_line t"
  by (auto simp: one_line_def)

lemma one_line_concat: "(\<And>x. x \<in> set xs \<Longrightarrow> one_line (f x)) \<Longrightarrow> one_line (concat (map f xs))"
  by (induction xs) simp_all

lemma one_line_chars: "(\<And>c. c \<in> set s \<Longrightarrow> one_line [c]) \<Longrightarrow> one_line s"
  by (induction s) simp_all

lemma hex_digit_plain: "n < 16 \<Longrightarrow> one_line [hex_digit n]"
  by (auto simp: hex_digit_def dest!: arg_cong [where f = "of_char :: char \<Rightarrow> nat"])

lemma one_line_percent: "one_line (percent c)"
proof -
  have "one_line [hex_digit (char_nat c div 16)]" "one_line [hex_digit (char_nat c mod 16)]"
    by (rule hex_digit_plain; use char_nat_less [of c] in simp)+
  moreover have "one_line [c]" if "\<not> (of_char c :: nat) \<le> 0x20" using that by auto
  ultimately show ?thesis by (auto simp: percent_def)
qed

lemma one_line_unencoded: "\<not> needsEncoding s \<Longrightarrow> one_line s"
  by (rule one_line_chars) (auto simp: needsEncoding_def list_ex_iff)

lemma one_line_quoted: "one_line s \<Longrightarrow> one_line (quoted s)"
  unfolding quoted_def by (auto simp: one_line_def)

lemma one_line_media_param: "one_line (fst p) \<Longrightarrow> one_line (media_param p)"
  by (simp add: media_param_def one_line_concat one_line_percent one_line_unencoded one_line_quoted)

lemma FormatMediaType_one_line:
  "(\<And>p. p \<in> set params \<Longrightarrow> one_line (fst p)) \<Longrightarrow> one_line (FormatMediaType_form params)"
  unfolding FormatMediaType_form_def by (simp, rule one_line_concat) (auto intro: one_line_media_param)

section \<open>How a body ends\<close>

text \<open>
  A streamed request body is read to its end, ends in an error of the writing side, or is left
  unread; the network may behave differently for each.
\<close>

datatype body_end = Complete | Broken error | Unread

definition body_end_of :: "error option \<Rightarrow> body_end" where
  "body_end_of e = (case e of None \<Rightarrow> Complete | Some x \<Rightarrow> Broken x)"

section \<open>Posting a form\<close>

definition FormDataContentType :: "string \<Rightarrow> string" where
  "FormDataContentType boundary = ''multipart/form-data; boundary='' @ boundary"

definition post_form ::
  "('w, 'k) env \<Rightarrow> string \<Rightarrow> string \<Rightarrow> string \<Rightarrow> 'z resp_scheme fields \<Rightarrow> 'z resp_scheme \<Rightarrow> ('w, 'k, 'z resp_scheme) io" where
  "post_form env boundary path body fs zero =
     bindP (newRequest ''POST'' path (StreamReader body)) (\<lambda>req.
       doJSON env (req\<lparr>Header := Header_Set ''Content-Type'' (FormDataContentType boundary) (Header req)\<rparr>)
         (dec_struct (resp_fields @ fs)) zero (Some resp_Err))"

text \<open>A pipe cannot be read twice, so a form is sent once, whatever the server says.\<close>

lemma newRequest_stream:
  assumes "newRequest meth path (StreamReader b) s = Some (Ok req, s')"
  shows "GetBody req = None \<and> ReqBody req = Some b \<and> cl s' = cl s"
  using assms
  by (auto simp: newRequest_def http_NewRequest_def setRequestAuthorization_def Let_def split: option.splits sum.splits)

lemma post_form_once:
  fixes zero :: "'z resp_scheme"
  assumes "url_parse (baseURL (cl s) @ path) \<noteq> None"
  shows "\<exists>r s' q. post_form env boundary path body fs zero s = Some (r, s') \<and> cl s' = cl s \<and> (\<forall>msg. r \<noteq> Panic msg) \<and>
     requests (trace s') = requests (trace s) @ [q] \<and> Method q = ''POST'' \<and> URL q = baseURL (cl s) @ path \<and>
     ReqBody q = Some body \<and> Header q ''Content-Type'' = Some [FormDataContentType boundary]"
proof -
  obtain r1 s1 where n: "newRequest ''POST'' path (StreamReader body) s = Some (r1, s1)" using newRequest_returns by blast
  with newRequest_requests [OF n] assms obtain req where r1: "r1 = Ok req" by (cases r1) auto
  note req = newRequest_requests [OF n, unfolded r1] newRequest_stream [OF n [unfolded r1]]
  define q where "q = req\<lparr>Header := Header_Set ''Content-Type'' (FormDataContentType boundary) (Header req)\<rparr>"
  have once: "\<not> may_retry s1 (accept_json q)" using req by (simp add: may_retry_def replayable_def q_def)
  obtain r s' where run: "doJSON env q (dec_struct (resp_fields @ fs)) zero (Some resp_Err) s1 = Some (r, s')"
    "cl s' = cl s1" "\<forall>msg. r \<noteq> Panic msg"
    using doJSON_once [OF once, of env "dec_struct (resp_fields @ fs)" zero "Some resp_Err"] unfolding settles_def by blast
  have "post_form env boundary path body fs zero s = Some (r, s')"
    using n r1 run(1) by (simp add: post_form_def bindP_def q_def)
  moreover have "requests (trace s') = requests (trace s) @ [with_agent s1 (accept_json q)]"
    using doJSON_once_requests [OF once run(1)] req by simp
  moreover have "Header (with_agent s1 (accept_json q)) ''Content-Type'' = Some [FormDataContentType boundary]"
    by (simp add: with_agent_def accept_json_def Header_Set_def q_def)
  moreover have "Method (with_agent s1 (accept_json q)) = ''POST''" "URL (with_agent s1 (accept_json q)) = baseURL (cl s) @ path"
    "ReqBody (with_agent s1 (accept_json q)) = Some body"
    using req by (simp_all add: with_agent_def q_def)
  ultimately show ?thesis using run(2,3) req
    by (intro exI [of _ r] exI [of _ s'] exI [of _ "with_agent s1 (accept_json q)"]) simp
qed

end
