(* ===== verification/Attachments.thy ===== *)
theory Attachments
  imports Calls Multipart
begin

text \<open>
  attachments.go: the session key of an attachment, its encryption and decryption, and the two
  calls that stream, a download whose body is handed to the caller and a multipart upload.
\<close>

record AttachmentKey =
  akID :: string
  akKey :: string
  akAlgo :: string

section \<open>The key\<close>

record att_state =
  attachment :: Attachment
  attRand :: bytes

type_synonym 'a att_prog = "(att_state, error, 'a) prog"

definition att_rand :: "(bytes, error, 'a) prog \<Rightarrow> 'a att_prog" where
  "att_rand m s = (case m (attRand s) of None \<Rightarrow> None | Some (r, rd) \<Rightarrow> Some (r, s\<lparr>attRand := rd\<rparr>))"

definition no_attachment_key :: "('q, 'p, 's) pgp \<Rightarrow> ('q, 'p, 's) pgp_entity \<Rightarrow> error" where
  "no_attachment_key lib pub =
     Opaque (''cannot encrypt an attachment to key id '' @ FormatUint16 (pubKeyId lib (PrimaryKey pub)) @
             '' because it has no encryption keys'')"

text \<open>The loop over the recipients: what it writes into the one base64 encoder.\<close>

fun key_packets ::
  "('q, 'p, 's) pgp \<Rightarrow> int \<Rightarrow> EncryptedKey \<Rightarrow> ('q, 'p, 's) pgp_entity list \<Rightarrow> (bytes, error, bytes) prog" where
  "key_packets lib now key [] = returnP []"
| "key_packets lib now key (pub # to) =
     bindP (liftP (encryptionKey lib pub now)) (\<lambda>found.
       case found of
         None \<Rightarrow> raiseP (no_attachment_key lib pub)
       | Some encKey \<Rightarrow>
           bindP (\<lambda>rd. case SerializeEncryptedKey lib (kPublicKey encKey) (ekCipherFunc key) (ekKey key) rd of
                    (Inl e, rd') \<Rightarrow> Some (Err e, rd')
                  | (Inr packet, rd') \<Rightarrow> Some (Ok packet, rd')) (\<lambda>packet.
           bindP (key_packets lib now key to) (\<lambda>packets.
           returnP (packet @ packets))))"

definition GenerateKey ::
  "('q, 'p, 's) pgp \<Rightarrow> int \<Rightarrow> ('q, 'p, 's) pgp_entity list \<Rightarrow> EncryptedKey att_prog" where
  "GenerateKey lib now to =
     bindP (att_rand (generateUnencryptedKey lib CipherAES256)) (\<lambda>key.
     bindP (att_rand (key_packets lib now key to)) (\<lambda>packets.
     bindP (modifyP (\<lambda>s. s\<lparr>attachment := (attachment s)\<lparr>unencryptedKey := Some key, attKeyPackets := b64_encode packets\<rparr>\<rparr>)) (\<lambda>_.
     returnP key)))"

section \<open>Encrypting and reading\<close>

definition Attachment_Encrypt ::
  "('q, 'p, 's) pgp \<Rightarrow> Attachment \<Rightarrow> ('q, 'p, 's) pgp_entity option \<Rightarrow> error + 'p sym_writer" where
  "Attachment_Encrypt lib att signer =
     (case unencryptedKey att of
        None \<Rightarrow> Inl (Opaque ''cannot encrypt attachment: no attachment key available'')
      | Some key \<Rightarrow>
          symetricallyEncrypt lib key None (Some \<lparr>IsBinary = True, FileName = attName att, ModTime = None\<rparr>))"

text \<open>A base64 decoder as a reader: the whole quanta before the first bad one, then the error.\<close>

fun b64_good :: "string \<Rightarrow> bytes" where
  "b64_good (p # q # r # s # rest) =
     (case b64_quads [p, q, r, s] of
        None \<Rightarrow> []
      | Some bs \<Rightarrow> if s = CHR ''='' then bs else bs @ b64_good rest)"
| "b64_good _ = []"

definition base64_NewDecoder :: "string \<Rightarrow> reader" where
  "base64_NewDecoder s =
     (case b64_decode s of
        Some bs \<Rightarrow> strings_NewReader (string_of bs)
      | None \<Rightarrow> [(string_of (b64_good [c \<leftarrow> s. c \<noteq> CHR 0x0D \<and> c \<noteq> CHR 0x0A]),
                  Some (ReadError (Opaque ''illegal base64 data'')))])"

text \<open>\<open>io.MultiReader\<close> of two readers: the second follows the end of the first, but not its error.\<close>

fun MultiReader :: "reader \<Rightarrow> reader \<Rightarrow> reader" where
  "MultiReader [] r2 = r2"
| "MultiReader ((d, e) # r1) r2 =
     (case e of
        None \<Rightarrow> (d, None) # MultiReader r1 r2
      | Some EOF \<Rightarrow> (d, None) # r2
      | Some (ReadError x) \<Rightarrow> (d, Some (ReadError x)) # r1)"

definition Attachment_Read ::
  "('q, 'p, 's) pgp_io \<Rightarrow> Attachment \<Rightarrow> reader \<Rightarrow> ('q, 'p, 's) pgp_entity list \<Rightarrow> error + ('q, 'p, 's) details \<times> reader" where
  "Attachment_Read lib att ciphertext keyring =
     (if length (attKeyPackets att) = 0 then Inr (zero_details, ciphertext)
      else ReadPGP lib (read_all (MultiReader (base64_NewDecoder (attKeyPackets att)) ciphertext)) keyring)"

section \<open>Downloading\<close>

text \<open>The body that is returned is open: its name and what it holds.\<close>

definition GetAttachment :: "('w, 'k) env \<Rightarrow> string \<Rightarrow> ('w, 'k, nat \<times> string) io" where
  "GetAttachment env i =
     bindP (newRequest ''GET'' (''/attachments/'' @ i) NilBody) (\<lambda>req.
     bindP (do_request env req) (\<lambda>r.
       if go_div (rStatusCode r) 100 \<noteq> 2 then
         (let body = take drain_cap (rContent r) in
          bindP (modifyP (drainAndClose (Some (bodyId r, drop drain_cap (rContent r))))) (\<lambda>_.
          raiseP (HTTPErr (Some \<lparr>StatusCode = rStatusCode r, Status = rStatus r, Body = body\<rparr>))))
       else returnP (bodyId r, rContent r)))"

section \<open>Uploading\<close>

text \<open>The goroutine of \<open>CreateAttachment\<close>, up to the error with which it closes the pipe.\<close>

definition write_attachment :: "Attachment \<Rightarrow> reader \<Rightarrow> multipart_writer \<Rightarrow> error option \<times> multipart_writer" where
  "write_attachment att r w =
     mw_then (WriteField ''Filename'' (attName att) w) (\<lambda>w.
     mw_then (WriteField ''MessageID'' (attMessageID att) w) (\<lambda>w.
     mw_then (WriteField ''MIMEType'' (attMIMEType att) w) (\<lambda>w.
     mw_then (if attContentID att \<noteq> '''' then WriteField ''ContentID'' (attContentID att) w else (None, w)) (\<lambda>w.
     mw_then (in_part (file_header ''KeyPackets'' ''KeyPackets.pgp'')
                (copy_part (base64_NewDecoder (attKeyPackets att))) w) (\<lambda>w.
     mw_then (in_part (file_header ''DataPacket'' ''DataPacket.pgp'') (copy_part r) w) (\<lambda>w.
     mw_Close None w))))))"

record attachment_resp = resp +
  atrAttachment :: "Attachment option"

definition attachment_resp_fields :: "attachment_resp fields" where
  "attachment_resp_fields =
     [field ''Attachment'' atrAttachment atrAttachment_update (dec_pointer (dec_struct Attachment_fields) zero_Attachment)]"

definition zero_attachment_resp :: attachment_resp where
  "zero_attachment_resp = \<lparr>RespCode = 0, RawAPIError = None, atrAttachment = None\<rparr>"

text \<open>
  The transport reads the pipe while the goroutine writes: the request's body is what the
  goroutine writes, and \<open>net\<close> is the network for a body that ends the way this one does.  A
  nil attachment panics in the goroutine.
\<close>

definition CreateAttachment ::
  "(body_end \<Rightarrow> ('w, 'k) env) \<Rightarrow> string \<Rightarrow> Attachment option \<Rightarrow> reader \<Rightarrow> ('w, 'k, Attachment option) io" where
  "CreateAttachment net boundary att r =
     (case att of
        None \<Rightarrow> panicP ''nil pointer dereference''
      | Some a \<Rightarrow>
          (let (e, w) = write_attachment a r (multipart_NewWriter boundary) in
           bindP (post_form (net (body_end_of e)) boundary ''/attachments'' (mwBody w)
                    attachment_resp_fields zero_attachment_resp) (\<lambda>respData.
           returnP (atrAttachment respData))))"

section \<open>The generated key\<close>

text \<open>What a recipient gets: the session key under his chosen key.\<close>

definition packet_for ::
  "('q, 'p, 's) pgp \<Rightarrow> int \<Rightarrow> EncryptedKey \<Rightarrow> ('q, 'p, 's) pgp_entity \<Rightarrow> bytes \<Rightarrow> bool" where
  "packet_for lib now key pub p \<longleftrightarrow>
     (\<exists>k rd rd'. encryptionKey lib pub now = Ok (Some k) \<and>
        SerializeEncryptedKey lib (kPublicKey k) (ekCipherFunc key) (ekKey key) rd = (Inr p, rd'))"

lemma key_packets_spec:
  assumes "key_packets lib now key to rd = Some (Ok b, rd')"
  shows "\<exists>ps. b = concat ps \<and> list_all2 (packet_for lib now key) to ps"
  using assms
proof (induction to arbitrary: b rd rd')
  case Nil
  then show ?case by (simp add: returnP_def)
next
  case (Cons pub to)
  from Cons.prems obtain k p rd1 c rd2 where k: "encryptionKey lib pub now = Ok (Some k)"
    and p: "SerializeEncryptedKey lib (kPublicKey k) (ekCipherFunc key) (ekKey key) rd = (Inr p, rd1)"
    and rest: "key_packets lib now key to rd1 = Some (Ok c, rd2)" and b: "b = p @ c"
    by (cases "encryptionKey lib pub now")
       (auto simp: bindP_Some_Ok raiseP_def panicP_def returnP_def liftP_def split: option.splits prod.splits sum.splits)
  from Cons.IH [OF rest] obtain ps where "c = concat ps" "list_all2 (packet_for lib now key) to ps" by blast
  moreover have "packet_for lib now key pub p" using k p unfolding packet_for_def by blast
  ultimately show ?case using b by (intro exI [of _ "p # ps"]) simp
qed

lemma GenerateKey_Ok:
  assumes "GenerateKey lib now to s = Some (Ok key, s')"
  shows "\<exists>ps. list_all2 (packet_for lib now key) to ps \<and> ekCipherFunc key = CipherAES256 \<and>
     ekKey key = take (KeySize lib CipherAES256) (attRand s) \<and> length (ekKey key) = KeySize lib CipherAES256 \<and>
     attachment s' = (attachment s)\<lparr>unencryptedKey := Some key, attKeyPackets := b64_encode (concat ps)\<rparr>"
proof -
  from assms obtain rd1 b rd2 where
    key: "generateUnencryptedKey lib CipherAES256 (attRand s) = Some (Ok key, rd1)" and
    b: "key_packets lib now key to rd1 = Some (Ok b, rd2)"
    and s': "s' = s\<lparr>attRand := rd2, attachment := (attachment s)\<lparr>unencryptedKey := Some key, attKeyPackets := b64_encode b\<rparr>\<rparr>"
    by (auto simp: GenerateKey_def bindP_Some_Ok att_rand_def returnP_def modifyP_def split: option.splits prod.splits)
  from key_packets_spec [OF b] obtain ps where "b = concat ps" "list_all2 (packet_for lib now key) to ps" by blast
  with key s' show ?thesis
    by (intro exI [of _ ps]) (auto simp: generateUnencryptedKey_def Let_def split: if_splits)
qed

lemma GenerateKey_fails:
  assumes "GenerateKey lib now to s = Some (r, s')" and "\<And>key. r \<noteq> Ok key"
  shows "attachment s' = attachment s"
  using assms
  by (auto simp: GenerateKey_def bindP_def att_rand_def returnP_def modifyP_def split: option.splits prod.splits outcome.splits)

text \<open>
  A generated key is fresh, held by the attachment and, for each recipient in order,
  serialized under the key chosen for him: the packets decode to exactly these.  A recipient
  without an encryption key, or any other error, leaves the attachment as it was.
\<close>

theorem GenerateKey_spec:
  assumes "GenerateKey lib now to s = Some (r, s')"
  shows "case r of
     Ok key \<Rightarrow> ekCipherFunc key = CipherAES256 \<and> ekKey key = take (KeySize lib CipherAES256) (attRand s) \<and>
        unencryptedKey (attachment s') = Some key \<and>
        (\<exists>ps. b64_decode (attKeyPackets (attachment s')) = Some (concat ps) \<and> list_all2 (packet_for lib now key) to ps) \<and>
        attachment s' = (attachment s)\<lparr>unencryptedKey := Some key, attKeyPackets := attKeyPackets (attachment s')\<rparr>
   | _ \<Rightarrow> attachment s' = attachment s"
proof (cases r)
  case (Ok key)
  from GenerateKey_Ok [OF assms [unfolded Ok]] show ?thesis unfolding Ok by auto
qed (use GenerateKey_fails [OF assms] in simp_all)

section \<open>Encrypted and read back\<close>

lemma read_all_MultiReader:
  "read_all (MultiReader r1 r2) =
     (case read_all r1 of (d, Some x) \<Rightarrow> (d, Some x) | (d, None) \<Rightarrow> (d @ fst (read_all r2), snd (read_all r2)))"
proof (induction r1)
  case (Cons x r1)
  obtain d e where "x = (d, e)" by (cases x)
  moreover have "e = None \<or> e = Some EOF \<or> (\<exists>y. e = Some (ReadError y))"
    by (cases e) (auto intro: read_end.exhaust)
  ultimately show ?case using Cons by (auto simp: Let_def split: prod.splits option.splits)
qed simp

lemma Attachment_Encrypt_run:
  assumes "Attachment_Encrypt lib att signer = Inr w" and "sym_run lib ds w = (None, w')"
  obtains key h where "unencryptedKey att = Some key" "swKey w' = key" "lhIsBinary h" "lhFileName h = attName att"
    "swItems w' = ItemLiteral h # map ItemData ds @ [ItemLiteralEnd, ItemEnd]"
proof -
  from assms(1) obtain key where key: "unencryptedKey att = Some key"
    "symetricallyEncrypt lib key None (Some \<lparr>IsBinary = True, FileName = attName att, ModTime = None\<rparr>) = Inr w"
    by (auto simp: Attachment_Encrypt_def split: option.splits)
  from symetricallyEncrypt_start [OF key(2)] obtain h where h: "swKey w = key" "swSigner w = None" "swHashed w = ''''"
    "swItems w = [ItemLiteral h]" "lhIsBinary h" "lhFileName h = attName att"
    by auto
  then have "ItemEnd \<notin> set (swItems w)" by simp
  from sym_run_spec [OF assms(2) this] h key that show ?thesis by (auto simp: trailer_def)
qed

text \<open>
  C20.  An attachment comes back: what is written to its encrypting writer after
  \<open>GenerateKey\<close>, in any chunks, is what \<open>Read\<close> delivers from the ciphertext that this writer
  made, under its own session key, in whatever chunks that arrives.  Of OpenPGP it takes one
  law, for every session key: key packets that hold it, followed by data sealed under the same
  key, open to that data for the key ring of the reader.  But an attachment whose key was
  generated for nobody has no key packets, and \<open>Read\<close> hands out the ciphertext as if it were
  the data.
\<close>

theorem attachment_roundtrip:
  assumes "GenerateKey lib now to s = Some (Ok key, s')"
    and "Attachment_Encrypt lib (attachment s') signer = Inr w" and "sym_run lib ds w = (None, w')"
    and "read_all ciphertext = (string_of (Seal lib (swKey w') (swItems w')), None)"
    and opens: "\<And>k ps h data. to \<noteq> [] \<Longrightarrow> ekCipherFunc k = CipherAES256 \<Longrightarrow> length (ekKey k) = KeySize lib CipherAES256 \<Longrightarrow>
        list_all2 (packet_for lib now k) to ps \<Longrightarrow> lhIsBinary h \<Longrightarrow>
        \<exists>md body. ReadPGP io (string_of (concat ps @ Seal lib k (ItemLiteral h # map ItemData data @ [ItemLiteralEnd, ItemEnd])), None)
            keyring = Inr (md, body) \<and> read_all body = (concat data, None)"
    and packets: "\<And>k pub p. packet_for lib now k pub p \<Longrightarrow> ekKey k \<noteq> [] \<Longrightarrow> p \<noteq> []"
    and "0 < KeySize lib CipherAES256"
  shows "if to = [] then Attachment_Read io (attachment s') ciphertext keyring = Inr (zero_details, ciphertext)
     else \<exists>md body. Attachment_Read io (attachment s') ciphertext keyring = Inr (md, body) \<and> read_all body = (concat ds, None)"
proof -
  from GenerateKey_Ok [OF assms(1)] obtain ps where ps: "list_all2 (packet_for lib now key) to ps"
    and att: "attKeyPackets (attachment s') = b64_encode (concat ps)" "unencryptedKey (attachment s') = Some key"
    and key: "ekCipherFunc key = CipherAES256" "length (ekKey key) = KeySize lib CipherAES256"
    by auto
  obtain k h where k: "unencryptedKey (attachment s') = Some k" "swKey w' = k" and h: "lhIsBinary h"
    and items: "swItems w' = ItemLiteral h # map ItemData ds @ [ItemLiteralEnd, ItemEnd]"
    by (rule Attachment_Encrypt_run [OF assms(2,3)])
  then have swKey: "swKey w' = key" using att(2) by simp
  show ?thesis
  proof (cases to)
    case Nil
    with ps have "ps = []" by simp
    with att Nil show ?thesis by (simp add: Attachment_Read_def)
  next
    case (Cons pub to')
    with ps obtain p ps' where "ps = p # ps'" "packet_for lib now key pub p" by (cases ps) auto
    moreover have "ekKey key \<noteq> []" using key(2) assms(7) by auto
    ultimately have "concat ps \<noteq> []" using packets by auto
    then have "attKeyPackets (attachment s') \<noteq> ''''"
      using att(1) b64_decode_encode [of "concat ps"] by (auto simp: b64_decode_def)
    moreover have "read_all (MultiReader (base64_NewDecoder (attKeyPackets (attachment s'))) ciphertext) =
        (string_of (concat ps @ Seal lib key (swItems w')), None)"
      using att(1) assms(4) swKey by (simp add: read_all_MultiReader base64_NewDecoder_def string_of_def)
    ultimately show ?thesis using opens [OF _ key ps h, of ds] Cons items by (simp add: Attachment_Read_def)
  qed
qed

section \<open>Bodies of downloads\<close>

context tidy_env
begin

lemma GetAttachment_books:
  assumes "GetAttachment env i s = Some (r, s')" and "books_ok s"
  shows "books_ok s' \<and> (case r of
     Ok (n, content) \<Rightarrow> n \<notin> still_open s \<and> still_open s' = insert n (still_open s)
   | _ \<Rightarrow> still_open s' = still_open s)"
proof -
  obtain r1 s1 where n: "newRequest ''GET'' (''/attachments/'' @ i) NilBody s = Some (r1, s1)" using newRequest_returns by blast
  then have 1: "books_ok s1" "still_open s1 = still_open s"
    using newRequest_books [OF n] assms(2) by (auto simp: books_quiet)
  show ?thesis
  proof (cases r1)
    case (Ok req)
    then obtain r2 s2 where run: "do_request env req s1 = Some (r2, s2)"
      using assms(1) n by (auto simp: GetAttachment_def bindP_def split: option.splits)
    note b = request_books [OF run 1(1)]
    show ?thesis
    proof (cases r2)
      case (Ok resp)
      let ?d = "emit [BodyDrain (bodyId resp) (min drain_cap (length (drop drain_cap (rContent resp)))), BodyClose (bodyId resp)] s2"
      have open2: "books_ok s2" "bodyId resp \<in> still_open s2" "still_open s2 - {bodyId resp} = still_open s"
        "bodyId resp \<notin> still_open s" "still_open s2 = insert (bodyId resp) (still_open s)"
        using b 1(2) Ok by auto
      have "books_ok ?d" "still_open ?d = still_open s2 - {bodyId resp}"
        by (rule books_close [OF open2(1,2)]; simp)+
      with open2 n run \<open>r1 = Ok req\<close> Ok assms(1) show ?thesis
        by (cases "go_div (rStatusCode resp) 100 = 2")
           (auto simp: GetAttachment_def bindP_def modifyP_def raiseP_def returnP_def drainAndClose_def Let_def)
    qed (use assms(1) n run b 1(2) Ok in \<open>auto simp: GetAttachment_def bindP_def\<close>)
  qed (use assms(1) n 1 in \<open>auto simp: GetAttachment_def bindP_def\<close>)
qed

end

text \<open>
  A download leaves exactly one body open when it succeeds, the one it hands to the
  caller, and none when it fails: then the body was drained and closed before the error is
  returned.
\<close>

theorem GetAttachment_body:
  assumes "\<And>cb t r t'. books_ok t \<Longrightarrow> RunReAuth env cb t = Some (r, t') \<Longrightarrow>
             books_ok t' \<and> still_open t' = still_open t"
    and "books_ok s" and "GetAttachment env i s = Some (r, s')"
  shows "books_ok s' \<and> (case r of
     Ok (n, content) \<Rightarrow> n \<notin> still_open s \<and> still_open s' = insert n (still_open s)
   | _ \<Rightarrow> still_open s' = still_open s)"
  by (rule tidy_env.GetAttachment_books [OF tidy_env.intro, OF assms(1) assms(3,2)])

section \<open>The uploaded form\<close>

definition attachment_form :: "Attachment \<Rightarrow> form" where
  "attachment_form att =
     [(field_header ''Filename'', attName att), (field_header ''MessageID'', attMessageID att),
      (field_header ''MIMEType'', attMIMEType att)] @
     (if attContentID att \<noteq> '''' then [(field_header ''ContentID'', attContentID att)] else [])"

definition key_part :: "Attachment \<Rightarrow> mime_header \<times> string" where
  "key_part att = (file_header ''KeyPackets'' ''KeyPackets.pgp'', fst (read_all (base64_NewDecoder (attKeyPackets att))))"

lemma file_part_holds:
  assumes "holds w ps"
  shows "\<exists>w'. in_part hdr (copy_part r) w = (snd (read_all r), w') \<and> holds w' (ps @ [(hdr, fst (read_all r))]) \<and>
     mwBoundary w' = mwBoundary w"
proof -
  obtain w1 where 1: "CreatePart None hdr w = (Inr (length ps), w1)" using CreatePart_uncut [OF assms] by blast
  have h: "holds w1 (ps @ [(hdr, [])])" "mwBoundary w1 = mwBoundary w"
    using CreatePart_holds [OF 1 assms] by simp_all
  from copy_part_holds [OF h(1), of r] 1 h(2) show ?thesis by (simp add: in_part_def)
qed

lemma write_fields_holds:
  "\<exists>w. mwBoundary w = b \<and> holds w (attachment_form att) \<and>
     write_attachment att r (multipart_NewWriter b) =
       mw_then (in_part (file_header ''KeyPackets'' ''KeyPackets.pgp'')
                  (copy_part (base64_NewDecoder (attKeyPackets att))) w) (\<lambda>w.
       mw_then (in_part (file_header ''DataPacket'' ''DataPacket.pgp'') (copy_part r) w) (mw_Close None))"
proof -
  let ?w0 = "multipart_NewWriter b"
  have b0: "mwBoundary ?w0 = b" by (simp add: multipart_NewWriter_def)
  obtain w1 where 1: "WriteField ''Filename'' (attName att) ?w0 = (None, w1)"
    "holds w1 [(field_header ''Filename'', attName att)]" "mwBoundary w1 = b"
    using WriteField_holds [OF holds_start] b0 by fastforce
  obtain w2 where 2: "WriteField ''MessageID'' (attMessageID att) w1 = (None, w2)"
    "holds w2 [(field_header ''Filename'', attName att), (field_header ''MessageID'', attMessageID att)]" "mwBoundary w2 = b"
    using WriteField_holds [OF 1(2), of "''MessageID''" "attMessageID att"] 1(3) by auto
  obtain w3 where 3: "WriteField ''MIMEType'' (attMIMEType att) w2 = (None, w3)"
    "holds w3 [(field_header ''Filename'', attName att), (field_header ''MessageID'', attMessageID att),
       (field_header ''MIMEType'', attMIMEType att)]" "mwBoundary w3 = b"
    using WriteField_holds [OF 2(2), of "''MIMEType''" "attMIMEType att"] 2(3) by auto
  obtain w4 where 4: "(if attContentID att \<noteq> '''' then WriteField ''ContentID'' (attContentID att) w3 else (None, w3)) = (None, w4)"
    "holds w4 (attachment_form att)" "mwBoundary w4 = b"
  proof (cases "attContentID att = []")
    case True
    with 3 that show ?thesis by (simp add: attachment_form_def)
  next
    case False
    with WriteField_holds [OF 3(2), of "''ContentID''" "attContentID att"] 3 that show ?thesis
      by (auto simp: attachment_form_def)
  qed
  show ?thesis using 1 2 3 4 by (intro exI [of _ w4]) (simp add: write_attachment_def mw_then_def)
qed

lemma write_attachment_spec:
  "\<exists>w. write_attachment att r (multipart_NewWriter b) =
       (case snd (read_all (base64_NewDecoder (attKeyPackets att))) of Some x \<Rightarrow> Some x | None \<Rightarrow> snd (read_all r), w) \<and>
     mwBody w = (case snd (read_all (base64_NewDecoder (attKeyPackets att))) of
        Some x \<Rightarrow> render_open b (attachment_form att @ [key_part att])
      | None \<Rightarrow> (let all = attachment_form att @ [key_part att, (file_header ''DataPacket'' ''DataPacket.pgp'', fst (read_all r))]
                 in if snd (read_all r) = None then render b all else render_open b all))"
proof -
  let ?kp = "base64_NewDecoder (attKeyPackets att)"
  obtain w where w: "mwBoundary w = b" "holds w (attachment_form att)"
    "write_attachment att r (multipart_NewWriter b) =
       mw_then (in_part (file_header ''KeyPackets'' ''KeyPackets.pgp'') (copy_part ?kp) w) (\<lambda>w.
       mw_then (in_part (file_header ''DataPacket'' ''DataPacket.pgp'') (copy_part r) w) (mw_Close None))"
    using write_fields_holds by blast
  obtain w1 where 1: "in_part (file_header ''KeyPackets'' ''KeyPackets.pgp'') (copy_part ?kp) w = (snd (read_all ?kp), w1)"
    "holds w1 (attachment_form att @ [key_part att])" "mwBoundary w1 = b"
    using file_part_holds [OF w(2), of "file_header ''KeyPackets'' ''KeyPackets.pgp''" ?kp] w(1) by (auto simp: key_part_def)
  obtain w2 where 2: "in_part (file_header ''DataPacket'' ''DataPacket.pgp'') (copy_part r) w1 = (snd (read_all r), w2)"
    "holds w2 (attachment_form att @ [key_part att, (file_header ''DataPacket'' ''DataPacket.pgp'', fst (read_all r))])" "mwBoundary w2 = b"
    using file_part_holds [OF 1(2), of "file_header ''DataPacket'' ''DataPacket.pgp''" r] 1(3) by auto
  obtain w3 where 3: "mw_Close None w2 = (None, w3)" using mw_Close_uncut [OF 2(2)] by blast
  have open1: "mwBody w1 = render_open b (attachment_form att @ [key_part att])"
    using 1 by (simp add: holds_def)
  have open2: "mwBody w2 = render_open b (attachment_form att @ [key_part att, (file_header ''DataPacket'' ''DataPacket.pgp'', fst (read_all r))])"
    using 2 by (simp add: holds_def)
  have all: "mwBody w3 = render b (attachment_form att @ [key_part att, (file_header ''DataPacket'' ''DataPacket.pgp'', fst (read_all r))])"
    using mw_Close_holds [OF 3 2(2)] 2(3) by simp
  show ?thesis
    by (cases "snd (read_all ?kp)"; cases "snd (read_all r)")
       (simp_all add: w(3) 1(1) 2(1) 3 mw_then_def open1 open2 all Let_def)
qed

text \<open>
  An upload is one request, which is never repeated since its body is a pipe, and which
  always comes to an end: its body is the form of the attachment, field by field, with the
  decoded key packets and the data.  When the key packets are not base64, or reading the data
  fails, the form breaks off without its closing delimiter and the pipe ends in that error.
\<close>

theorem CreateAttachment_upload:
  assumes "url_parse (baseURL (cl s) @ ''/attachments'') \<noteq> None"
  shows "\<exists>x s' q. CreateAttachment net b (Some att) r s = Some (x, s') \<and> cl s' = cl s \<and>
     requests (trace s') = requests (trace s) @ [q] \<and> Method q = ''POST'' \<and>
     URL q = baseURL (cl s) @ ''/attachments'' \<and> Header q ''Content-Type'' = Some [FormDataContentType b] \<and>
     (let all = attachment_form att @ [key_part att, (file_header ''DataPacket'' ''DataPacket.pgp'', fst (read_all r))] in
      case b64_decode (attKeyPackets att) of
        None \<Rightarrow> ReqBody q = Some (render_open b (attachment_form att @ [key_part att]))
      | Some bs \<Rightarrow> snd (key_part att) = string_of bs \<and>
          ReqBody q = Some (if snd (read_all r) = None then render b all else render_open b all))"
proof -
  obtain e w where w: "write_attachment att r (multipart_NewWriter b) = (e, w)" by (cases "write_attachment att r (multipart_NewWriter b)")
  obtain y s' q where call: "post_form (net (body_end_of e)) b ''/attachments'' (mwBody w) attachment_resp_fields zero_attachment_resp s = Some (y, s')"
    "cl s' = cl s" "\<forall>msg. y \<noteq> Panic msg" "requests (trace s') = requests (trace s) @ [q]" "Method q = ''POST''"
    "URL q = baseURL (cl s) @ ''/attachments''" "ReqBody q = Some (mwBody w)" "Header q ''Content-Type'' = Some [FormDataContentType b]"
    using post_form_once [OF assms, of "net (body_end_of e)" b "mwBody w" attachment_resp_fields zero_attachment_resp] by blast
  then obtain x where "CreateAttachment net b (Some att) r s = Some (x, s')"
    using w by (cases y) (auto simp: CreateAttachment_def bindP_def returnP_def)
  moreover have "let all = attachment_form att @ [key_part att, (file_header ''DataPacket'' ''DataPacket.pgp'', fst (read_all r))] in
      case b64_decode (attKeyPackets att) of
        None \<Rightarrow> ReqBody q = Some (render_open b (attachment_form att @ [key_part att]))
      | Some bs \<Rightarrow> snd (key_part att) = string_of bs \<and>
          ReqBody q = Some (if snd (read_all r) = None then render b all else render_open b all)"
    using write_attachment_spec [of att r b] w call(7)
    by (auto simp: base64_NewDecoder_def key_part_def Let_def split: option.splits)
  ultimately show ?thesis using call by blast
qed

section \<open>Witnesses\<close>

lemma toy_encryption_key_att: "encryptionKey toy_pgp toy_entity 100 = Ok (Some (entitySubkeyToKey toy_entity (toy_subkey 4 20)))"
  by (rule toy_encryption_key)

definition toy_attachment :: Attachment where
  "toy_attachment = zero_Attachment\<lparr>attName := ''a.txt'', attMessageID := ''m''\<rparr>"

definition toy_att_key :: EncryptedKey where
  "toy_att_key = \<lparr>ekCipherFunc = CipherAES256, ekKey = [1, 2]\<rparr>"

lemma toy_GenerateKey:
  "GenerateKey toy_pgp 100 [toy_entity] \<lparr>attachment = toy_attachment, attRand = [1, 2, 3]\<rparr> =
     Some (Ok toy_att_key, \<lparr>attachment = toy_attachment\<lparr>unencryptedKey := Some toy_att_key, attKeyPackets := b64_encode [1, 2]\<rparr>,
       attRand = [3]\<rparr>)"
proof -
  have "generateUnencryptedKey toy_pgp CipherAES256 [1, 2, 3] = Some (Ok toy_att_key, [3])"
    by (simp add: generateUnencryptedKey_def toy_pgp_def toy_att_key_def numeral_eq_Suc)
  then show ?thesis
    by (simp add: GenerateKey_def att_rand_def bindP_def returnP_def modifyP_def liftP_def toy_encryption_key toy_att_key_def)
qed

lemma GenerateKey_spec_witness:
  "\<exists>s'. GenerateKey toy_pgp 100 [toy_entity] \<lparr>attachment = toy_attachment, attRand = [1, 2, 3]\<rparr> = Some (Ok toy_att_key, s') \<and>
     (\<exists>ps. b64_decode (attKeyPackets (attachment s')) = Some (concat ps) \<and> list_all2 (packet_for toy_pgp 100 toy_att_key) [toy_entity] ps)"
  using GenerateKey_spec [OF toy_GenerateKey] toy_GenerateKey by auto

text \<open>A library whose packets are the session key itself, and that opens what is sealed under that key.\<close>

definition toy_reader :: "(nat, nat, unit) pgp_io" where
  "toy_reader = toy_io\<lparr>ReadPGP := (\<lambda>(s, err) keyring.
     if take 2 s = take 2 (drop 2 s) then Inr (zero_details, strings_NewReader (drop 4 s)) else Inl (Opaque ''no key''))\<rparr>"

lemma toy_seal: "Seal toy_pgp k (ItemLiteral h # map ItemData data @ [ItemLiteralEnd, ItemEnd]) = ekKey k @ bytes_of (concat data)"
proof -
  have "data_in (map ItemData data @ rest) = concat data @ data_in rest" for rest
    by (induction data) simp_all
  then show ?thesis by (simp add: toy_pgp_def)
qed

lemma attachment_roundtrip_witness:
  "\<exists>w w' ciphertext md body.
     Attachment_Encrypt toy_pgp (toy_attachment\<lparr>unencryptedKey := Some toy_att_key, attKeyPackets := b64_encode [1, 2]\<rparr>) None = Inr w \<and>
     sym_run toy_pgp [''he'', ''llo''] w = (None, w') \<and>
     Attachment_Read toy_reader (toy_attachment\<lparr>unencryptedKey := Some toy_att_key, attKeyPackets := b64_encode [1, 2]\<rparr>) ciphertext
       [toy_entity] = Inr (md, body) \<and> read_all body = (''hello'', None)"
proof -
  let ?att = "toy_attachment\<lparr>unencryptedKey := Some toy_att_key, attKeyPackets := b64_encode [1, 2]\<rparr>"
  let ?s' = "\<lparr>attachment = ?att, attRand = [3 :: 8 word]\<rparr>"
  obtain w where w: "Attachment_Encrypt toy_pgp (attachment ?s') None = Inr w"
    by (simp add: Attachment_Encrypt_def symetricallyEncrypt_def then_write_def)
  have "swSigner w = None" using w
    by (auto simp: Attachment_Encrypt_def symetricallyEncrypt_def then_write_def)
  then obtain w' where w': "sym_run toy_pgp [''he'', ''llo''] w = (None, w')"
    by (simp add: sym_Write_def sym_Close_def then_write_def)
  let ?c = "strings_NewReader (string_of (Seal toy_pgp (swKey w') (swItems w')))"
  have c: "read_all ?c = (string_of (Seal toy_pgp (swKey w') (swItems w')), None)" by simp
  have pk: "p = ekKey k" if "packet_for toy_pgp 100 k pub p" for k pub p
    using that by (auto simp: packet_for_def)
  have opens: "\<exists>md body. ReadPGP toy_reader (string_of (concat ps @ Seal toy_pgp k
        (ItemLiteral h # map ItemData data @ [ItemLiteralEnd, ItemEnd])), None) [toy_entity] = Inr (md, body) \<and>
      read_all body = (concat data, None)"
    if len: "length (ekKey k) = KeySize toy_pgp CipherAES256" and ps: "list_all2 (packet_for toy_pgp 100 k) [toy_entity] ps" for k ps h data
  proof -
    from ps obtain z where "ps = [z]" "packet_for toy_pgp 100 k toy_entity z" by (auto simp: list_all2_Cons1)
    with pk have "concat ps = ekKey k" by auto
    moreover obtain x y where "ekKey k = [x, y]" using len by (auto simp: toy_pgp_def length_Suc_conv numeral_eq_Suc)
    moreover have "map (\<lambda>w. char_of (unat w)) (bytes_of d) = d" for d
      using string_of_bytes_of [of d] by (simp add: string_of_def)
    ultimately show ?thesis by (simp add: toy_reader_def toy_seal string_of_def)
  qed
  have nonempty: "p \<noteq> []" if "packet_for toy_pgp 100 k pub p" "ekKey k \<noteq> []" for k pub p using pk [OF that(1)] that(2) by simp
  have size: "0 < KeySize toy_pgp CipherAES256" by (simp add: toy_pgp_def)
  have "if [toy_entity] = [] then Attachment_Read toy_reader (attachment ?s') ?c [toy_entity] = Inr (zero_details, ?c)
     else \<exists>md body. Attachment_Read toy_reader (attachment ?s') ?c [toy_entity] = Inr (md, body) \<and>
       read_all body = (concat [''he'', ''llo''], None)"
    by (rule attachment_roundtrip [OF toy_GenerateKey w w' c _ _ size]) (rule opens nonempty; assumption)+
  with w w' show ?thesis unfolding att_state.select_convs by auto
qed

end
