(* ===== verification/Importer.thy ===== *)
theory Importer
  imports Attachments
begin

text \<open>
  import.go: the importer that streams a batch of messages as one multipart request.  The caller
  writes into a pipe while a goroutine of \<open>Import\<close> sends the request that reads from it; their
  interleaving is a step relation.
\<close>

section \<open>Results\<close>

record ImportMessageResult =
  imrErr :: "error option"
  imrMessageID :: string

text \<open>The map, in the order in which a loop goes over it.\<close>

type_synonym ImportResult = "(string \<times> ImportMessageResult) list"

fun ImportResult_Err :: "ImportResult \<Rightarrow> error option" where
  "ImportResult_Err [] = None"
| "ImportResult_Err ((key, msgRes) # res) =
     (if imrErr msgRes \<noteq> None then imrErr msgRes else ImportResult_Err res)"

record import_message_resp = resp +
  imMessageID :: string

record messageResp =
  msName :: string
  msResponse :: import_message_resp

record import_resp = resp +
  irResponses :: "messageResp list option"

definition zero_import_message_resp :: import_message_resp where
  "zero_import_message_resp = \<lparr>RespCode = 0, RawAPIError = None, imMessageID = ''''\<rparr>"

definition messageResp_fields :: "messageResp fields" where
  "messageResp_fields =
     [field ''Name'' msName msName_update dec_string,
      field ''Response'' msResponse msResponse_update
        (dec_struct (resp_fields @ [field ''MessageID'' imMessageID imMessageID_update dec_string]))]"

definition import_resp_fields :: "import_resp fields" where
  "import_resp_fields =
     [field ''Responses'' irResponses irResponses_update
        (dec_slice (dec_struct messageResp_fields) \<lparr>msName = '''', msResponse = zero_import_message_resp\<rparr>)]"

definition zero_import_resp :: import_resp where
  "zero_import_resp = \<lparr>RespCode = 0, RawAPIError = None, irResponses = None\<rparr>"

definition import_results :: "import_resp \<Rightarrow> ImportResult" where
  "import_results respData =
     foldl (\<lambda>res msgData. AList.update (msName msgData)
         \<lparr>imrErr = resp_Err (msResponse msgData), imrMessageID = imMessageID (msResponse msgData)\<rparr> res) []
       (case irResponses respData of None \<Rightarrow> [] | Some rs \<Rightarrow> rs)"

section \<open>The importer\<close>

text \<open>
  \<open>impDone\<close> and \<open>impResult\<close> are what the goroutine has put into its two channels;
  \<open>impWaiting\<close> is a \<open>Commit\<close> that waits for them.
\<close>

record Importer =
  impWriter :: multipart_writer
  impUploaded :: "(string \<times> bool) list"
  impClosed :: bool
  impDone :: "error option option"
  impResult :: "ImportResult option"
  impWaiting :: bool

text \<open>
  \<open>%q\<close>: a byte that is part of no sequence is written as its number, a rune beyond ASCII is taken
  for printable and kept.
\<close>

definition quote_byte :: "char \<Rightarrow> string" where
  "quote_byte c =
     (let n = of_char c :: nat in
      if c = CHR 0x22 \<or> c = CHR 0x5C then [CHR 0x5C, c]
      else if n = 7 then [CHR 0x5C, CHR ''a''] else if n = 8 then [CHR 0x5C, CHR ''b'']
      else if n = 9 then [CHR 0x5C, CHR ''t''] else if n = 10 then [CHR 0x5C, CHR ''n'']
      else if n = 11 then [CHR 0x5C, CHR ''v''] else if n = 12 then [CHR 0x5C, CHR ''f'']
      else if n = 13 then [CHR 0x5C, CHR ''r'']
      else if n < 32 \<or> n = 127 then [CHR 0x5C, CHR ''x'', lower_hex (n div 16), lower_hex (n mod 16)]
      else [c])"

function quote_runes :: "string \<Rightarrow> string" where
  "quote_runes [] = []"
| "quote_runes (a # s) =
     (let k = rune_size (a # s); n = of_char a :: nat
      in if k = 0 then [CHR 0x5C, CHR ''x'', lower_hex (n div 16), lower_hex (n mod 16)] @ quote_runes s
         else if k = 1 then quote_byte a @ quote_runes s
         else take k (a # s) @ quote_runes (drop (k - 1) s))"
  by pat_completeness auto
termination by (relation "measure length") auto

definition Quote :: "string \<Rightarrow> string" where
  "Quote s = [CHR 0x22] @ quote_runes s @ [CHR 0x22]"

definition unknown_message :: "string \<Rightarrow> error" where
  "unknown_message key = Opaque (''protonmail: unknown import message '' @ Quote key)"

definition already_imported :: "string \<Rightarrow> error" where
  "already_imported key = Opaque (''protonmail: message '' @ Quote key @ '' already imported'')"

definition not_imported :: "string \<Rightarrow> error" where
  "not_imported key = Opaque (''protonmail: message '' @ Quote key @ '' has not been imported'')"

definition message_header :: "string \<Rightarrow> mime_header" where
  "message_header key =
     [(''Content-Disposition'', FormatMediaType_form [(''name'', key), (''filename'', key @ ''.eml'')]),
      (''Content-Type'', ''message/rfc822'')]"

definition metadata_header :: mime_header where
  "metadata_header =
     [(''Content-Disposition'', FormatMediaType_form [(''name'', ''Metadata'')]),
      (''Content-Type'', ''application/json'')]"

definition ImportMessage :: "nat option \<Rightarrow> string \<Rightarrow> Importer \<Rightarrow> (error + nat) \<times> Importer" where
  "ImportMessage stop key imp =
     (case map_of (impUploaded imp) key of
        None \<Rightarrow> (Inl (unknown_message key), imp)
      | Some True \<Rightarrow> (Inl (already_imported key), imp)
      | Some False \<Rightarrow>
          (let (r, w) = CreatePart stop (message_header key) (impWriter imp)
           in (r, imp\<lparr>impUploaded := AList.update key True (impUploaded imp), impWriter := w\<rparr>)))"

definition close_importer :: "nat option \<Rightarrow> Importer \<Rightarrow> error option \<times> Importer" where
  "close_importer stop imp =
     (if impClosed imp then (Some (Sentinel ErrImporterClosed), imp)
      else case mw_Close stop (impWriter imp) of
        (Some e, w) \<Rightarrow> (Some e, imp\<lparr>impClosed := True, impWriter := w\<rparr>)
      | (None, w) \<Rightarrow> (None, imp\<lparr>impClosed := True, impWriter := w\<lparr>mwPipe := WriterClosed\<rparr>\<rparr>))"

text \<open>\<open>Commit\<close> up to the point where it waits, and what it returns when the goroutine is done.\<close>

definition Commit :: "nat option \<Rightarrow> Importer \<Rightarrow> error option \<times> Importer" where
  "Commit stop imp =
     (case close_importer stop imp of
        (Some e, imp') \<Rightarrow> (Some e, imp')
      | (None, imp') \<Rightarrow>
          (case find (\<lambda>(key, ok). \<not> ok) (impUploaded imp') of
             Some (key, ok) \<Rightarrow> (Some (not_imported key), imp')
           | None \<Rightarrow> (None, imp'\<lparr>impWaiting := True\<rparr>)))"

definition Commit_receive :: "Importer \<Rightarrow> (error + ImportResult) option" where
  "Commit_receive imp =
     (case impDone imp of
        None \<Rightarrow> None
      | Some (Some e) \<Rightarrow> Some (Inl e)
      | Some None \<Rightarrow> map_option Inr (impResult imp))"

text \<open>
  \<open>Import\<close> up to the first return of the caller's thread.  When the request cannot be made the
  goroutine ends and nobody reads the pipe: the write of the metadata, and with it
  \<open>Import\<close>, never returns.
\<close>

definition metadata_json :: "(string \<times> Message option) list \<Rightarrow> json" where
  "metadata_json metadata = jmap (jptr Message_json) metadata"

definition Import ::
  "string \<Rightarrow> string \<Rightarrow> (string \<times> Message option) list \<Rightarrow> nat option \<Rightarrow> nat option \<Rightarrow> (error + Importer) option" where
  "Import root boundary metadata stop1 stop2 =
     (if url_parse (root @ ''/import'') = None then None
      else case CreatePart stop1 metadata_header (multipart_NewWriter boundary) of
        (Inl e, w) \<Rightarrow> Some (Inl e)
      | (Inr i, w) \<Rightarrow>
          (case part_Write stop2 i (json_encode (metadata_json metadata)) w of
             (Some e, w') \<Rightarrow> Some (Inl e)
           | (None, w') \<Rightarrow>
               Some (Inr \<lparr>impWriter = w', impUploaded = map (\<lambda>(key, m). (key, False)) metadata, impClosed = False,
                          impDone = None, impResult = None, impWaiting = False\<rparr>)))"

text \<open>The goroutine: its one request, with the body as far as it was taken.\<close>

definition import_end :: "pipe \<Rightarrow> body_end" where
  "import_end p = (if p = WriterClosed then Complete else Unread)"

definition import_request ::
  "(body_end \<Rightarrow> ('w, 'k) env) \<Rightarrow> multipart_writer \<Rightarrow> ('w, 'k, import_resp) io" where
  "import_request net w =
     post_form (net (import_end (mwPipe w))) (mwBoundary w) ''/import'' (mwBody w) import_resp_fields zero_import_resp"

definition answered :: "(error, import_resp) outcome \<Rightarrow> Importer \<Rightarrow> Importer" where
  "answered r imp =
     (let w = impWriter imp;
          imp' = imp\<lparr>impWriter := w\<lparr>mwPipe := (if mwPipe w = PipeOpen then ReaderClosed else mwPipe w)\<rparr>\<rparr>
      in case r of
           Ok respData \<Rightarrow> imp'\<lparr>impDone := Some None, impResult := Some (import_results respData)\<rparr>
         | Err e \<Rightarrow> imp'\<lparr>impDone := Some (Some e)\<rparr>
         | Panic msg \<Rightarrow> imp')"

section \<open>Interleavings\<close>

datatype import_event =
    MessageEv string "error + nat"
  | WriteEv nat string "error option"
  | CommitEv "error option"
  | ResultEv "error + ImportResult"
  | AnswerEv
  | HangUpEv

inductive import_step ::
  "(body_end \<Rightarrow> ('w, 'k) env) \<Rightarrow> ('w, 'k) st \<times> Importer \<Rightarrow> import_event \<Rightarrow> ('w, 'k) st \<times> Importer \<Rightarrow> bool"
  for net where
    message: "ImportMessage stop key imp = (r, imp') \<Longrightarrow> import_step net (s, imp) (MessageEv key r) (s, imp')"
  | written: "part_Write stop (Suc i) data (impWriter imp) = (r, w) \<Longrightarrow>
      import_step net (s, imp) (WriteEv (Suc i) data r) (s, imp\<lparr>impWriter := w\<rparr>)"
  | commit: "Commit stop imp = (r, imp') \<Longrightarrow> import_step net (s, imp) (CommitEv r) (s, imp')"
  | receive: "impWaiting imp \<Longrightarrow> Commit_receive imp = Some r \<Longrightarrow>
      import_step net (s, imp) (ResultEv r) (s, imp\<lparr>impWaiting := False\<rparr>)"
  | answer: "impDone imp = None \<Longrightarrow> import_request net (impWriter imp) s = Some (r, s') \<Longrightarrow>
      import_step net (s, imp) AnswerEv (s', answered r imp)"
  | hang_up: "mwPipe (impWriter imp) = PipeOpen \<Longrightarrow>
      import_step net (s, imp) HangUpEv (s, imp\<lparr>impWriter := (impWriter imp)\<lparr>mwPipe := ReaderClosed\<rparr>\<rparr>)"

inductive import_run ::
  "(body_end \<Rightarrow> ('w, 'k) env) \<Rightarrow> ('w, 'k) st \<times> Importer \<Rightarrow> import_event list \<Rightarrow> ('w, 'k) st \<times> Importer \<Rightarrow> bool"
  for net where
    start: "import_run net x [] x"
  | step: "import_run net x es y \<Longrightarrow> import_step net y e z \<Longrightarrow> import_run net x (es @ [e]) z"

inductive_cases commit_cases: "import_step net (s, imp) (CommitEv r) y"

section \<open>What the events say\<close>

text \<open>The messages that were begun, with what was written into them.\<close>

fun part_step :: "(string \<times> string) list \<Rightarrow> import_event \<Rightarrow> (string \<times> string) list" where
  "part_step ps (MessageEv key (Inr i)) = ps @ [(key, '''')]"
| "part_step ps (WriteEv i data None) = (if ps = [] then [] else butlast ps @ [(fst (last ps), snd (last ps) @ data)])"
| "part_step ps e = ps"

definition parts_of :: "import_event list \<Rightarrow> (string \<times> string) list" where
  "parts_of es = foldl part_step [] es"

lemma parts_of_simps [simp]: "parts_of [] = []" "parts_of (es @ [e]) = part_step (parts_of es) e"
  by (simp_all add: parts_of_def)

lemma part_step_same: "(\<And>key i. e \<noteq> MessageEv key (Inr i)) \<Longrightarrow> (\<And>i data. e \<noteq> WriteEv i data None) \<Longrightarrow> part_step ps e = ps"
  by (cases "(ps, e)" rule: part_step.cases) auto

definition import_form :: "(string \<times> Message option) list \<Rightarrow> (string \<times> string) list \<Rightarrow> form" where
  "import_form metadata ps = (metadata_header, json_encode (metadata_json metadata)) # map (\<lambda>(k, c). (message_header k, c)) ps"

lemma import_form_snoc [simp]: "import_form metadata (ps @ [(k, c)]) = import_form metadata ps @ [(message_header k, c)]"
  by (simp add: import_form_def)

definition imported :: "Importer \<Rightarrow> string set" where
  "imported imp = {k. map_of (impUploaded imp) k = Some True}"

section \<open>Frames\<close>

lemma CreatePart_frame:
  assumes "CreatePart stop hdr w = (r, w')"
  shows "mwBoundary w' = mwBoundary w"
    and "mwPipe w \<noteq> PipeOpen \<Longrightarrow> mwPipe w' = mwPipe w \<and> mwBody w' = mwBody w \<and> (\<exists>e. r = Inl e)"
    and "mwPipe w = PipeOpen \<Longrightarrow> mwPipe w' \<noteq> WriterClosed"
    and "mwPipe w' = PipeOpen \<Longrightarrow> holds w ps \<Longrightarrow> \<exists>i. r = Inr i"
    and "mwLastErr w \<in> {None, Some ErrClosedPipe} \<Longrightarrow> mwLastErr w' \<in> {None, Some ErrClosedPipe}"
  using assms
  by (auto simp: CreatePart_def pipe_write_def holds_def Let_def split: if_splits option.splits)

lemma part_Write_frame:
  assumes "part_Write stop i data w = (r, w')"
  shows "mwBoundary w' = mwBoundary w"
    and "mwPipe w \<noteq> PipeOpen \<Longrightarrow> mwPipe w' = mwPipe w \<and> mwBody w' = mwBody w \<and> r \<noteq> None"
    and "mwPipe w = PipeOpen \<Longrightarrow> mwPipe w' \<noteq> WriterClosed"
    and "mwPipe w' = PipeOpen \<Longrightarrow> r = None \<or> w' = w"
    and "mwLastErr w \<in> {None, Some ErrClosedPipe} \<Longrightarrow> mwLastErr w' \<in> {None, Some ErrClosedPipe}"
  using assms
  by (auto simp: part_Write_def pipe_write_def split: if_splits option.splits)

lemma mw_Close_frame:
  assumes "mw_Close stop w = (r, w')"
  shows "mwBoundary w' = mwBoundary w"
    and "mwPipe w \<noteq> PipeOpen \<Longrightarrow> mwPipe w' = mwPipe w \<and> mwBody w' = mwBody w \<and> (\<exists>e. r = Some e)"
    and "mwLastErr w' = mwLastErr w"
    and "mwLastErr w \<in> {None, Some ErrClosedPipe} \<Longrightarrow> r \<in> {None, Some ErrClosedPipe}"
    and "holds w ps \<Longrightarrow> r \<noteq> None \<Longrightarrow> mwPipe w' = ReaderClosed"
  using assms
  by (auto simp: mw_Close_def pipe_write_def Let_def holds_def split: if_splits option.splits dest: sym [of "Some _"])

lemma map_of_update_same: "map_of (AList.update k v xs) = (map_of xs)(k \<mapsto> v)"
  by (rule update_conv')

lemma keys_update: "map_of xs k \<noteq> None \<Longrightarrow> map fst (AList.update k v xs) = map fst xs"
  by (induction xs) auto

section \<open>The bookkeeping\<close>

text \<open>
  What the importer knows at any time, whatever was interleaved: \<open>ps\<close> are the messages begun,
  \<open>c\<close> says that a \<open>Commit\<close> was called, \<open>ok\<close> that one went on to wait for the server.
\<close>

definition import_core ::
  "string \<Rightarrow> (string \<times> Message option) list \<Rightarrow> (string \<times> string) list \<Rightarrow> bool \<Rightarrow> bool \<Rightarrow> Importer \<Rightarrow> bool" where
  "import_core b metadata ps c ok imp \<longleftrightarrow>
     map fst (impUploaded imp) = map fst metadata \<and>
     distinct (map fst ps) \<and> set (map fst ps) \<subseteq> imported imp \<and>
     impClosed imp = c \<and> (ok \<longrightarrow> c) \<and>
     (impDone imp = Some None \<longrightarrow> impResult imp \<noteq> None) \<and>
     mwLastErr (impWriter imp) \<in> {None, Some ErrClosedPipe} \<and> mwBoundary (impWriter imp) = b \<and>
     (mwPipe (impWriter imp) = PipeOpen \<longrightarrow> \<not> c \<and>
        holds (impWriter imp) (import_form metadata ps) \<and> imported imp = set (map fst ps)) \<and>
     (mwPipe (impWriter imp) = WriterClosed \<longrightarrow> c \<and> mwBody (impWriter imp) = render b (import_form metadata ps)) \<and>
     (ok \<longrightarrow> mwPipe (impWriter imp) = WriterClosed \<and> set (map fst ps) = set (map fst metadata)) \<and>
     (impWaiting imp \<longrightarrow> ok)"

lemma imported_frame [simp]:
  "imported (imp\<lparr>impWriter := w\<rparr>) = imported imp" "imported (imp\<lparr>impWaiting := x\<rparr>) = imported imp"
  "imported (imp\<lparr>impClosed := x\<rparr>) = imported imp"
  "imported (answered r imp) = imported imp"
  by (simp_all add: imported_def answered_def Let_def split: outcome.split)

lemma Import_core:
  assumes "Import root b metadata stop1 stop2 = Some (Inr imp)"
  shows "import_core b metadata [] False False imp"
proof -
  from assms obtain i w w' where c: "CreatePart stop1 metadata_header (multipart_NewWriter b) = (Inr i, w)"
    and p: "part_Write stop2 i (json_encode (metadata_json metadata)) w = (None, w')"
    and imp: "imp = \<lparr>impWriter = w', impUploaded = map (\<lambda>(key, m). (key, False)) metadata, impClosed = False,
                     impDone = None, impResult = None, impWaiting = False\<rparr>"
    by (auto simp: Import_def split: if_splits prod.splits sum.splits option.splits)
  have h1: "holds w ([] @ [(metadata_header, '''')])" "i = 0" "mwBoundary w = b"
    using CreatePart_holds [OF c holds_start] by (simp_all add: multipart_NewWriter_def)
  have h2: "holds w' [(metadata_header, json_encode (metadata_json metadata))]" "mwBoundary w' = b"
    using part_Write_holds [OF p h1(1)] h1(3) by simp_all
  have "map_of (map (\<lambda>(key, m :: Message option). (key, False)) metadata) k \<noteq> Some True" for k
    by (induction metadata) auto
  then have "imported imp = {}" by (simp add: imported_def imp)
  moreover have "map fst (map (\<lambda>(key, m). (key, False)) metadata) = map fst metadata"
    by (simp add: case_prod_beta comp_def)
  ultimately show ?thesis using h2 imp
    by (simp add: import_core_def import_form_def holds_def)
qed

lemma core_message:
  assumes inv: "import_core b metadata ps c ok imp" and run: "ImportMessage stop key imp = (r, imp')"
  shows "import_core b metadata (part_step ps (MessageEv key r)) c ok imp'"
proof (cases "map_of (impUploaded imp) key = Some False")
  case False
  then obtain e where "imp' = imp" "r = Inl e"
    using run by (auto simp: ImportMessage_def split: option.splits bool.splits)
  with inv show ?thesis by simp
next
  case True
  then obtain w where c: "CreatePart stop (message_header key) (impWriter imp) = (r, w)"
    and imp': "imp' = imp\<lparr>impUploaded := AList.update key True (impUploaded imp), impWriter := w\<rparr>"
    using run by (auto simp: ImportMessage_def split: prod.splits)
  have keys: "map fst (impUploaded imp') = map fst (impUploaded imp)" "imported imp' = insert key (imported imp)"
    using True by (auto simp: imp' keys_update imported_def map_of_update_same)
  have new: "key \<notin> imported imp" using True by (simp add: imported_def)
  note f = CreatePart_frame [OF c]
  show ?thesis
  proof (cases "mwPipe (impWriter imp) = PipeOpen")
    case True
    with inv have h: "holds (impWriter imp) (import_form metadata ps)" "imported imp = set (map fst ps)" "\<not> c" "\<not> ok"
      by (simp_all add: import_core_def)
    show ?thesis
    proof (cases r)
      case (Inr i)
      with CreatePart_holds [OF c [unfolded Inr] h(1)] have "holds w (import_form metadata (ps @ [(key, '''')]))"
        by simp
      moreover from this have "mwPipe w = PipeOpen" by (simp add: holds_def)
      ultimately show ?thesis using inv keys new h f(1,5) Inr by (auto simp: import_core_def imp')
    next
      case (Inl e)
      then have "mwPipe w = ReaderClosed" using f(3) [OF True] f(4) [OF _ h(1)] by (cases "mwPipe w") auto
      then show ?thesis using inv keys new h f(1,5) Inl by (auto simp: import_core_def imp')
    qed
  next
    case False
    from f(2) [OF this] obtain e where "r = Inl e" "mwPipe w = mwPipe (impWriter imp)" "mwBody w = mwBody (impWriter imp)"
      by blast
    with False inv keys f(1,5) show ?thesis by (auto simp: import_core_def imp')
  qed
qed

lemma import_form_last:
  assumes "ps \<noteq> []"
  shows "import_form metadata ps = import_form metadata (butlast ps) @ [(message_header (fst (last ps)), snd (last ps))]"
  using assms by (metis append_butlast_last_id import_form_snoc prod.collapse)

lemma map_fst_write: "map fst (part_step ps (WriteEv i data r)) = map fst ps"
proof (cases "ps = []")
  case False
  then have "map fst (butlast ps) @ [fst (last ps)] = map fst ps"
    by (metis append_butlast_last_id list.simps(8,9) map_append)
  with False show ?thesis by (cases r) simp_all
qed (cases r; simp)

lemma core_write:
  assumes inv: "import_core b metadata ps c ok imp" and run: "part_Write stop (Suc i) data (impWriter imp) = (r, w)"
  shows "import_core b metadata (part_step ps (WriteEv (Suc i) data r)) c ok (imp\<lparr>impWriter := w\<rparr>)"
proof -
  note f = part_Write_frame [OF run]
  show ?thesis
  proof (cases "mwPipe (impWriter imp) = PipeOpen")
    case True
    with inv have h: "holds (impWriter imp) (import_form metadata ps)" "imported imp = set (map fst ps)" "\<not> c" "\<not> ok"
      by (simp_all add: import_core_def)
    have body: "holds w (import_form metadata (part_step ps (WriteEv (Suc i) data r)))" if "mwPipe w = PipeOpen"
    proof (cases r)
      case None
      have "ps \<noteq> []"
      proof
        assume "ps = []"
        with h(1) have "mwLast (impWriter imp) = Some 0" by (simp add: holds_def import_form_def)
        with run None show False by (simp add: part_Write_def)
      qed
      then show ?thesis
        using part_Write_holds [OF run [unfolded None]] h(1) import_form_last [of ps metadata] None by simp
    next
      case (Some e)
      with f(4) [OF that] h(1) show ?thesis by simp
    qed
    from f(3) [OF True] body inv h f(1,5) show ?thesis
      unfolding import_core_def map_fst_write by simp
  next
    case False
    from f(2) [OF this] obtain e where "r = Some e" "mwPipe w = mwPipe (impWriter imp)" "mwBody w = mwBody (impWriter imp)"
      by blast
    with False inv f(1,5) show ?thesis by (auto simp: import_core_def)
  qed
qed

lemma find_missing_None:
  assumes "find (\<lambda>(key, ok). \<not> ok) xs = None" and "k \<in> set (map fst xs)"
  shows "map_of xs k = Some True"
  using assms by (induction xs) (auto split: if_splits)

lemma core_commit:
  assumes inv: "import_core b metadata ps c ok imp" and run: "Commit stop imp = (r, imp')"
  shows "import_core b metadata ps True (ok \<or> r = None) imp'"
proof (cases "impClosed imp")
  case True
  then have "imp' = imp" "r = Some (Sentinel ErrImporterClosed)" using run by (simp_all add: Commit_def close_importer_def)
  with inv True show ?thesis by (auto simp: import_core_def)
next
  case False
  with inv have noc: "\<not> c" "\<not> ok" "\<not> impWaiting imp" "mwPipe (impWriter imp) \<noteq> WriterClosed" by (auto simp: import_core_def)
  obtain e w where close: "mw_Close stop (impWriter imp) = (e, w)" by (cases "mw_Close stop (impWriter imp)")
  note f = mw_Close_frame [OF close]
  show ?thesis
  proof (cases e)
    case (Some x)
    then have imp': "imp' = imp\<lparr>impClosed := True, impWriter := w\<rparr>" "r = Some x"
      using run False close by (simp_all add: Commit_def close_importer_def)
    have "mwPipe w = ReaderClosed"
    proof (cases "mwPipe (impWriter imp)")
      case PipeOpen
      with inv have "holds (impWriter imp) (import_form metadata ps)" by (simp add: import_core_def)
      from f(5) [OF this] Some show ?thesis by simp
    qed (use f(2) noc in simp_all)
    with inv f(1,3) noc imp' show ?thesis by (simp add: import_core_def)
  next
    case None
    then have "mwPipe (impWriter imp) = PipeOpen" using f(2) by auto
    with inv have h: "holds (impWriter imp) (import_form metadata ps)" "imported imp = set (map fst ps)"
      by (simp_all add: import_core_def)
    have w: "mwBody w = render b (import_form metadata ps)" "mwBoundary w = b"
      using mw_Close_holds [OF close [unfolded None] h(1)] f(1) inv by (simp_all add: import_core_def)
    let ?i1 = "imp\<lparr>impClosed := True, impWriter := w\<lparr>mwPipe := WriterClosed\<rparr>\<rparr>"
    have closed: "close_importer stop imp = (None, ?i1)" using close None False by (simp add: close_importer_def)
    have inv1: "import_core b metadata ps True False ?i1"
      using inv w f(3) noc h by (simp add: import_core_def)
    show ?thesis
    proof (cases "find (\<lambda>(key, ok). \<not> ok) (impUploaded imp)")
      case None
      have "set (map fst metadata) \<subseteq> imported imp"
        using find_missing_None [OF None] inv by (auto simp: import_core_def imported_def simp del: set_map)
      moreover have "imported imp \<subseteq> set (map fst (impUploaded imp))"
        by (auto simp: imported_def dest: map_of_SomeD intro: rev_image_eqI)
      ultimately have "set (map fst ps) = set (map fst metadata)"
        using h(2) inv by (auto simp: import_core_def simp del: set_map)
      moreover have "r = None" "imp' = ?i1\<lparr>impWaiting := True\<rparr>" using None run closed by (simp_all add: Commit_def)
      ultimately show ?thesis using inv1 by (simp add: import_core_def imported_def)
    next
      case (Some p)
      with run closed have "imp' = ?i1" "\<exists>x. r = Some x" by (auto simp: Commit_def split: prod.splits)
      with inv1 noc show ?thesis by auto
    qed
  qed
qed

lemma core_answer:
  assumes "import_core b metadata ps c ok imp"
  shows "import_core b metadata ps c ok (answered r imp)"
proof -
  have "mwPipe (impWriter (answered r imp)) =
      (if mwPipe (impWriter imp) = PipeOpen then ReaderClosed else mwPipe (impWriter imp))"
    "mwBody (impWriter (answered r imp)) = mwBody (impWriter imp)"
    "mwBoundary (impWriter (answered r imp)) = mwBoundary (impWriter imp)"
    "mwLastErr (impWriter (answered r imp)) = mwLastErr (impWriter imp)"
    "impUploaded (answered r imp) = impUploaded imp" "impClosed (answered r imp) = impClosed imp"
    "impWaiting (answered r imp) = impWaiting imp"
    "impDone (answered r imp) = Some None \<Longrightarrow> impDone imp = Some None \<or> impResult (answered r imp) \<noteq> None"
    "impResult imp \<noteq> None \<Longrightarrow> impResult (answered r imp) \<noteq> None"
    by (cases r; simp add: answered_def Let_def)+
  with assms show ?thesis by (auto simp: import_core_def)
qed

lemma core_receive: "import_core b metadata ps c ok imp \<Longrightarrow> import_core b metadata ps c ok (imp\<lparr>impWaiting := False\<rparr>)"
  by (simp add: import_core_def)

lemma core_hang_up:
  assumes "import_core b metadata ps c ok imp" and "mwPipe (impWriter imp) = PipeOpen"
  shows "import_core b metadata ps c ok (imp\<lparr>impWriter := (impWriter imp)\<lparr>mwPipe := ReaderClosed\<rparr>\<rparr>)"
  using assms by (auto simp: import_core_def)

text \<open>The same, read off a trace.\<close>

definition import_inv :: "string \<Rightarrow> (string \<times> Message option) list \<Rightarrow> import_event list \<Rightarrow> Importer \<Rightarrow> bool" where
  "import_inv b metadata es imp \<longleftrightarrow>
     import_core b metadata (parts_of es) (\<exists>r. CommitEv r \<in> set es) (CommitEv None \<in> set es) imp"

lemma import_step_inv:
  assumes "import_step net x e y" and inv: "import_inv b metadata es (snd x)"
  shows "import_inv b metadata (es @ [e]) (snd y)"
  using assms(1)
proof (cases rule: import_step.cases)
  case (message stop key imp r imp' s)
  with core_message [OF inv [unfolded import_inv_def], of stop key r imp'] show ?thesis by (simp add: import_inv_def)
next
  case (written stop i data imp r w s)
  with core_write [OF inv [unfolded import_inv_def], of stop i data r w] show ?thesis
    by (simp add: import_inv_def del: part_step.simps)
next
  case (commit stop imp r imp' s)
  have "(CommitEv None \<in> set (es @ [CommitEv r])) = (CommitEv None \<in> set es \<or> r = None)" by auto
  moreover have "(\<exists>x. CommitEv x \<in> set (es @ [CommitEv r])) = True" by auto
  moreover have "parts_of (es @ [CommitEv r]) = parts_of es" by simp
  ultimately show ?thesis
    using core_commit [OF inv [unfolded import_inv_def], of stop r imp'] commit by (simp only: import_inv_def snd_conv)
next
  case (receive imp r s)
  with core_receive [OF inv [unfolded import_inv_def]] show ?thesis by (simp add: import_inv_def)
next
  case (answer imp s r s')
  with core_answer [OF inv [unfolded import_inv_def], of r] show ?thesis by (simp add: import_inv_def)
next
  case (hang_up imp s)
  with core_hang_up [OF inv [unfolded import_inv_def]] show ?thesis by (simp add: import_inv_def)
qed

lemma import_run_inv:
  assumes "import_run net (s0, imp0) es (s, imp)" and "Import root b metadata stop1 stop2 = Some (Inr imp0)"
  shows "import_inv b metadata es imp"
proof -
  have "import_inv b metadata es (snd y)" if "import_run net x es y" "snd x = imp0" for x es y
    using that
  proof induction
    case (start x)
    with Import_core [OF assms(2)] show ?case by (simp add: import_inv_def)
  next
    case (step x es y e z)
    then show ?case using import_step_inv [OF step.hyps(2)] by simp
  qed
  from this [OF assms(1)] show ?thesis by simp
qed

lemma import_run_split:
  assumes "import_run net x es z" and "es = es1 @ e # es2"
  shows "\<exists>y1 y2. import_run net x es1 y1 \<and> import_step net y1 e y2"
  using assms
proof (induction arbitrary: es2 rule: import_run.induct)
  case (step x es y e' z)
  show ?case
  proof (cases es2 rule: rev_cases)
    case Nil
    with step.prems have "es = es1" "e' = e" by simp_all
    with step.hyps show ?thesis by blast
  next
    case (snoc es2' e2)
    with step.prems have "es = es1 @ e # es2'" by simp
    from step.IH [OF this] show ?thesis .
  qed
qed simp

section \<open>Properties\<close>

definition begun :: "import_event list \<Rightarrow> string list" where
  "begun es = concat (map (\<lambda>e. case e of MessageEv key (Inr i) \<Rightarrow> [key] | _ \<Rightarrow> []) es)"

lemma begun_parts: "map fst (parts_of es) = begun es"
proof (induction es rule: rev_induct)
  case (snoc e es)
  have "map fst (part_step (parts_of es) e) =
      map fst (parts_of es) @ (case e of MessageEv key (Inr i) \<Rightarrow> [key] | _ \<Rightarrow> [])"
  proof (cases e)
    case (MessageEv key r)
    then show ?thesis by (cases r) simp_all
  next
    case (WriteEv i d r)
    then show ?thesis by (simp only: map_fst_write) simp
  qed simp_all
  with snoc show ?case by (simp add: begun_def)
qed (simp add: begun_def)

lemma imported_keys: "imported imp \<subseteq> set (map fst (impUploaded imp))"
  by (auto simp: imported_def dest: map_of_SomeD intro: rev_image_eqI)

text \<open>
  C8.  In every interleaving of the caller, the goroutine and the server, a message is begun at
  most once and only under a key of the metadata, and of all calls of \<open>Commit\<close> only the first can
  do anything: each later one, whatever became of the first, returns \<open>ErrImporterClosed\<close>.
\<close>

theorem importer_once:
  assumes "Import root b metadata stop1 stop2 = Some (Inr imp0)" and "import_run net (s0, imp0) es (s, imp)"
  shows "distinct (begun es) \<and> set (begun es) \<subseteq> set (map fst metadata) \<and>
    (\<forall>es1 r es2 r' es3. es = es1 @ CommitEv r # es2 @ CommitEv r' # es3 \<longrightarrow> r' = Some (Sentinel ErrImporterClosed))"
proof (intro conjI allI impI)
  from import_run_inv [OF assms(2,1)] have inv: "import_core b metadata (parts_of es) (\<exists>r. CommitEv r \<in> set es) (CommitEv None \<in> set es) imp"
    unfolding import_inv_def .
  then show "distinct (begun es)" by (simp add: import_core_def begun_parts)
  from inv imported_keys [of imp] show "set (begun es) \<subseteq> set (map fst metadata)"
    unfolding begun_parts [symmetric] by (auto simp: import_core_def simp del: set_map)
next
  fix es1 r es2 r' es3
  assume "es = es1 @ CommitEv r # es2 @ CommitEv r' # es3"
  then have "es = (es1 @ CommitEv r # es2) @ CommitEv r' # es3" by simp
  from import_run_split [OF assms(2) this] obtain y1 y2 where
    run: "import_run net (s0, imp0) (es1 @ CommitEv r # es2) y1" and step: "import_step net y1 (CommitEv r') y2" by blast
  obtain s1 imp1 where y1: "y1 = (s1, imp1)" by (cases y1)
  have "CommitEv r \<in> set (es1 @ CommitEv r # es2)" by simp
  with import_run_inv [OF run [unfolded y1] assms(1)] have "impClosed imp1"
    unfolding import_inv_def import_core_def by blast
  from step [unfolded y1] obtain stop imp' where "Commit stop imp1 = (r', imp')" by (rule commit_cases)
  with \<open>impClosed imp1\<close> show "r' = Some (Sentinel ErrImporterClosed)" by (simp add: Commit_def close_importer_def)
qed

text \<open>
  When \<open>Commit\<close> goes on to wait for the server, the request is complete: its body is the
  form of the metadata and, in the order in which they were begun, every message of the metadata
  exactly once, each with all that was written into it and nothing else.
\<close>

theorem import_commit_complete:
  assumes "Import root b metadata stop1 stop2 = Some (Inr imp0)" and "import_run net (s0, imp0) es (s, imp)"
    and "CommitEv None \<in> set es"
  shows "import_end (mwPipe (impWriter imp)) = Complete \<and>
     mwBody (impWriter imp) = render b (import_form metadata (parts_of es)) \<and>
     distinct (map fst (parts_of es)) \<and> set (map fst (parts_of es)) = set (map fst metadata)"
  using import_run_inv [OF assms(2,1)] assms(3)
  by (simp add: import_inv_def import_core_def import_end_def)

lemma import_request_once:
  assumes "url_parse (baseURL (cl s) @ ''/import'') \<noteq> None"
  shows "\<exists>r s' q. import_request net w s = Some (r, s') \<and> (\<forall>msg. r \<noteq> Panic msg) \<and> cl s' = cl s \<and>
     requests (trace s') = requests (trace s) @ [q] \<and> Method q = ''POST'' \<and> URL q = baseURL (cl s) @ ''/import'' \<and>
     ReqBody q = Some (mwBody w)"
  unfolding import_request_def
  using post_form_once [OF assms, of "net (import_end (mwPipe w))" "mwBoundary w" "mwBody w" import_resp_fields zero_import_resp]
  by blast

text \<open>
  C37.  A \<open>Commit\<close> before every message was begun fails, but only after it has ended the form and
  the pipe: the server is sent a well-formed request that lacks these messages.
\<close>

theorem incomplete_Commit_is_sent:
  assumes "Import root b metadata stop1 stop2 = Some (Inr imp0)" and "import_run net (s0, imp0) es (s, imp)"
    and "distinct (map fst metadata)" and "mwPipe (impWriter imp) = PipeOpen" and "set (begun es) \<noteq> set (map fst metadata)"
    and "url_parse (baseURL (cl s) @ ''/import'') \<noteq> None"
  shows "\<exists>key imp'. Commit None imp = (Some (not_imported key), imp') \<and> key \<in> set (map fst metadata) - set (begun es) \<and>
     import_end (mwPipe (impWriter imp')) = Complete \<and>
     (\<exists>r s' q. import_request net (impWriter imp') s = Some (r, s') \<and> requests (trace s') = requests (trace s) @ [q] \<and>
        ReqBody q = Some (render b (import_form metadata (parts_of es))))"
proof -
  have inv: "import_core b metadata (parts_of es) (\<exists>r. CommitEv r \<in> set es) (CommitEv None \<in> set es) imp"
    using import_run_inv [OF assms(2,1)] unfolding import_inv_def .
  then have h: "holds (impWriter imp) (import_form metadata (parts_of es))" "imported imp = set (begun es)" "\<not> impClosed imp"
    "mwBoundary (impWriter imp) = b" "map fst (impUploaded imp) = map fst metadata"
    using assms(4) by (auto simp: import_core_def begun_parts [symmetric])
  obtain w where close: "mw_Close None (impWriter imp) = (None, w)" using mw_Close_uncut [OF h(1)] by blast
  let ?i1 = "imp\<lparr>impClosed := True, impWriter := w\<lparr>mwPipe := WriterClosed\<rparr>\<rparr>"
  obtain key where missing: "find (\<lambda>(key, ok). \<not> ok) (impUploaded imp) = Some (key, False)"
  proof (cases "find (\<lambda>(key, ok). \<not> ok) (impUploaded imp)")
    case None
    from find_missing_None [OF None] have "set (map fst metadata) \<subseteq> imported imp"
      using h(5) by (auto simp: imported_def simp del: set_map)
    with imported_keys [of imp] h(2,5) assms(5) show ?thesis by simp
  next
    case (Some p)
    with that show ?thesis by (cases p) (auto simp: find_Some_iff)
  qed
  have run: "Commit None imp = (Some (not_imported key), ?i1)"
    using close h(3) missing by (simp add: Commit_def close_importer_def)
  have "(key, False) \<in> set (impUploaded imp)" using missing by (auto simp: find_Some_iff in_set_conv_nth)
  note entry = this
  have key: "key \<in> set (map fst metadata)" using entry h(5) by (metis fst_conv in_set_zipE zip_map_fst_snd)
  moreover have "map_of (impUploaded imp) key = Some False"
    by (rule map_of_is_SomeI [OF _ entry]) (simp only: h(5) assms(3))
  then have "key \<notin> imported imp" by (simp add: imported_def)
  moreover have "mwBody w = render b (import_form metadata (parts_of es))" using mw_Close_holds [OF close h(1)] h(4) by simp
  ultimately show ?thesis
    using run h(2) import_request_once [OF assms(6), of net "w\<lparr>mwPipe := WriterClosed\<rparr>"]
    by (intro exI [of _ key] exI [of _ ?i1]) (auto simp: import_end_def)
qed

text \<open>
  C38.  The server's verdict can get lost: once the transport has closed the pipe, for instance
  because the server refused the import before all of it was sent, the first \<open>Commit\<close> returns
  \<open>io.ErrClosedPipe\<close> and never looks at what the goroutine reports.
\<close>

theorem Commit_loses_answer:
  assumes "Import root b metadata stop1 stop2 = Some (Inr imp0)" and "import_run net (s0, imp0) es (s, imp)"
    and "mwPipe (impWriter imp) = ReaderClosed" and "\<And>r. CommitEv r \<notin> set es"
  shows "\<exists>imp'. Commit stop imp = (Some ErrClosedPipe, imp') \<and> \<not> impWaiting imp' \<and> impDone imp' = impDone imp"
proof -
  have inv: "import_core b metadata (parts_of es) (\<exists>r. CommitEv r \<in> set es) (CommitEv None \<in> set es) imp"
    using import_run_inv [OF assms(2,1)] unfolding import_inv_def .
  then have h: "\<not> impClosed imp" "\<not> impWaiting imp" "mwLastErr (impWriter imp) \<in> {None, Some ErrClosedPipe}"
    using assms(4) by (simp_all add: import_core_def)
  obtain e w where close: "mw_Close stop (impWriter imp) = (e, w)" by (cases "mw_Close stop (impWriter imp)")
  note f = mw_Close_frame [OF close]
  from f(2) assms(3) f(4) [OF h(3)] have "e = Some ErrClosedPipe" by auto
  with close h show ?thesis by (simp add: Commit_def close_importer_def)
qed

text \<open>
  C39.  \<open>Commit\<close> comes to an end: whenever it waits, what it waits for is there or the goroutine's
  one request ends, and then it returns the results, or the error of that request.
\<close>

theorem Commit_returns:
  assumes "Import root b metadata stop1 stop2 = Some (Inr imp0)" and "import_run net (s0, imp0) es (s, imp)"
    and "impWaiting imp" and "url_parse (baseURL (cl s) @ ''/import'') \<noteq> None"
  shows "\<exists>r s' imp'. (impDone imp \<noteq> None \<and> import_run net (s, imp) [ResultEv r] (s', imp') \<or>
       impDone imp = None \<and> import_run net (s, imp) [AnswerEv, ResultEv r] (s', imp') \<and>
       (case import_request net (impWriter imp) s of
          Some (Ok respData, _) \<Rightarrow> r = Inr (import_results respData)
        | Some (Err e, _) \<Rightarrow> r = Inl e
        | _ \<Rightarrow> False)) \<and> \<not> impWaiting imp'"
proof (cases "impDone imp")
  case (Some d)
  have "import_core b metadata (parts_of es) (\<exists>r. CommitEv r \<in> set es) (CommitEv None \<in> set es) imp"
    using import_run_inv [OF assms(2,1)] unfolding import_inv_def .
  with Some obtain r where "Commit_receive imp = Some r"
    by (cases d) (auto simp: Commit_receive_def import_core_def)
  from import_step.receive [OF assms(3) this, of net s]
  have "import_run net (s, imp) ([] @ [ResultEv r]) (s, imp\<lparr>impWaiting := False\<rparr>)"
    by (rule import_run.step [OF import_run.start])
  with Some show ?thesis by (intro exI [of _ r] exI [of _ s] exI [of _ "imp\<lparr>impWaiting := False\<rparr>"]) simp
next
  case None
  obtain x s' where req: "import_request net (impWriter imp) s = Some (x, s')" "\<forall>msg. x \<noteq> Panic msg"
    using import_request_once [OF assms(4), of net "impWriter imp"] by blast
  let ?r = "case x of Ok d \<Rightarrow> Inr (import_results d) | Err e \<Rightarrow> Inl e"
  let ?i = "answered x imp"
  have "impWaiting ?i" using assms(3) by (cases x) (simp_all add: answered_def Let_def)
  moreover have "Commit_receive ?i = Some ?r" using req(2) by (cases x) (auto simp: Commit_receive_def answered_def Let_def)
  ultimately have received: "import_step net (s', ?i) (ResultEv ?r) (s', ?i\<lparr>impWaiting := False\<rparr>)" by (rule import_step.receive)
  have "import_run net (s, imp) ([] @ [AnswerEv]) (s', ?i)"
    by (rule import_run.step [OF import_run.start]) (rule import_step.answer [OF None req(1)])
  from import_run.step [OF this received]
  have "import_run net (s, imp) (([] @ [AnswerEv]) @ [ResultEv ?r]) (s', ?i\<lparr>impWaiting := False\<rparr>)" .
  with None req show ?thesis
    by (intro exI [of _ ?r] exI [of _ s'] exI [of _ "?i\<lparr>impWaiting := False\<rparr>"]) (cases x; simp)
qed

text \<open>
  \<open>Import\<close> never returns when its request cannot be made: the goroutine is gone and the
  metadata is written into a pipe that nobody reads.  Otherwise it returns.
\<close>

theorem Import_hangs_iff:
  "Import root b metadata stop1 stop2 = None \<longleftrightarrow> url_parse (root @ ''/import'') = None"
  by (auto simp: Import_def split: prod.splits sum.splits option.splits)

section \<open>Witnesses\<close>

text \<open>A metadata of two messages; one run writes and commits both, another only one.\<close>

definition toy_metadata :: "(string \<times> Message option) list" where
  "toy_metadata = [(''m1'', None), (''m2'', None)]"

definition toy_imp :: Importer where
  "toy_imp = (case Import ''https://a'' ''b'' toy_metadata None None of Some (Inr imp) \<Rightarrow> imp)"

lemma toy_parses: "\<exists>p. url_parse (''https://a'' @ ''/import'') = Some p"
  by (simp add: url_eval char_of_def bit_0)

lemma toy_Import:
  "Import ''https://a'' ''b'' toy_metadata None None = Some (Inr toy_imp)"
  "impUploaded toy_imp = [(''m1'', False), (''m2'', False)]" "mwPipe (impWriter toy_imp) = PipeOpen" "\<not> impClosed toy_imp"
  "mwLast (impWriter toy_imp) = Some 0" "mwParts (impWriter toy_imp) = 1" "mwLastErr (impWriter toy_imp) = None" "impDone toy_imp = None"
proof -
  obtain p where "url_parse (''https://a/import'') = Some p" using toy_parses by auto
  then have "\<exists>w. Import ''https://a'' ''b'' toy_metadata None None = Some (Inr \<lparr>impWriter = w,
      impUploaded = [(''m1'', False), (''m2'', False)], impClosed = False, impDone = None, impResult = None, impWaiting = False\<rparr>) \<and>
      mwPipe w = PipeOpen \<and> mwLast w = Some 0 \<and> mwParts w = 1 \<and> mwLastErr w = None"
    by (simp add: Import_def CreatePart_def part_Write_def pipe_write_def multipart_NewWriter_def toy_metadata_def)
  then obtain w where "Import ''https://a'' ''b'' toy_metadata None None = Some (Inr \<lparr>impWriter = w,
      impUploaded = [(''m1'', False), (''m2'', False)], impClosed = False, impDone = None, impResult = None, impWaiting = False\<rparr>)"
    "mwPipe w = PipeOpen" "mwLast w = Some 0" "mwParts w = 1" "mwLastErr w = None" by blast
  then show "Import ''https://a'' ''b'' toy_metadata None None = Some (Inr toy_imp)"
    "impUploaded toy_imp = [(''m1'', False), (''m2'', False)]" "mwPipe (impWriter toy_imp) = PipeOpen" "\<not> impClosed toy_imp"
    "mwLast (impWriter toy_imp) = Some 0" "mwParts (impWriter toy_imp) = 1" "mwLastErr (impWriter toy_imp) = None" "impDone toy_imp = None"
    by (simp_all add: toy_imp_def)
qed

lemma toy_begin:
  assumes "mwPipe (impWriter imp) = PipeOpen" and "mwLastErr (impWriter imp) = None" and "map_of (impUploaded imp) key = Some False"
  shows "\<exists>imp'. import_step net (s, imp) (MessageEv key (Inr (mwParts (impWriter imp)))) (s, imp') \<and>
     mwPipe (impWriter imp') = PipeOpen \<and> mwLastErr (impWriter imp') = None \<and> impClosed imp' = impClosed imp \<and>
     impUploaded imp' = AList.update key True (impUploaded imp) \<and> impDone imp' = impDone imp \<and>
     mwParts (impWriter imp') = Suc (mwParts (impWriter imp))"
proof -
  define imp' where "imp' = snd (ImportMessage None key imp)"
  have "ImportMessage None key imp = (Inr (mwParts (impWriter imp)), imp')" "mwPipe (impWriter imp') = PipeOpen"
    "mwLastErr (impWriter imp') = None" "impClosed imp' = impClosed imp" "impUploaded imp' = AList.update key True (impUploaded imp)"
    "impDone imp' = impDone imp" "mwParts (impWriter imp') = Suc (mwParts (impWriter imp))"
    using assms
    by (cases "mwLast (impWriter imp)"; simp add: imp'_def ImportMessage_def CreatePart_def pipe_write_def Let_def)+
  then show ?thesis by (blast intro: import_step.message)
qed

lemma toy_commit:
  assumes "mwPipe (impWriter imp) = PipeOpen" and "mwLastErr (impWriter imp) = None" and "\<not> impClosed imp"
    and "impUploaded imp = [(''m1'', True), (''m2'', True)]" and "impDone imp = None"
  shows "\<exists>imp'. import_step net (s, imp) (CommitEv None) (s, imp') \<and> impWaiting imp' \<and> impDone imp' = None \<and>
     import_step net (s, imp') (CommitEv (Some (Sentinel ErrImporterClosed))) (s, imp')"
proof -
  define imp' where "imp' = snd (Commit None imp)"
  have "Commit None imp = (None, imp')" "impWaiting imp'" "impDone imp' = None"
    "Commit None imp' = (Some (Sentinel ErrImporterClosed), imp')"
    using assms
    by (cases "mwLast (impWriter imp)"; simp add: imp'_def Commit_def close_importer_def mw_Close_def pipe_write_def Let_def)+
  then show ?thesis by (blast intro: import_step.commit)
qed

lemma toy_runs:
  "\<exists>imp. import_run net (s, toy_imp) [MessageEv ''m1'' (Inr 1)] (s, imp) \<and> mwPipe (impWriter imp) = PipeOpen"
  "\<exists>imp. import_run net (s, toy_imp) [MessageEv ''m1'' (Inr 1), MessageEv ''m2'' (Inr 2), CommitEv None] (s, imp) \<and>
     impWaiting imp \<and> impDone imp = None"
  "\<exists>imp. import_run net (s, toy_imp) [MessageEv ''m1'' (Inr 1), MessageEv ''m2'' (Inr 2), CommitEv None,
     CommitEv (Some (Sentinel ErrImporterClosed))] (s, imp)"
  "\<exists>imp. import_run net (s, toy_imp) [HangUpEv] (s, imp) \<and> mwPipe (impWriter imp) = ReaderClosed"
proof -
  obtain i1 where 1: "import_step net (s, toy_imp) (MessageEv ''m1'' (Inr 1)) (s, i1)" "mwPipe (impWriter i1) = PipeOpen"
    "mwLastErr (impWriter i1) = None" "\<not> impClosed i1" "impUploaded i1 = [(''m1'', True), (''m2'', False)]"
    "impDone i1 = None" "mwParts (impWriter i1) = 2"
    using toy_begin [of toy_imp "''m1''" net s] toy_Import by auto
  obtain i2 where 2: "import_step net (s, i1) (MessageEv ''m2'' (Inr 2)) (s, i2)" "mwPipe (impWriter i2) = PipeOpen"
    "mwLastErr (impWriter i2) = None" "\<not> impClosed i2" "impUploaded i2 = [(''m1'', True), (''m2'', True)]" "impDone i2 = None"
    using toy_begin [of i1 "''m2''" net s] 1 by auto
  obtain i3 where 3: "import_step net (s, i2) (CommitEv None) (s, i3)" "impWaiting i3" "impDone i3 = None"
    "import_step net (s, i3) (CommitEv (Some (Sentinel ErrImporterClosed))) (s, i3)"
    using toy_commit [OF 2(2-6)] by blast
  note r1 = import_run.step [OF import_run.start 1(1)]
  note r2 = import_run.step [OF r1 2(1)]
  note r3 = import_run.step [OF r2 3(1)]
  note r4 = import_run.step [OF r3 3(4)]
  show "\<exists>imp. import_run net (s, toy_imp) [MessageEv ''m1'' (Inr 1)] (s, imp) \<and> mwPipe (impWriter imp) = PipeOpen"
    using r1 1(2) by auto
  show "\<exists>imp. import_run net (s, toy_imp) [MessageEv ''m1'' (Inr 1), MessageEv ''m2'' (Inr 2), CommitEv None] (s, imp) \<and>
     impWaiting imp \<and> impDone imp = None"
    using r3 3(2,3) by auto
  show "\<exists>imp. import_run net (s, toy_imp) [MessageEv ''m1'' (Inr 1), MessageEv ''m2'' (Inr 2), CommitEv None,
     CommitEv (Some (Sentinel ErrImporterClosed))] (s, imp)"
    using r4 by auto
  have "import_run net (s, toy_imp) ([] @ [HangUpEv]) (s, toy_imp\<lparr>impWriter := (impWriter toy_imp)\<lparr>mwPipe := ReaderClosed\<rparr>\<rparr>)"
    by (rule import_run.step [OF import_run.start]) (rule import_step.hang_up [OF toy_Import(3)])
  then show "\<exists>imp. import_run net (s, toy_imp) [HangUpEv] (s, imp) \<and> mwPipe (impWriter imp) = ReaderClosed"
    by auto
qed

definition toy_net :: "body_end \<Rightarrow> (unit, unit) env" where
  "toy_net e = \<lparr>Do = (\<lambda>q w. (Inl (Opaque ''refused''), w)), RunReAuth = (\<lambda>cb. returnP ()), Now = (\<lambda>w. 0),
     Taken = (\<lambda>q w. 1), RandReader = (\<lambda>w. Ended), SetRandReader = (\<lambda>rd w. w)\<rparr>"

definition toy_state :: "(unit, unit) st" where
  "toy_state = \<lparr>cl = initial_client\<lparr>baseURL := ''https://a''\<rparr>, world = (), nextBody = 0, trace = []\<rparr>"

lemma toy_state_simps [simp]: "baseURL (cl toy_state) = ''https://a''" "trace toy_state = []"
  by (simp_all add: toy_state_def)

lemma toy_state_parses: "url_parse (baseURL (cl toy_state) @ ''/import'') \<noteq> None"
  using toy_parses by auto

lemma importer_once_witness:
  "\<exists>imp. import_run toy_net (toy_state, toy_imp) [MessageEv ''m1'' (Inr 1), MessageEv ''m2'' (Inr 2), CommitEv None,
     CommitEv (Some (Sentinel ErrImporterClosed))] (toy_state, imp) \<and>
   distinct (begun [MessageEv ''m1'' (Inr 1), MessageEv ''m2'' (Inr 2), CommitEv None, CommitEv (Some (Sentinel ErrImporterClosed))])"
proof -
  obtain imp where "import_run toy_net (toy_state, toy_imp) [MessageEv ''m1'' (Inr 1), MessageEv ''m2'' (Inr 2), CommitEv None,
     CommitEv (Some (Sentinel ErrImporterClosed))] (toy_state, imp)" using toy_runs(3) by blast
  with importer_once [OF toy_Import(1) this] show ?thesis by blast
qed

lemma import_commit_complete_witness:
  "\<exists>imp. import_run toy_net (toy_state, toy_imp) [MessageEv ''m1'' (Inr 1), MessageEv ''m2'' (Inr 2), CommitEv None] (toy_state, imp) \<and>
     mwBody (impWriter imp) = render ''b'' (import_form toy_metadata [(''m1'', ''''), (''m2'', '''')])"
proof -
  let ?es = "[MessageEv ''m1'' (Inr 1), MessageEv ''m2'' (Inr 2), CommitEv None]"
  obtain imp where run: "import_run toy_net (toy_state, toy_imp) ?es (toy_state, imp)" using toy_runs(2) by blast
  have "CommitEv None \<in> set ?es" by simp
  moreover have "parts_of ?es = [(''m1'', ''''), (''m2'', '''')]" by (simp add: parts_of_def)
  ultimately show ?thesis using import_commit_complete [OF toy_Import(1) run] run by auto
qed

lemma incomplete_Commit_is_sent_witness:
  "\<exists>imp imp'. import_run toy_net (toy_state, toy_imp) [MessageEv ''m1'' (Inr 1)] (toy_state, imp) \<and>
     Commit None imp = (Some (not_imported ''m2''), imp') \<and>
     (\<exists>r s' q. import_request toy_net (impWriter imp') toy_state = Some (r, s') \<and> requests (trace s') = [q] \<and>
        ReqBody q = Some (render ''b'' (import_form toy_metadata [(''m1'', '''')])))"
proof -
  let ?es = "[MessageEv ''m1'' (Inr 1)]"
  obtain imp where run: "import_run toy_net (toy_state, toy_imp) ?es (toy_state, imp)" "mwPipe (impWriter imp) = PipeOpen"
    using toy_runs(1) by blast
  have b: "begun ?es = [''m1'']" "parts_of ?es = [(''m1'', '''')]" "map fst toy_metadata = [''m1'', ''m2'']"
    by (simp_all add: begun_def parts_of_def toy_metadata_def)
  then have "distinct (map fst toy_metadata)" "set (begun ?es) \<noteq> set (map fst toy_metadata)" by auto
  from incomplete_Commit_is_sent [OF toy_Import(1) run(1) this(1) run(2) this(2) toy_state_parses] run(1) b
  show ?thesis by (auto simp del: set_map)
qed

lemma Commit_loses_answer_witness:
  "\<exists>imp imp'. import_run toy_net (toy_state, toy_imp) [HangUpEv] (toy_state, imp) \<and> Commit None imp = (Some ErrClosedPipe, imp')"
proof -
  obtain imp where run: "import_run toy_net (toy_state, toy_imp) [HangUpEv] (toy_state, imp)" "mwPipe (impWriter imp) = ReaderClosed"
    using toy_runs(4) by blast
  have "CommitEv r \<notin> set [HangUpEv]" for r by simp
  from Commit_loses_answer [OF toy_Import(1) run this] run(1) show ?thesis by blast
qed

lemma Commit_returns_witness:
  "\<exists>imp r s' imp'. import_run toy_net (toy_state, toy_imp) [MessageEv ''m1'' (Inr 1), MessageEv ''m2'' (Inr 2), CommitEv None] (toy_state, imp) \<and>
     import_run toy_net (toy_state, imp) [AnswerEv, ResultEv r] (s', imp') \<and> \<not> impWaiting imp'"
proof -
  obtain imp where run: "import_run toy_net (toy_state, toy_imp) [MessageEv ''m1'' (Inr 1), MessageEv ''m2'' (Inr 2), CommitEv None] (toy_state, imp)"
    and "impWaiting imp" "impDone imp = None" using toy_runs(2) by blast
  with Commit_returns [OF toy_Import(1) run \<open>impWaiting imp\<close> toy_state_parses] show ?thesis by blast
qed

end
