(* ===== verification/Keeping.thy ===== *)
theory Keeping
  imports Endpoints Importer
begin

text \<open>
  Invariants of whole calls.  What the operations of the client rely on is a contract with the
  transport: which requests may be sent in a state, and what the state is like while an answer
  is open and after it was closed.  The operations keep every invariant for which the transport
  honours the contract.  Two providers: an invariant that every single step of the
  transport keeps, and the books on response bodies.
\<close>

section \<open>The contract\<close>

text \<open>A path below the root URL.\<close>

definition absolute :: "string \<Rightarrow> bool" where
  "absolute path \<longleftrightarrow> take 1 path = ''/''"

lemma absolute_simps [simp]: "absolute (c # p) \<longleftrightarrow> c = CHR ''/''" "\<not> absolute []"
  by (simp_all add: absolute_def)

lemma absolute_append [simp]: "absolute p \<Longrightarrow> absolute (p @ q)"
  by (cases p) simp_all

lemma header_keys:
  "CanonicalHeaderKey ''X-Pm-Appversion'' \<noteq> ''Authorization''" "CanonicalHeaderKey ''X-Pm-Apiversion'' \<noteq> ''Authorization''"
  "CanonicalHeaderKey ''Content-Type'' \<noteq> ''Authorization''" "CanonicalHeaderKey ''User-Agent'' \<noteq> ''Authorization''"
  "CanonicalHeaderKey ''Accept'' \<noteq> ''Authorization''" "CanonicalHeaderKey ''X-Pm-Uid'' \<noteq> ''Authorization''"
  by simp_all

text \<open>Events that close the body of an answer, with what is noted on the way.\<close>

definition closing :: "nat \<Rightarrow> event list \<Rightarrow> bool" where
  "closing n evs \<longleftrightarrow> opened evs = [] \<and> closed evs = [n] \<and>
     (\<forall>e \<in> set evs. (\<exists>l m as. e = Log l m as) \<or> (\<exists>i k. e = BodyDrain i k) \<or> e = BodyClose n)"

lemma closing_simps [simp]:
  "closing n [] \<longleftrightarrow> False" "closing n [BodyClose n]"
  "closing n (Log l m as # evs) \<longleftrightarrow> closing n evs" "closing n (BodyDrain i k # evs) \<longleftrightarrow> closing n evs"
  by (auto simp: closing_def)

text \<open>
  \<open>J\<close> holds between calls, \<open>R\<close> of the requests that are made, and \<open>K resp\<close> while the body
  of the answer \<open>resp\<close> is open.
\<close>

locale contract =
  fixes env :: "('w, 'k) env" and J :: "('w, 'k) st \<Rightarrow> bool" and R :: "request \<Rightarrow> bool"
    and K :: "response \<Rightarrow> ('w, 'k) st \<Rightarrow> bool"
  assumes logged: "J s \<Longrightarrow> J (emit [Log l m as] s)"
    and moved: "J s \<Longrightarrow> J (s\<lparr>world := w\<rparr>)"
    and ring: "J s \<Longrightarrow> J (s\<lparr>cl := (cl s)\<lparr>keyRing := ks\<rparr>\<rparr>)"
    and cleared: "J s \<Longrightarrow> J (s\<lparr>cl := (cl s)\<lparr>uid := [], accessToken := [], keyRing := []\<rparr>\<rparr>)"
    and made: "J s \<Longrightarrow> absolute path \<Longrightarrow> newRequest meth path body s = Some (Ok q, t) \<Longrightarrow> R q"
    and announced: "R q \<Longrightarrow> CanonicalHeaderKey k \<noteq> ''Authorization'' \<Longrightarrow> R (q\<lparr>Header := Header_Set k v (Header q)\<rparr>)"
    and loaded: "R q \<Longrightarrow> R (q\<lparr>GetBody := g\<rparr>)"
    and sent: "J s \<Longrightarrow> R q \<Longrightarrow> do_request env q s = Some (r, t) \<Longrightarrow> (case r of Ok resp \<Rightarrow> K resp t | _ \<Rightarrow> J t)"
    and ended: "K resp s \<Longrightarrow> closing (bodyId resp) evs \<Longrightarrow> J (emit evs s)"
begin

lemma newRequest_kept:
  assumes "J s" and "absolute path" and "newRequest meth path body s = Some (r, s')"
  shows "J s' \<and> (\<forall>q. r = Ok q \<longrightarrow> R q)"
proof -
  have "J s'" using assms(1,3) logged by (auto simp: newRequest_def Let_def split: sum.splits)
  with assms made show ?thesis by blast
qed

lemma newJSONRequest_kept:
  assumes "J s" and "absolute path" and "newJSONRequest meth path body s = Some (r, s')"
  shows "J s' \<and> (\<forall>q. r = Ok q \<longrightarrow> R q)"
proof -
  obtain r1 s1 where n: "newRequest meth path (BytesReader (json_encode body)) s = Some (r1, s1)"
    using newRequest_returns by blast
  note kept = newRequest_kept [OF assms(1,2) n]
  show ?thesis
  proof (cases r1)
    case (Ok q)
    from kept Ok have "R (q\<lparr>Header := Header_Set ''Content-Type'' ''application/json'' (Header q)\<rparr>)"
      by (intro announced header_keys) simp
    from loaded [OF this] Ok kept assms(3) n show ?thesis
      by (auto simp: newJSONRequest_def Let_def prog_defs intro!: logged)
  qed (use kept assms(3) n in \<open>auto simp: newJSONRequest_def Let_def bindP_def\<close>)
qed

lemma doJSON_kept:
  assumes "J s" and "R req" and "doJSON env req dec zero err s = Some (r, s')"
  shows "J s'"
proof -
  have "R (accept_json req)" unfolding accept_json_def by (intro announced header_keys assms)
  moreover obtain r1 s1 where run: "do_request env (accept_json req) s = Some (r1, s1)"
    using assms(3) by (auto simp: doJSON_def accept_json_def Let_def bindP_def split: option.splits)
  ultimately have kept: "case r1 of Ok resp \<Rightarrow> K resp s1 | _ \<Rightarrow> J s1" using sent assms(1) by blast
  show ?thesis
  proof (cases r1)
    case (Ok resp)
    with kept have K: "K resp s1" by simp
    show ?thesis
    proof (cases "go_div (rStatusCode resp) 100 = 2")
      case True
      from doJSON_good_status [OF run [unfolded Ok] True, of dec zero err] assms(3) show ?thesis
        by (auto simp: Let_def split: sum.splits option.splits intro!: ended [OF K])
    next
      case False
      from doJSON_bad_status [OF run [unfolded Ok] False, of dec zero err] assms(3) show ?thesis
        by (auto simp: drained_event_def split: option.splits intro!: ended [OF K])
    qed
  next
    case (Err e)
    with run kept assms(3) show ?thesis by (simp add: doJSON_failed_request)
  next
    case (Panic msg)
    with run kept assms(3) show ?thesis
      by (simp add: doJSON_def accept_json_def [symmetric] Let_def bindP_def)
  qed
qed

lemma get_json_kept:
  assumes "absolute path"
  shows "keeps J (get_json env meth path fs zero)"
  unfolding keeps_def
proof (intro allI impI)
  fix s r s'
  assume J: "J s" and run: "get_json env meth path fs zero s = Some (r, s')"
  obtain r1 s1 where n: "newRequest meth path NilBody s = Some (r1, s1)" using newRequest_returns by blast
  note kept = newRequest_kept [OF J assms n]
  show "J s'"
  proof (cases r1)
    case (Ok q)
    with run n have "doJSON env q (dec_struct (resp_fields @ fs)) zero (Some resp_Err) s1 = Some (r, s')"
      by (simp add: get_json_def bindP_def)
    with kept Ok show ?thesis by (auto intro: doJSON_kept)
  qed (use run n kept in \<open>auto simp: get_json_def bindP_def\<close>)
qed

lemma call_json_kept:
  assumes "absolute path"
  shows "keeps J (call_json env meth path body fs zero)"
  unfolding keeps_def
proof (intro allI impI)
  fix s r s'
  assume J: "J s" and run: "call_json env meth path body fs zero s = Some (r, s')"
  obtain r1 s1 where n: "newJSONRequest meth path body s = Some (r1, s1)" using newJSONRequest_returns by blast
  note kept = newJSONRequest_kept [OF J assms n]
  show "J s'"
  proof (cases r1)
    case (Ok q)
    with run n have "doJSON env q (dec_struct (resp_fields @ fs)) zero (Some resp_Err) s1 = Some (r, s')"
      by (simp add: call_json_def bindP_def)
    with kept Ok show ?thesis by (auto intro: doJSON_kept)
  qed (use run n kept in \<open>auto simp: call_json_def bindP_def\<close>)
qed

lemma post_form_kept:
  assumes "absolute path"
  shows "keeps J (post_form env boundary path body fs zero)"
  unfolding keeps_def
proof (intro allI impI)
  fix s r s'
  assume J: "J s" and run: "post_form env boundary path body fs zero s = Some (r, s')"
  obtain r1 s1 where n: "newRequest ''POST'' path (StreamReader body) s = Some (r1, s1)" using newRequest_returns by blast
  note kept = newRequest_kept [OF J assms n]
  show "J s'"
  proof (cases r1)
    case (Ok q)
    let ?q = "q\<lparr>Header := Header_Set ''Content-Type'' (FormDataContentType boundary) (Header q)\<rparr>"
    from Ok run n have "doJSON env ?q (dec_struct (resp_fields @ fs)) zero (Some resp_Err) s1 = Some (r, s')"
      by (simp add: post_form_def bindP_def)
    from doJSON_kept [OF _ _ this] show ?thesis using kept Ok announced [OF _ header_keys(3)] by blast
  qed (use run n kept in \<open>auto simp: post_form_def bindP_def\<close>)
qed


section \<open>The operations\<close>

lemma download_kept:
  assumes "J s" and "GetAttachment env i s = Some (r, s')"
  shows "(\<exists>n c resp. r = Ok (n, c) \<and> bodyId resp = n \<and> K resp s') \<or> ((\<forall>x. r \<noteq> Ok x) \<and> J s')"
proof -
  obtain r1 s1 where n: "newRequest ''GET'' (''/attachments/'' @ i) NilBody s = Some (r1, s1)" using newRequest_returns by blast
  note kept = newRequest_kept [OF assms(1) _ n]
  show ?thesis
  proof (cases r1)
    case (Ok q)
    then obtain r2 s2 where run: "do_request env q s1 = Some (r2, s2)"
      using assms(2) n by (auto simp: GetAttachment_def bindP_def split: option.splits)
    have 2: "case r2 of Ok resp \<Rightarrow> K resp s2 | _ \<Rightarrow> J s2" using sent [OF _ _ run] kept Ok by simp
    show ?thesis
    proof (cases r2)
      case r2: (Ok resp)
      with 2 have K: "K resp s2" by simp
      have "J (drainAndClose (Some (bodyId resp, u)) s2)" for u
        unfolding drainAndClose_def by (simp add: ended [OF K])
      with K assms(2) n Ok run r2 show ?thesis
        by (auto simp: GetAttachment_def Let_def prog_defs split: if_splits)
    qed (use assms(2) n Ok run 2 in \<open>auto simp: GetAttachment_def bindP_def\<close>)
  qed (use assms(2) n kept in \<open>auto simp: GetAttachment_def bindP_def\<close>)
qed

lemma refresh_kept: "keeps J (Client_AuthRefresh env a)"
  unfolding keeps_def
proof (intro allI impI)
  fix s r s'
  assume J: "J s" and run: "Client_AuthRefresh env a s = Some (r, s')"
  obtain body where body: "Client_AuthRefresh env a = bindP (newJSONRequest ''POST'' ''/auth/refresh'' body) (\<lambda>req.
     bindP (doJSON env (req\<lparr>Header := Header_Set ''X-Pm-Uid'' (UID a) (Header req)\<rparr>)
              (dec_struct (resp_fields @ authResp_fields)) zero_authResp (Some resp_Err)) (\<lambda>respData.
     bindP (getP (\<lambda>s. auth (Now env (world s)) respData)) (\<lambda>b.
     returnP (b\<lparr>PasswordMode := PasswordMode a\<rparr>))))"
    by (rule that [OF Client_AuthRefresh_def])
  obtain r1 s1 where n: "newJSONRequest ''POST'' ''/auth/refresh'' body s = Some (r1, s1)"
    using newJSONRequest_returns by blast
  note kept = newJSONRequest_kept [OF J _ n]
  show "J s'"
  proof (cases r1)
    case (Ok q)
    with run n obtain r2 where "doJSON env (q\<lparr>Header := Header_Set ''X-Pm-Uid'' (UID a) (Header q)\<rparr>)
        (dec_struct (resp_fields @ authResp_fields)) zero_authResp (Some resp_Err) s1 = Some (r2, s')"
      unfolding body by (auto simp: prog_defs split: option.splits outcome.splits)
    from doJSON_kept [OF _ _ this] kept Ok announced [OF _ header_keys(6)] show ?thesis by simp
  qed (use run n kept in \<open>auto simp: body bindP_def\<close>)
qed

lemma rand_kept: "keeps J (with_randReader env m)"
  using moved by (auto simp: keeps_def with_randReader_def split: option.splits prod.splits)

lemma logout_kept: "keeps J (Client_Logout env)"
  unfolding Client_Logout_def by (intro keeps_bind get_json_kept keeps_modify cleared) simp_all

lemma salts_kept: "keeps J (Client_ListKeySalts env)"
  unfolding Client_ListKeySalts_def by (intro keeps_bind get_json_kept) (auto split: sum.split)

end

section \<open>Signing in\<close>

text \<open>The key ring of the client is one of OpenPGP entities.\<close>

locale login_contract = contract env J R K
  for env :: "('w, 'p entity) env" and J R K
begin

lemma unlock_keys_kept: "keeps J (unlock_keys lib kr salts pass keys)"
proof (induction lib kr salts pass keys rule: unlock_keys.induct)
  case (3 lib kr salts pass key keys)
  have "keeps J (modifyP (emit [Log l m as]))" for l m as by (intro keeps_modify logged)
  with 3 show ?case by (auto split: outcome.split intro!: keeps_bind)
qed auto

lemma unlockKeyRing_kept: "keeps J (unlockKeyRing lib keys kr salts pass)"
  unfolding unlockKeyRing_def by (intro keeps_bind unlock_keys_kept) (simp add: keeps_raise keeps_return)

lemma unlock_addresses_kept: "keeps J (unlock_addresses lib kr salts pass addrs)"
proof (induction lib kr salts pass addrs rule: unlock_addresses.induct)
  case (3 lib kr salts pass addr addrs)
  have "keeps J (modifyP (emit [Log l m as]))" for l m as by (intro keeps_modify logged)
  with 3 show ?case by (auto split: sum.split intro!: keeps_bind keeps_try keeps_return unlockKeyRing_kept)
qed auto

text \<open>\<open>Unlock\<close> keeps what holds once the session is installed.\<close>

lemma unlock_kept:
  assumes "J (s\<lparr>cl := (cl s)\<lparr>uid := UID a, accessToken := AccessToken a\<rparr>\<rparr>)"
    and "Client_Unlock env lib a salts passphrase s = Some (r, s')"
  shows "J s'"
proof -
  have "keeps J (if ring = [] then raiseP (Wrapped ''auth'' (Sentinel ErrNoUnlockableKeys))
      else bindP (modifyP (\<lambda>s. s\<lparr>cl := (cl s)\<lparr>keyRing := ring\<rparr>\<rparr>)) (\<lambda>_. returnP ring))" for ring
    by (auto intro!: keeps_bind keeps_modify ring)
  then have rest: "keeps J (bindP (GetCurrentUser env) (\<lambda>u.
     (case u of
        None \<Rightarrow> panicP ''nil pointer dereference''
      | Some user \<Rightarrow>
          bindP (unlockKeyRing lib (usrKeys user) [] salts (bytes_of passphrase)) (\<lambda>userKeyRing.
          bindP (ListAddresses env) (\<lambda>addrs.
          bindP (unlock_addresses lib userKeyRing salts (bytes_of passphrase) addrs) (\<lambda>ring.
          if ring = [] then raiseP (Wrapped ''auth'' (Sentinel ErrNoUnlockableKeys))
          else
            bindP (modifyP (\<lambda>s. s\<lparr>cl := (cl s)\<lparr>keyRing := ring\<rparr>\<rparr>)) (\<lambda>_. returnP ring)))))))"
    unfolding GetCurrentUser_def ListAddresses_def
    by (auto split: option.split intro!: keeps_bind get_json_kept unlockKeyRing_kept unlock_addresses_kept)
  from assms(2) show ?thesis
    unfolding Client_Unlock_def by (auto simp: bindP_def [of "modifyP _"] modifyP_def intro: keepsD [OF rest assms(1)])
qed

text \<open>\<open>Auth\<close> keeps it too, or ends by installing the session that it returns.\<close>

lemma auth_kept:
  assumes "J s" and "Client_Auth env lib username password info s = Some (r, s')"
  shows "J s' \<or> (\<exists>t a. J t \<and> r = Ok a \<and> s' = t\<lparr>cl := (cl t)\<lparr>uid := UID a, accessToken := AccessToken a\<rparr>\<rparr>)"
proof -
  define installs where "installs r s' \<longleftrightarrow> (\<exists>t a. J t \<and> r = Ok a \<and> s' = t\<lparr>cl := (cl t)\<lparr>uid := UID a, accessToken := AccessToken a\<rparr>\<rparr>)"
    for r :: "(error, Auth) outcome" and s'
  have step: "hoare J (bindP m f) (\<lambda>r s'. J s' \<or> installs r s')"
    if "keeps J m" "\<And>a. hoare J (f a) (\<lambda>r s'. J s' \<or> installs r s')"
    for m :: "('w, 'p entity, 'x) io" and f :: "'x \<Rightarrow> ('w, 'p entity, Auth) io"
    by (rule hoare_bind [where R = "\<lambda>a. J"]) (use that in \<open>auto simp: keeps_def hoare_def split: outcome.split\<close>)
  have last: "hoare J (bindP (getP g) (\<lambda>auth.
      bindP (modifyP (\<lambda>s. s\<lparr>cl := (cl s)\<lparr>uid := UID auth, accessToken := AccessToken auth\<rparr>\<rparr>)) (\<lambda>_.
      returnP auth))) (\<lambda>r s'. J s' \<or> installs r s')" for g
    by (auto simp: hoare_def prog_defs installs_def)
  have raise: "hoare J (raiseP e) (\<lambda>r s'. J s' \<or> installs r s')" for e
    by (auto simp: hoare_def raiseP_def)
  have "hoare J (Client_Auth env lib username password info) (\<lambda>r s'. J s' \<or> installs r s')"
    unfolding Client_Auth_def Client_AuthInfo_def
    apply (rule step)
     apply (auto split: option.split intro!: keeps_bind call_json_kept) [1]
    apply (rule step)
     apply (intro keeps_mapErr rand_kept)
    apply (rule step)
     apply (simp add: call_json_kept)
    using last raise by (auto split: option.split)
  from hoareD [OF this assms] show ?thesis by (simp add: installs_def)
qed

end

section \<open>Providers\<close>

text \<open>The books on response bodies: \<open>S\<close> are the bodies that stay open.\<close>

sublocale tidy_env \<subseteq> books: contract env "\<lambda>s. books_ok s \<and> still_open s = S" "\<lambda>q. True"
  "\<lambda>resp s. books_ok s \<and> bodyId resp \<notin> S \<and> still_open s = insert (bodyId resp) S" for S
proof
  fix s t :: "('w, 'k) st" and q r
  assume "books_ok s \<and> still_open s = S" and "do_request env q s = Some (r, t)"
  then show "case r of Ok resp \<Rightarrow> books_ok t \<and> bodyId resp \<notin> S \<and> still_open t = insert (bodyId resp) S
      | _ \<Rightarrow> books_ok t \<and> still_open t = S"
    using request_books by (fastforce split: outcome.splits)
next
  fix resp and s :: "('w, 'k) st" and evs
  assume "books_ok s \<and> bodyId resp \<notin> S \<and> still_open s = insert (bodyId resp) S" and "closing (bodyId resp) evs"
  then show "books_ok (emit evs s) \<and> still_open (emit evs s) = S"
    using books_close [of s "bodyId resp" evs] by (auto simp: closing_def)
qed (auto simp: books_quiet books_ok_def still_open_def)

context tidy_env
begin

lemma keeps_books:
  "contract env (\<lambda>s. books_ok s \<and> still_open s = S) (\<lambda>q. True)
     (\<lambda>resp s. books_ok s \<and> bodyId resp \<notin> S \<and> still_open s = insert (bodyId resp) S)"
  by (rule books.contract_axioms)

end

text \<open>An invariant that every single step of the transport keeps.\<close>

locale kept =
  fixes env :: "('w, 'k) env" and I :: "('w, 'k) st \<Rightarrow> bool" and R :: "request \<Rightarrow> bool"
  assumes noted: "I s \<Longrightarrow> (\<exists>l m as. e = Log l m as) \<or> (\<exists>i n. e = BodyDrain i n) \<or> (\<exists>i. e = BodyClose i) \<Longrightarrow> I (emit [e] s)"
    and step_moved: "I s \<Longrightarrow> I (s\<lparr>world := w\<rparr>)"
    and step_ring: "I s \<Longrightarrow> I (s\<lparr>cl := (cl s)\<lparr>keyRing := ks\<rparr>\<rparr>)"
    and step_cleared: "I s \<Longrightarrow> I (s\<lparr>cl := (cl s)\<lparr>uid := [], accessToken := [], keyRing := []\<rparr>\<rparr>)"
    and unanswered: "I s \<Longrightarrow> R q \<Longrightarrow> I (emit [Sent q] (s\<lparr>world := w\<rparr>))"
    and answered: "I s \<Longrightarrow> R q \<Longrightarrow> I (sent_state q w s)"
    and called: "I s \<Longrightarrow> R q \<Longrightarrow> may_retry s q \<Longrightarrow>
      RunReAuth env (the (reauth (cl s))) (reauth_state q rep w s) = Some (r, t) \<Longrightarrow> I t"
    and built: "I s \<Longrightarrow> absolute path \<Longrightarrow> http_NewRequest meth (baseURL (cl s) @ path) body = Inr q \<Longrightarrow> R q"
    and authorized: "I s \<Longrightarrow> R q \<Longrightarrow> R (setRequestAuthorization (cl s) q)"
    and step_announced: "R q \<Longrightarrow> CanonicalHeaderKey k \<noteq> ''Authorization'' \<Longrightarrow> R (q\<lparr>Header := Header_Set k v (Header q)\<rparr>)"
    and step_loaded: "R q \<Longrightarrow> R (q\<lparr>ReqBody := b\<rparr>)" "R q \<Longrightarrow> R (q\<lparr>GetBody := g\<rparr>)"
begin

lemma noted_all:
  assumes "I s" and "\<forall>e \<in> set evs. (\<exists>l m as. e = Log l m as) \<or> (\<exists>i n. e = BodyDrain i n) \<or> (\<exists>i. e = BodyClose i)"
  shows "I (emit evs s)"
  using assms
proof (induction evs arbitrary: s)
  case (Cons e evs)
  then have "I (emit [e] s)" using noted by auto
  with Cons have "I (emit evs (emit [e] s))" by simp
  then show ?case by (simp add: emit_def)
qed (simp add: emit_def)

lemma attempt_kept:
  assumes "I s" and "R req" and "do_attempt env req s = Some (att, s')"
  shows "I s' \<and> (\<forall>q. att = Again q \<longrightarrow> R q)"
proof -
  have agent: "R (with_agent s req)" unfolding with_agent_def by (intro step_announced header_keys assms)
  show ?thesis
  proof (cases rule: do_attempt_cases [of env s req])
    case (transport e w)
    with assms(3) unanswered [OF assms(1) agent] show ?thesis by (auto simp: do_attempt_transport_error)
  next
    case (answer rep w)
    with assms(3) answered [OF assms(1) agent] show ?thesis
      by (auto simp: do_attempt_answer skip_note_def intro!: noted_all)
  next
    case (retry rep w)
    with assms(3) obtain r where run:
      "RunReAuth env (the (reauth (cl s))) (reauth_state (with_agent s req) rep w s) = Some (r, s')"
      and att: "att = (case r of Ok _ \<Rightarrow> next_request (with_agent s req) s' | Err e \<Rightarrow> Done (Err e) | Panic m \<Rightarrow> Done (Panic m))"
      by (auto simp: do_attempt_retry split: option.splits outcome.splits)
    have "I s'" using called [OF assms(1) agent _ run] retry by simp
    with att agent show ?thesis
      by (auto simp: next_request_def intro!: step_loaded authorized split: outcome.splits if_splits option.splits sum.splits)
  qed
qed

lemma do_request_kept:
  assumes "do_request env req s = Some (r, s')" and "I s" and "R req"
  shows "I s'"
  using assms
proof (induction rule: do_request_induct)
  case (stop req s r s')
  then show ?case using attempt_kept by blast
next
  case (again req s req1 s1 r s')
  then show ?case using attempt_kept by blast
qed

end

sublocale kept \<subseteq> contract env I R "\<lambda>resp. I"
proof
  fix s t :: "('w, 'k) st" and meth path body q
  assume "I s" and "absolute path" and "newRequest meth path body s = Some (Ok q, t)"
  then obtain q0 where "http_NewRequest meth (baseURL (cl s) @ path) body = Inr q0"
    and q: "q = setRequestAuthorization (cl s) (q0\<lparr>Header := Header_Set ''X-Pm-Apiversion'' (Itoa APIVersion)
      (Header_Set ''X-Pm-Appversion'' (appVersion (cl s)) (Header q0))\<rparr>)"
    by (auto simp: newRequest_def Let_def split: sum.splits)
  then have "R q0" using built [OF \<open>I s\<close> \<open>absolute path\<close>] by blast
  from step_announced [OF step_announced [OF this header_keys(1)] header_keys(2)] show "R q"
    unfolding q by (intro authorized \<open>I s\<close>) simp
next
  fix s t :: "('w, 'k) st" and q r
  assume "I s" "R q" "do_request env q s = Some (r, t)"
  then show "case r of Ok resp \<Rightarrow> I t | _ \<Rightarrow> I t" using do_request_kept by (cases r) auto
next
  fix resp and s :: "('w, 'k) st" and evs
  assume "I s" and "closing (bodyId resp) evs"
  then show "I (emit evs s)" by (intro noted_all) (auto simp: closing_def)
qed (auto intro: noted step_moved step_ring step_cleared step_announced step_loaded)

context kept
begin

lemma keeps_invariant: "contract env I R (\<lambda>resp. I)"
  by (rule contract_axioms)

end

end
