(* ===== verification/Sessions.thy ===== *)
theory Sessions
  imports Keeping
begin

text \<open>
  The client as a whole: every networked operation as one call, and sessions in which a caller
  makes any calls in any order, whatever their outcomes, while the world moves on in between.
\<close>

section \<open>The calls\<close>

datatype client_call =
    AuthInfoCall string
  | AuthCall string string "AuthInfo option"
  | AuthTOTPCall string
  | AuthRefreshCall Auth
  | ListKeySaltsCall
  | UnlockCall Auth key_salts string
  | LogoutCall
  | GetCurrentUserCall
  | ListAddressesCall
  | GetPublicKeysCall string
  | GetEventCall string
  | ListMessagesCall "MessageFilter option"
  | CountMessagesCall string
  | GetMessageCall string
  | CreateDraftMessageCall "Message option" string
  | UpdateDraftMessageCall "Message option"
  | MarkMessagesReadCall "string list option"
  | MarkMessagesUnreadCall "string list option"
  | DeleteMessagesCall "string list option"
  | UndeleteMessagesCall "string list option"
  | LabelMessagesCall string "string list option"
  | UnlabelMessagesCall string "string list option"
  | SendMessageCall "OutgoingMessage option"
  | ListLabelsCall
  | GetConversationCall string string
  | ListCalendarsCall int int
  | ListCalendarEventsCall string "CalendarEventFilter option"
  | ListContactsCall int int
  | ListContactsEmailsCall int int
  | ListContactsExportCall int int
  | GetContactCall string
  | CreateContactsCall "ContactImport option list option"
  | UpdateContactCall string "ContactImport option"
  | DeleteContactsCall "string list option"
  | DeleteAllContactsCall
  | GetAttachmentCall string
  | CreateAttachmentCall string "Attachment option" reader
  | ImportCall multipart_writer

text \<open>Of the results only a session and the body of a download matter to the client itself.\<close>

datatype call_result = Plain | Session Auth | Download nat string

definition plain :: "('w, 'k, 'a) io \<Rightarrow> ('w, 'k, call_result) io" where
  "plain m = bindP m (\<lambda>_. returnP Plain)"

fun exec :: "(body_end \<Rightarrow> ('w, 'p entity) env) \<Rightarrow> 'p lib \<Rightarrow> client_call \<Rightarrow> ('w, 'p entity, call_result) io" where
  "exec net lib (AuthInfoCall u) = plain (Client_AuthInfo (net Complete) u)"
| "exec net lib (AuthCall u p i) = bindP (Client_Auth (net Complete) lib u p i) (\<lambda>a. returnP (Session a))"
| "exec net lib (AuthTOTPCall code) = plain (Client_AuthTOTP (net Complete) code)"
| "exec net lib (AuthRefreshCall a) = plain (Client_AuthRefresh (net Complete) a)"
| "exec net lib ListKeySaltsCall = plain (Client_ListKeySalts (net Complete))"
| "exec net lib (UnlockCall a salts p) = plain (Client_Unlock (net Complete) lib a salts p)"
| "exec net lib LogoutCall = plain (Client_Logout (net Complete))"
| "exec net lib GetCurrentUserCall = plain (GetCurrentUser (net Complete))"
| "exec net lib ListAddressesCall = plain (ListAddresses (net Complete))"
| "exec net lib (GetPublicKeysCall email) = plain (GetPublicKeys (net Complete) email)"
| "exec net lib (GetEventCall i) = plain (Client_GetEvent (net Complete) i)"
| "exec net lib (ListMessagesCall f) = plain (ListMessages (net Complete) f)"
| "exec net lib (CountMessagesCall a) = plain (CountMessages (net Complete) a)"
| "exec net lib (GetMessageCall i) = plain (GetMessage (net Complete) i)"
| "exec net lib (CreateDraftMessageCall m i) = plain (CreateDraftMessage (net Complete) m i)"
| "exec net lib (UpdateDraftMessageCall m) = plain (UpdateDraftMessage (net Complete) m)"
| "exec net lib (MarkMessagesReadCall ids) = plain (MarkMessagesRead (net Complete) ids)"
| "exec net lib (MarkMessagesUnreadCall ids) = plain (MarkMessagesUnread (net Complete) ids)"
| "exec net lib (DeleteMessagesCall ids) = plain (DeleteMessages (net Complete) ids)"
| "exec net lib (UndeleteMessagesCall ids) = plain (UndeleteMessages (net Complete) ids)"
| "exec net lib (LabelMessagesCall l ids) = plain (LabelMessages (net Complete) l ids)"
| "exec net lib (UnlabelMessagesCall l ids) = plain (UnlabelMessages (net Complete) l ids)"
| "exec net lib (SendMessageCall m) = plain (SendMessage (net Complete) m)"
| "exec net lib ListLabelsCall = plain (ListLabels (net Complete))"
| "exec net lib (GetConversationCall i m) = plain (GetConversation (net Complete) i m)"
| "exec net lib (ListCalendarsCall page n) = plain (ListCalendars (net Complete) page n)"
| "exec net lib (ListCalendarEventsCall i f) = plain (ListCalendarEvents (net Complete) i f)"
| "exec net lib (ListContactsCall page n) = plain (ListContacts (net Complete) page n)"
| "exec net lib (ListContactsEmailsCall page n) = plain (ListContactsEmails (net Complete) page n)"
| "exec net lib (ListContactsExportCall page n) = plain (ListContactsExport (net Complete) page n)"
| "exec net lib (GetContactCall i) = plain (GetContact (net Complete) i)"
| "exec net lib (CreateContactsCall cs) = plain (CreateContacts (net Complete) cs)"
| "exec net lib (UpdateContactCall i c) = plain (UpdateContact (net Complete) i c)"
| "exec net lib (DeleteContactsCall ids) = plain (DeleteContacts (net Complete) ids)"
| "exec net lib DeleteAllContactsCall = plain (DeleteAllContacts (net Complete))"
| "exec net lib (GetAttachmentCall i) = bindP (GetAttachment (net Complete) i) (\<lambda>(n, c). returnP (Download n c))"
| "exec net lib (CreateAttachmentCall boundary a r) = plain (CreateAttachment net boundary a r)"
| "exec net lib (ImportCall w) = plain (import_request net w)"

text \<open>A session from \<open>s0\<close>: the calls with their outcomes, and the state they led to.\<close>

inductive session ::
  "(body_end \<Rightarrow> ('w, 'p entity) env) \<Rightarrow> 'p lib \<Rightarrow> ('w, 'p entity) st \<Rightarrow>
     (client_call \<times> (error, call_result) outcome) list \<Rightarrow> ('w, 'p entity) st \<Rightarrow> bool"
  for net lib s0 where
    begins: "session net lib s0 [] s0"
  | calls: "session net lib s0 h s \<Longrightarrow> exec net lib c s = Some (r, t) \<Longrightarrow> session net lib s0 (h @ [(c, r)]) t"
  | passes: "session net lib s0 h s \<Longrightarrow> session net lib s0 h (s\<lparr>world := w\<rparr>)"

inductive_cases session_emptyE: "session net lib s0 [] s"

text \<open>The sessions that were installed on the way.\<close>

definition installed :: "(client_call \<times> (error, call_result) outcome) list \<Rightarrow> Auth set" where
  "installed h = {a. (\<exists>u p i. (AuthCall u p i, Ok (Session a)) \<in> set h) \<or> (\<exists>salts p r. (UnlockCall a salts p, r) \<in> set h)}"

lemma installed_append [simp]: "installed (h @ h') = installed h \<union> installed h'"
  by (auto simp: installed_def)

fun signs_in :: "client_call \<Rightarrow> bool" where
  "signs_in (AuthCall u p i) = True"
| "signs_in (UnlockCall a salts p) = True"
| "signs_in c = False"

fun downloads :: "client_call \<Rightarrow> bool" where
  "downloads (GetAttachmentCall i) = True"
| "downloads c = False"

definition with_session :: "Auth \<Rightarrow> ('w, 'k) st \<Rightarrow> ('w, 'k) st" where
  "with_session a s = s\<lparr>cl := (cl s)\<lparr>uid := UID a, accessToken := AccessToken a\<rparr>\<rparr>"

lemma with_session_simps [simp]:
  "uid (cl (with_session a s)) = UID a" "accessToken (cl (with_session a s)) = AccessToken a" "baseURL (cl (with_session a s)) = baseURL (cl s)"
  "reauth (cl (with_session a s)) = reauth (cl s)" "trace (with_session a s) = trace s" "nextBody (with_session a s) = nextBody s"
  by (simp_all add: with_session_def)

lemma bind_return_Some:
  "bindP m (\<lambda>x. returnP (f x)) s = Some (r, t) \<longleftrightarrow>
     (\<exists>r0. m s = Some (r0, t) \<and> r = (case r0 of Ok x \<Rightarrow> Ok (f x) | Err e \<Rightarrow> Err e | Panic msg \<Rightarrow> Panic msg))"
  by (auto simp: bindP_def returnP_def split: option.splits outcome.splits prod.splits)

section \<open>What every call keeps\<close>

locale client_contract =
  fixes net :: "body_end \<Rightarrow> ('w, 'p entity) env"
    and J :: "('w, 'p entity) st \<Rightarrow> bool" and R :: "request \<Rightarrow> bool" and K :: "response \<Rightarrow> ('w, 'p entity) st \<Rightarrow> bool"
  assumes transport: "contract (net e) J R K"

sublocale client_contract \<subseteq> login_contract "net e" J R K for e
  by (rule login_contract.intro) (rule transport)

context client_contract
begin

lemma keeps_plain: "keeps J m \<Longrightarrow> keeps J (plain m)"
  unfolding plain_def by (intro keeps_bind keeps_return)

lemma post_form_complete: "absolute path \<Longrightarrow> keeps J (post_form (net e) boundary path body fs zero)"
  by (rule post_form_kept)

lemma exec_kept:
  assumes "\<not> signs_in c" and "\<not> downloads c"
  shows "keeps J (exec net lib c)"
  using assms
  by (cases c)
    (auto simp: Client_AuthInfo_def Client_AuthTOTP_def GetCurrentUser_def ListAddresses_def GetPublicKeys_def
      Client_GetEvent_def ListMessages_def CountMessages_def GetMessage_def CreateDraftMessage_def UpdateDraftMessage_def
      MarkMessagesRead_def MarkMessagesUnread_def DeleteMessages_def UndeleteMessages_def doMessages_def call_nil_def
      LabelMessages_def UnlabelMessages_def SendMessage_def ListLabels_def GetConversation_def ListCalendars_def
      calendarPath_def ListCalendarEvents_def ListContacts_def ListContactsEmails_def ListContactsExport_def
      GetContact_def CreateContacts_def UpdateContact_def DeleteContacts_def DeleteAllContacts_def CreateAttachment_def
      import_request_def Let_def
      intro!: keeps_plain keeps_bind keeps_return keeps_panic get_json_kept call_json_kept post_form_kept refresh_kept
        logout_kept salts_kept split: option.split prod.split)

lemma exec_auth:
  assumes "J s" and "exec net lib (AuthCall u p i) s = Some (r, t)"
  shows "J t \<or> (\<exists>t0 a. J t0 \<and> r = Ok (Session a) \<and> t = with_session a t0)"
proof -
  obtain r0 where "Client_Auth (net Complete) lib u p i s = Some (r0, t)"
    and r: "r = (case r0 of Ok a \<Rightarrow> Ok (Session a) | Err e \<Rightarrow> Err e | Panic msg \<Rightarrow> Panic msg)"
    using assms(2) by (auto simp: bind_return_Some)
  from auth_kept [OF assms(1) this(1)] r show ?thesis by (auto simp: with_session_def)
qed

lemma exec_unlock:
  assumes "J (with_session a s)" and "exec net lib (UnlockCall a salts p) s = Some (r, t)"
  shows "J t"
proof -
  obtain r0 where "Client_Unlock (net Complete) lib a salts p s = Some (r0, t)"
    using assms(2) by (auto simp: plain_def bind_return_Some)
  from unlock_kept [OF assms(1) [unfolded with_session_def] this] show ?thesis .
qed

lemma exec_download:
  assumes "J s" and "exec net lib (GetAttachmentCall i) s = Some (r, t)"
  shows "(\<exists>n c resp. r = Ok (Download n c) \<and> bodyId resp = n \<and> K resp t) \<or> ((\<forall>x. r \<noteq> Ok x) \<and> J t)"
proof -
  obtain r0 where "GetAttachment (net Complete) i s = Some (r0, t)"
    and r: "r = (case r0 of Ok (n, c) \<Rightarrow> Ok (Download n c) | Err e \<Rightarrow> Err e | Panic msg \<Rightarrow> Panic msg)"
    using assms(2)
    by (auto simp: bindP_def returnP_def split: option.splits outcome.splits prod.splits)
  from download_kept [OF assms(1) this(1)] r show ?thesis by (auto split: outcome.splits)
qed

lemma session_kept:
  assumes "session net lib s0 h s" and "J s0"
    and signed_on: "\<And>a s. a \<in> installed h \<Longrightarrow> J s \<Longrightarrow> J (with_session a s)"
    and download: "\<And>resp s. K resp s \<Longrightarrow> J s"
  shows "J s"
  using assms(1,2) signed_on
proof induction
  case (calls h s c r t)
  then have J: "J s" by simp
  show ?case
  proof (cases "signs_in c \<or> downloads c")
    case False
    then show ?thesis using keepsD [OF exec_kept J calls.hyps(2)] by blast
  next
    case True
    then show ?thesis
    proof (cases c)
      case (AuthCall u p i)
      have "a \<in> installed (h @ [(c, r)])" if "r = Ok (Session a)" for a
        using that AuthCall by (auto simp: installed_def)
      with exec_auth [OF J calls.hyps(2) [unfolded AuthCall]] calls.prems(2) show ?thesis by auto
    next
      case (UnlockCall a salts p)
      then have "a \<in> installed (h @ [(c, r)])" unfolding installed_def by simp blast
      from exec_unlock [OF calls.prems(2) [OF this J] calls.hyps(2) [unfolded UnlockCall]] show ?thesis .
    next
      case (GetAttachmentCall i)
      from exec_download [OF J calls.hyps(2) [unfolded this]] download show ?thesis by auto
    qed simp_all
  qed
qed (auto intro: moved)

end

text \<open>Both kinds of contract over the network of a session.\<close>

lemma client_contract_kept: "(\<And>e. kept (net e) I R) \<Longrightarrow> client_contract net I R (\<lambda>resp. I)"
  by (rule client_contract.intro) (rule kept.keeps_invariant)


lemma client_contract_books:
  "(\<And>e. tidy_env (net e)) \<Longrightarrow> client_contract net (\<lambda>s. books_ok s \<and> still_open s = S) (\<lambda>q. True)
     (\<lambda>resp s. books_ok s \<and> bodyId resp \<notin> S \<and> still_open s = insert (bodyId resp) S)"
  by (rule client_contract.intro) (rule tidy_env.keeps_books)

section \<open>No plaintext\<close>

text \<open>A request below a root URL.\<close>

definition under :: "string \<Rightarrow> request \<Rightarrow> bool" where
  "under b q \<longleftrightarrow> url_parse (URL q) \<noteq> None \<and> (\<exists>path. absolute path \<and> URL q = b @ path)"

definition confined :: "string \<Rightarrow> ('w, 'k) st \<Rightarrow> bool" where
  "confined b s \<longleftrightarrow> baseURL (cl s) = b \<and> (\<forall>q \<in> set (requests (trace s)). under b q)"

lemma under_simps [simp]:
  "under b (q\<lparr>Header := h\<rparr>) = under b q" "under b (q\<lparr>ReqBody := x\<rparr>) = under b q" "under b (q\<lparr>GetBody := g\<rparr>) = under b q"
  "under b (setRequestAuthorization c q) = under b q"
  by (simp_all add: under_def)

lemma kept_confined:
  assumes "\<And>cb. keeps (confined b) (RunReAuth env cb)"
  shows "kept env (confined b) (under b)"
proof
  fix s t :: "('a, 'b) st" and q rep w r
  assume "confined b s" "under b q" and run: "RunReAuth env (the (reauth (cl s))) (reauth_state q rep w s) = Some (r, t)"
  then have "confined b (reauth_state q rep w s)" by (auto simp: confined_def)
  from keepsD [OF assms this run] show "confined b t" .
next
  fix s :: "('a, 'b) st" and path meth body q
  assume "confined b s" "absolute path" "http_NewRequest meth (baseURL (cl s) @ path) body = Inr q"
  then show "under b q" by (auto simp: confined_def under_def http_NewRequest_def split: option.splits)
qed (auto simp: confined_def)

text \<open>Callbacks that make calls of their own, with no callback of theirs, are confined with the client.\<close>

interpretation calls_confined: kept "env\<lparr>RunReAuth := no_callback\<rparr>" "confined b" "under b" for env :: "('w, 'k) env" and b
  by (rule kept_confined) (simp add: no_callback_def keeps_return)

lemma refresh_confined: "keeps (confined b) (RunReAuth (refresh_env (env\<lparr>RunReAuth := no_callback\<rparr>) a) cb)"
  unfolding refresh_env_simps refresh_callback_def
  by (intro keeps_bind calls_confined.refresh_kept keeps_return)

text \<open>
  C13.  Nothing goes in the clear, in any session: whatever options a client is built from and
  whatever calls are made on it, in any order and with any outcomes, every request that was
  sent went to a URL below the client's root, with the scheme https, or http and a loopback
  host.  This holds for every callback that keeps to the client's root, as those that make
  calls on the client do.
\<close>

theorem session_no_plaintext:
  assumes "NewClient (map option_of opts) = Inr c"
    and "\<And>e cb. keeps (confined (baseURL c)) (RunReAuth (net e) cb)"
    and "session net lib \<lparr>cl = c, world = w, nextBody = 0, trace = []\<rparr> h s" and "q \<in> set (requests (trace s))"
  shows "\<exists>p u. URL q = baseURL c @ p \<and> url_parse (URL q) = Some u \<and>
     (Scheme u = ''https'' \<or> (Scheme u = ''http'' \<and> isLoopbackHost (Hostname u)))"
proof -
  have "client_contract net (confined (baseURL c)) (under (baseURL c)) (\<lambda>resp. confined (baseURL c))"
    by (rule client_contract_kept [OF kept_confined [OF assms(2)]])
  from client_contract.session_kept [OF this assms(3)] have "confined (baseURL c) s"
    by (simp add: confined_def)
  with assms(4) obtain p u where "absolute p" "URL q = baseURL c @ p" "url_parse (URL q) = Some u"
    by (auto simp: confined_def under_def)
  with secure_base_request [OF NewClient_secure_base [OF assms(1)], of p u] show ?thesis
    by (auto simp: acceptable_def absolute_def)
qed

section \<open>No body is lost\<close>

text \<open>The bodies that were handed to the caller.\<close>

definition handed :: "(client_call \<times> (error, call_result) outcome) list \<Rightarrow> nat set" where
  "handed h = {n. \<exists>i x. (GetAttachmentCall i, Ok (Download n x)) \<in> set h}"

lemma handed_snoc:
  "handed (h @ [(GetAttachmentCall i, Ok (Download n x))]) = insert n (handed h)"
  "\<forall>x. r \<noteq> Ok x \<Longrightarrow> handed (h @ [(c, r)]) = handed h" "\<not> downloads c \<Longrightarrow> handed (h @ [(c, r)]) = handed h"
proof -
  show "handed (h @ [(GetAttachmentCall i, Ok (Download n x))]) = insert n (handed h)"
    unfolding handed_def by simp blast
  show "handed (h @ [(c, r)]) = handed h" if "\<forall>x. r \<noteq> Ok x" using that by (force simp: handed_def)
  show "handed (h @ [(c, r)]) = handed h" if "\<not> downloads c" using that by (force simp: handed_def)
qed

text \<open>
  C14.  In every session exactly those response bodies are open that were open before or that
  a download handed to the caller, each of them once; every other body was closed, whatever
  the calls and their outcomes.
\<close>

theorem session_bodies:
  assumes "\<And>e cb t r t'. books_ok t \<Longrightarrow> RunReAuth (net e) cb t = Some (r, t') \<Longrightarrow> books_ok t' \<and> still_open t' = still_open t"
    and "session net lib s0 h s" and "books_ok s0"
  shows "books_ok s \<and> still_open s = still_open s0 \<union> handed h"
  using assms(2)
proof induction
  case (calls h s c r t)
  let ?S = "still_open s0 \<union> handed h"
  have client: "client_contract net (\<lambda>s. books_ok s \<and> still_open s = S) (\<lambda>q. True)
     (\<lambda>resp s. books_ok s \<and> bodyId resp \<notin> S \<and> still_open s = insert (bodyId resp) S)" for S
    by (rule client_contract_books [OF tidy_env.intro]) (rule assms(1))
  show ?case
  proof (cases "downloads c")
    case True
    then obtain i where c: "c = GetAttachmentCall i" by (cases c) auto
    from client_contract.exec_download [OF client calls.IH calls.hyps(2) [unfolded c]] show ?thesis
    proof
      assume "\<exists>n x resp. r = Ok (Download n x) \<and> bodyId resp = n \<and> books_ok t \<and> bodyId resp \<notin> ?S \<and> still_open t = insert (bodyId resp) ?S"
      then obtain n x where "r = Ok (Download n x)" "books_ok t" "still_open t = insert n ?S" by blast
      then show ?thesis by (simp add: c handed_snoc)
    next
      assume "(\<forall>x. r \<noteq> Ok x) \<and> books_ok t \<and> still_open t = ?S"
      then show ?thesis by (simp add: handed_snoc)
    qed
  next
    case False
    have books: "books_ok t \<and> still_open t = ?S"
    proof (cases "signs_in c")
      case True
      then show ?thesis
      proof (cases c)
        case (AuthCall u p i)
        from client_contract.exec_auth [OF client calls.IH calls.hyps(2) [unfolded this]] show ?thesis
          by (auto simp: books_ok_def still_open_def)
      next
        case (UnlockCall a salts p)
        have "books_ok (with_session a s) \<and> still_open (with_session a s) = ?S"
          using calls.IH books_cong [of "with_session a s" s] by simp
        from client_contract.exec_unlock [OF client this calls.hyps(2) [unfolded UnlockCall]] show ?thesis .
      qed simp_all
    next
      case no: False
      from keepsD [OF client_contract.exec_kept [OF client no False] calls.IH calls.hyps(2)] show ?thesis .
    qed
    then show ?thesis using False by (simp add: handed_snoc)
  qed
next
  case begins
  with assms(3) show ?case by (simp add: handed_def)
next
  case (passes h s w)
  then show ?case using books_cong [of "s\<lparr>world := w\<rparr>" s] by simp
qed

section \<open>Credentials\<close>

text \<open>A request that carries no token, or one of \<open>T\<close>.\<close>

definition carries :: "string set \<Rightarrow> request \<Rightarrow> bool" where
  "carries T q \<longleftrightarrow> (case Header q ''Authorization'' of None \<Rightarrow> True | Some v \<Rightarrow> \<exists>t \<in> T. v = [''Bearer '' @ t])"

text \<open>Since \<open>s0\<close> only tokens of \<open>T\<close> were sent, and the client has no other.\<close>

definition only_tokens :: "('w, 'k) st \<Rightarrow> string set \<Rightarrow> ('w, 'k) st \<Rightarrow> bool" where
  "only_tokens s0 T s \<longleftrightarrow> (signed_in (cl s) \<longrightarrow> accessToken (cl s) \<in> T) \<and>
     (\<exists>evs. trace s = trace s0 @ evs \<and> (\<forall>q \<in> set (requests evs). carries T q))"

lemma carries_iff:
  "carries T q \<longleftrightarrow> Header q ''Authorization'' = None \<or> (\<exists>t \<in> T. Header q ''Authorization'' = Some [''Bearer '' @ t])"
  by (auto simp: carries_def split: option.split)

lemma carries_simps [simp]:
  "carries T (q\<lparr>ReqBody := x\<rparr>) = carries T q" "carries T (q\<lparr>GetBody := g\<rparr>) = carries T q"
  "CanonicalHeaderKey k \<noteq> ''Authorization'' \<Longrightarrow> carries T (q\<lparr>Header := Header_Set k v (Header q)\<rparr>) = carries T q"
  by (simp_all add: carries_def Header_Set_other)

lemma carries_authorized:
  "(signed_in c \<Longrightarrow> accessToken c \<in> T) \<Longrightarrow> carries T q \<Longrightarrow> carries T (setRequestAuthorization c q)"
  by (auto simp: carries_def setRequestAuthorization_def signed_in_def Header_Set_def)

lemma only_tokens_emit:
  assumes "only_tokens s0 T s" and "\<forall>q \<in> set (requests evs). carries T q" and "signed_in (cl t) \<longrightarrow> accessToken (cl t) \<in> T"
    and "trace t = trace s @ evs"
  shows "only_tokens s0 T t"
proof -
  from assms(1) obtain evs0 where "trace s = trace s0 @ evs0" "\<forall>q \<in> set (requests evs0). carries T q"
    by (auto simp: only_tokens_def)
  with assms(2-4) show ?thesis unfolding only_tokens_def by (intro conjI exI [of _ "evs0 @ evs"]) auto
qed

lemma only_tokens_start: "(signed_in (cl s0) \<longrightarrow> accessToken (cl s0) \<in> T) \<Longrightarrow> only_tokens s0 T s0"
  by (simp add: only_tokens_def)

lemma only_tokens_install: "AccessToken a \<in> T \<Longrightarrow> only_tokens s0 T s \<Longrightarrow> only_tokens s0 T (with_session a s)"
  by (simp add: only_tokens_def)

lemma kept_tokens:
  assumes "\<And>q rep w r t s. only_tokens s0 T s \<Longrightarrow> carries T q \<Longrightarrow> may_retry s q \<Longrightarrow>
      RunReAuth env (the (reauth (cl s))) (reauth_state q rep w s) = Some (r, t) \<Longrightarrow> only_tokens s0 T t"
  shows "kept env (only_tokens s0 T) (carries T)"
proof
  fix s :: "('a, 'b) st" and e
  assume I: "only_tokens s0 T s" and "(\<exists>l m as. e = Log l m as) \<or> (\<exists>i n. e = BodyDrain i n) \<or> (\<exists>i. e = BodyClose i)"
  then show "only_tokens s0 T (emit [e] s)"
    by (intro only_tokens_emit [OF I, where evs = "[e]"]) (auto simp: only_tokens_def)
next
  fix s :: "('a, 'b) st" and q w
  assume I: "only_tokens s0 T s" and R: "carries T q"
  then show "only_tokens s0 T (emit [Sent q] (s\<lparr>world := w\<rparr>))"
    by (intro only_tokens_emit [OF I, where evs = "[Sent q]"]) (auto simp: only_tokens_def)
  from I R show "only_tokens s0 T (sent_state q w s)"
    by (intro only_tokens_emit [OF I, where evs = "[Sent q, BodyOpen (nextBody s)]"]) (auto simp: only_tokens_def)
next
  fix s :: "('a, 'b) st" and path meth body q
  assume "http_NewRequest meth (baseURL (cl s) @ path) body = Inr q"
  then show "carries T q" by (auto simp: carries_def http_NewRequest_def split: option.splits)
next
  fix s :: "('a, 'b) st" and q
  assume "only_tokens s0 T s" "carries T q"
  then show "carries T (setRequestAuthorization (cl s) q)" by (auto simp: only_tokens_def intro: carries_authorized)
next
  fix s :: "('a, 'b) st" and q rep w r t
  assume "only_tokens s0 T s" "carries T q" "may_retry s q"
    "RunReAuth env (the (reauth (cl s))) (reauth_state q rep w s) = Some (r, t)"
  then show "only_tokens s0 T t" by (rule assms)
qed (auto simp: only_tokens_def signed_in_def)

text \<open>
  What \<open>Auth\<close> returned in a session, where the server had earned it: right after that call the last
  request is one with the proofs of a handshake, and the server's answer to it holds the
  proof that this handshake expects.
\<close>

definition earned ::
  "(body_end \<Rightarrow> ('w, 'p entity) env) \<Rightarrow> 'p lib \<Rightarrow> ('w, 'p entity) st \<Rightarrow>
     (client_call \<times> (error, call_result) outcome) list \<Rightarrow> Auth \<Rightarrow> bool" where
  "earned net lib s0 h a \<longleftrightarrow>
     (\<exists>h1 h2 u p i t base params rd. h = h1 @ (AuthCall u p i, Ok (Session a)) # h2 \<and>
        session net lib s0 (h1 @ [(AuthCall u p i, Ok (Session a))]) t \<and>
        verified_auth (net Complete) lib base u p params rd t a)"

lemma session_earned:
  assumes "session net lib s0 h s" and "(AuthCall u p i, Ok (Session a)) \<in> set h"
  shows "earned net lib s0 h a"
  using assms
proof induction
  case (calls h s c r t)
  show ?case
  proof (cases "(AuthCall u p i, Ok (Session a)) \<in> set h")
    case True
    with calls.IH obtain h1 h2 u p i t base params rd where "h = h1 @ (AuthCall u p i, Ok (Session a)) # h2"
      "session net lib s0 (h1 @ [(AuthCall u p i, Ok (Session a))]) t"
      "verified_auth (net Complete) lib base u p params rd t a" by (auto simp: earned_def)
    then show ?thesis unfolding earned_def
      by (intro exI [of _ h1] exI [of _ "h2 @ [(c, r)]"] exI) auto
  next
    case False
    then have c: "c = AuthCall u p i" "r = Ok (Session a)" using calls.prems by auto
    then have "Client_Auth (net Complete) lib u p i s = Some (Ok a, t)"
      using calls.hyps(2) by (auto simp: bindP_Some_Ok returnP_def)
    from Client_Auth_OkD [OF this] obtain base params rd where "verified_auth (net Complete) lib base u p params rd t a"
      by blast
    with session.calls [OF calls.hyps] c show ?thesis unfolding earned_def by blast
  qed
qed auto

text \<open>The access tokens a client got in a session, and before it.\<close>

definition tokens ::
  "(body_end \<Rightarrow> ('w, 'p entity) env) \<Rightarrow> 'p lib \<Rightarrow> ('w, 'p entity) st \<Rightarrow>
     (client_call \<times> (error, call_result) outcome) list \<Rightarrow> string set" where
  "tokens net lib s0 h = (if signed_in (cl s0) then {accessToken (cl s0)} else {}) \<union>
     AccessToken ` {a. (\<exists>salts p r. (UnlockCall a salts p, r) \<in> set h) \<or> earned net lib s0 h a}"

lemma installed_tokens:
  "session net lib s0 h s \<Longrightarrow> a \<in> installed h \<Longrightarrow> AccessToken a \<in> tokens net lib s0 h"
  using session_earned [of net lib s0 h s _ _ _ a] unfolding installed_def tokens_def by blast

text \<open>
  C15.  Every token that a session sends was given to the client: it is the one the client had at
  the start, that of an \<open>Auth\<close> of the session whose answer held the server proof that its
  handshake expected, that of a session handed to \<open>Unlock\<close>, or one that the callback installs
  (\<open>C\<close>).
\<close>

theorem session_credentials:
  assumes "\<And>T e cb. C \<subseteq> T \<Longrightarrow> keeps (only_tokens s0 T) (RunReAuth (net e) cb)"
    and "session net lib s0 h s"
  shows "\<exists>evs. trace s = trace s0 @ evs \<and>
     (\<forall>q \<in> set (requests evs). Header q ''Authorization'' = None \<or>
        (\<exists>t \<in> C \<union> tokens net lib s0 h. Header q ''Authorization'' = Some [''Bearer '' @ t]))"
proof -
  let ?T = "C \<union> tokens net lib s0 h"
  have callback: "only_tokens s0 ?T t"
    if "only_tokens s0 ?T s" "carries ?T q"
      "RunReAuth (net e) (the (reauth (cl s))) (reauth_state q rep w s) = Some (r, t)" for e q rep w r s t
  proof (rule keepsD [OF assms(1) _ that(3)])
    show "only_tokens s0 ?T (reauth_state q rep w s)"
      by (rule only_tokens_emit [OF that(1), where evs = "[Sent q, BodyOpen (nextBody s),
            BodyDrain (nextBody s) (min drain_cap (length (rContent rep))), BodyClose (nextBody s),
            ReAuthCall (the (reauth (cl s)))]"]) (use that in \<open>simp_all add: signed_in_def\<close>)
  qed simp
  have "client_contract net (only_tokens s0 ?T) (carries ?T) (\<lambda>resp. only_tokens s0 ?T)"
    by (rule client_contract_kept [OF kept_tokens]) (rule callback)
  from client_contract.session_kept [OF this assms(2) only_tokens_start only_tokens_install] have "only_tokens s0 ?T s"
    using installed_tokens [OF assms(2)] by (simp add: tokens_def)
  then show ?thesis unfolding only_tokens_def carries_iff by (elim conjE)
qed

text \<open>
  C16.  After \<open>Logout\<close> has succeeded the session is over: the key ring is gone, and until the next \<open>Auth\<close> or
  \<open>Unlock\<close>, whatever is called and however it ends, no request carries an authorization and the client
  stays signed out.
\<close>

theorem session_after_Logout:
  assumes "exec net lib LogoutCall s0 = Some (Ok x, s1)"
    and "session net lib s1 h s" and "\<forall>(c, r) \<in> set h. \<not> signs_in c"
  shows "keyRing (cl s1) = [] \<and> \<not> signed_in (cl s) \<and>
     (\<exists>evs. trace s = trace s1 @ evs \<and> (\<forall>q \<in> set (requests evs). Header q ''Authorization'' = None))"
proof -
  have out: "\<not> signed_in (cl s1) \<and> keyRing (cl s1) = []"
    using assms(1) by (auto simp: plain_def bind_return_Some Client_Logout_def bindP_def modifyP_def returnP_def signed_in_def
        split: option.splits outcome.splits prod.splits)
  have "kept (net e) (only_tokens s1 {}) (carries {})" for e
    by (rule kept_tokens) (auto simp: may_retry_def carries_def)
  then have client: "client_contract net (only_tokens s1 {}) (carries {}) (\<lambda>resp. only_tokens s1 {})"
    by (rule client_contract_kept)
  have "installed h = {}" using assms(3) by (force simp: installed_def)
  then have "only_tokens s1 {} s"
    by (intro client_contract.session_kept [OF client assms(2) only_tokens_start]) (simp_all add: out)
  then show ?thesis using out by (auto simp: only_tokens_def carries_def split: option.splits)
qed

end
