(* ===== verification/Scenarios.thy ===== *)
theory Scenarios
  imports Auth
begin

text \<open>
  Concrete runs: small environments, clients and requests on which the theorems that have
  hypotheses are applied.
\<close>

section \<open>Environments\<close>

definition client0 :: "nat entity client" where
  "client0 = \<lparr>baseURL = ''https://a'', appVersion = ''v'', userAgent = ''ua'', httpClient = DefaultClient,
     reauth = Some (Callback 0), logger = DiscardLogger, uid = ''u'', accessToken = ''old'', keyRing = []\<rparr>"

definition state0 :: "'k client \<Rightarrow> 'w \<Rightarrow> ('w, 'k) st" where
  "state0 c w = \<lparr>cl = c, world = w, nextBody = 0, trace = []\<rparr>"

definition request0 :: "string list option \<Rightarrow> (error + string) option \<Rightarrow> request" where
  "request0 h gb = \<lparr>Method = ''POST'', URL = ''https://a/x'', URLPath = ''/x'',
     Header = (\<lambda>k. if k = ''Authorization'' then h else None), ReqBody = Some ''data'', GetBody = gb\<rparr>"

text \<open>A callback that installs a token.\<close>

definition install :: "string \<Rightarrow> callback \<Rightarrow> ('w, 'k, unit) io" where
  "install tok cb = modifyP (\<lambda>s. s\<lparr>cl := (cl s)\<lparr>accessToken := tok\<rparr>\<rparr>)"

text \<open>A server that gives the answers of a script one by one, then fails.\<close>

definition script :: "(reply list, 'k) env" where
  "script = \<lparr>Do = (\<lambda>q w. case w of [] \<Rightarrow> (Inl (Opaque ''EOF''), []) | rep # w' \<Rightarrow> (Inr rep, w')),
     RunReAuth = install ''new'', Now = (\<lambda>w. 0), Taken = (\<lambda>q w. 1), RandReader = (\<lambda>w. Ended), SetRandReader = (\<lambda>rd w. w)\<rparr>"

text \<open>A server that gives one answer to requests with an authorization and another to those without.\<close>

definition fixed :: "reply \<Rightarrow> reply \<Rightarrow> (unit, 'k) env" where
  "fixed authorized anonymous =
     \<lparr>Do = (\<lambda>q w. (Inr (if Header q ''Authorization'' = None then anonymous else authorized), w)),
      RunReAuth = install ''new'', Now = (\<lambda>w. 0), Taken = (\<lambda>q w. 1), RandReader = (\<lambda>w. Ended), SetRandReader = (\<lambda>rd w. w)\<rparr>"

definition answer :: "int \<Rightarrow> string \<Rightarrow> reply" where
  "answer code body = \<lparr>rStatusCode = code, rStatus = '''', rContent = body\<rparr>"

lemma answer_simps [simp]:
  "rStatusCode (answer code body) = code" "rContent (answer code body) = body" "rStatus (answer code body) = ''''"
  by (simp_all add: answer_def)

lemma scenario_simps [simp]:
  "Do script q (rep # w) = (Inr rep, w)" "Do script q [] = (Inl (Opaque ''EOF''), [])"
  "RunReAuth script = install ''new''" "RunReAuth (fixed a b) = install ''new''"
  "Do (fixed a b) q v = (Inr (if Header q ''Authorization'' = None then b else a), v)"
  "cl (state0 c x) = c" "world (state0 c x) = x" "nextBody (state0 c x) = 0" "trace (state0 c x) = []"
  "uid client0 = ''u''" "accessToken client0 = ''old''" "reauth client0 = Some (Callback 0)"
  "baseURL client0 = ''https://a''"
  "Header (request0 h gb) ''Authorization'' = h" "ReqBody (request0 h gb) = Some ''data''"
  "GetBody (request0 h gb) = gb"
  by (simp_all add: script_def fixed_def state0_def client0_def request0_def)

lemma install_run: "install tok cb s = Some (Ok (), s\<lparr>cl := (cl s)\<lparr>accessToken := tok\<rparr>\<rparr>)"
  by (simp add: install_def modifyP_def)

lemma books_state0 [simp]: "books_ok (state0 c w)" "still_open (state0 c w) = {}"
  by (simp_all add: books_ok_def still_open_def)

lemmas scenario = well_formed_request_def may_retry_def replayable_def install_run

lemma base_parses: "\<exists>p. url_parse ''https://a'' = Some p" "\<exists>p. url_parse ''https://a/auth/refresh'' = Some p"
  "\<exists>p. url_parse ''https://a/users'' = Some p" "\<exists>p. url_parse ''https://a/x'' = Some p"
  by (simp_all add: url_eval char_of_def bit_0)

section \<open>Sending again\<close>

text \<open>A request with the expired token, replayable and not.\<close>

abbreviation replay_req :: request where
  "replay_req \<equiv> request0 (Some [''Bearer old'']) (Some (Inr ''data''))"

abbreviation stream_req :: request where
  "stream_req \<equiv> request0 (Some [''Bearer old'']) None"

lemma retry_replays_request_witness:
  "\<exists>req1 s1. do_attempt script replay_req (state0 client0 [answer 401 '''', answer 200 '''']) = Some (Again req1, s1) \<and>
     ReqBody req1 = Some ''data'' \<and> Header req1 ''Authorization'' = Some [''Bearer new'']"
proof -
  define s :: "(reply list, nat entity) st" where "s = state0 client0 [answer 401 '''', answer 200 '''']"
  have s: "cl s = client0" "world s = [answer 401 '''', answer 200 '''']" by (simp_all add: s_def)
  have wf: "well_formed_request replay_req" by (simp add: scenario)
  have may: "may_retry s replay_req" by (simp add: s scenario)
  have do: "Do script (with_agent s replay_req) (world s) = (Inr (answer 401 ''''), [answer 200 ''''])"
    by (simp add: s)
  obtain req1 s1 where run: "do_attempt script replay_req s = Some (Again req1, s1)"
    and cl1: "cl s1 = client0\<lparr>accessToken := ''new''\<rparr>"
    using do_attempt_retry [OF do _ may]
    by (auto simp: scenario s next_request_def StatusUnauthorized_def)
  from retry_replays_request [OF wf run] cl1 have "ReqBody req1 = Some ''data''"
    "Header req1 ''Authorization'' = Some [''Bearer new'']" by auto
  with run show ?thesis by (auto simp: s_def)
qed

lemma stream_body_never_retried_witness:
  "\<exists>r s'. do_request script stream_req (state0 client0 [answer 401 '''']) = Some (Ok r, s') \<and>
     rStatusCode r = 401 \<and> cl s' = client0"
proof -
  define s :: "(reply list, nat entity) st" where "s = state0 client0 [answer 401 '''']"
  have s: "cl s = client0" "world s = [answer 401 '''']" by (simp_all add: s_def)
  have body: "ReqBody stream_req = Some ''data''" "GetBody stream_req = None" by simp_all
  from stream_body_never_retried [OF body, of script s] show ?thesis
    by (auto simp: s s_def [symmetric])
qed

lemma unbounded_reauthentication_witness:
  "do_request (fixed (answer 401 '''') (answer 200 '''')) replay_req (state0 client0 ()) = None"
  by (rule unbounded_reauthentication [where P = "\<lambda>_. True"]) (simp_all add: scenario)

lemma do_request_returns_witness:
  "\<exists>r s'. do_request script replay_req (state0 client0 [answer 401 '''', answer 401 '''', answer 200 '''']) = Some (r, s')"
proof (rule do_request_returns [where m = length])
  show "length w' < length w" if "Do script q w = (Inr rep, w')" for q w rep w'
    using that by (cases w) auto
qed (simp add: scenario)

lemma install_tidy: "books_ok t \<Longrightarrow> install tok cb t = Some (r, t') \<Longrightarrow> books_ok t' \<and> still_open t' = still_open t"
  by (auto simp: install_run books_ok_def still_open_def)

lemma doJSON_closes_bodies_witness:
  "\<exists>e s'. doJSON script stream_req (dec_struct resp_fields) zero_resp None
     (state0 client0 [answer 401 ''expired'']) = Some (Err e, s') \<and> books_ok s' \<and> still_open s' = {}"
proof -
  define s :: "(reply list, nat entity) st" where "s = state0 client0 [answer 401 ''expired'']"
  have "\<not> may_retry s (accept_json stream_req)" by (simp add: scenario)
  from do_request_single [OF this, of script] obtain r1 s1
    where run: "do_request script (accept_json stream_req) s = Some (Ok r1, s1)" "rStatusCode r1 = 401"
    by (auto simp: s_def)
  then have "go_div (rStatusCode r1) 100 \<noteq> 2" by (simp add: go_div_100)
  then obtain e s' where call: "doJSON script stream_req (dec_struct resp_fields) zero_resp None s = Some (Err e, s')"
    using doJSON_bad_status [OF run(1), of "dec_struct resp_fields" zero_resp None] by (auto split: option.splits)
  from doJSON_closes_bodies [OF _ _ call] have "books_ok s' \<and> still_open s' = {}"
    by (simp add: s_def install_tidy)
  with call show ?thesis by (auto simp: s_def)
qed

section \<open>Answers\<close>

lemma empty_object: "json_decode ''{}'' = Inr (JObj [])"
  by (simp add: json_decode_def json_fuel_def skip_ws_def is_ws_def char_nat_def numeral_eq_Suc)

lemma decoded_empty_object [simp]: "decoded (dec_struct fs) zero ''{}'' = Inr zero"
  by (simp add: decoded_def empty_object)

lemma doJSON_error_classification_witness:
  "\<exists>e s'. doJSON script stream_req (dec_struct resp_fields) zero_resp None (state0 client0 [answer 404 ''gone''])
     = Some (Err e, s') \<and> errors_Is e ErrNotFound \<and> \<not> errors_Is e ErrRateLimited"
proof -
  define s :: "(reply list, nat entity) st" where "s = state0 client0 [answer 404 ''gone'']"
  have "Do script (with_agent s (accept_json stream_req)) (world s) = (Inr (answer 404 ''gone''), [])"
    by (simp add: s_def)
  from do_request_accepted [OF this]
  have run: "do_request script (accept_json stream_req) s = Some (Ok (response_of (answer 404 ''gone'') (nextBody s)),
      sent_state (with_agent s (accept_json stream_req)) [] s)" by (simp add: StatusUnauthorized_def)
  have envelope: "error_envelope ''gone'' = None"
    by (simp add: error_envelope_def json_unmarshal_def json_fuel_def skip_ws_def is_ws_def char_nat_def
        numeral_eq_Suc parse_number_def is_digit_def Let_def quote_char_def)
  from doJSON_error_classification [OF run, of "dec_struct resp_fields" zero_resp None] show ?thesis
    by (auto simp: s_def [symmetric] envelope status_defs)
qed

lemma doJSON_success_iff_witness:
  "\<exists>s'. doJSON script stream_req (dec_struct (resp_fields @ [])) zero_resp (Some resp_Err)
     (state0 client0 [answer 200 ''{}'']) = Some (Ok zero_resp, s')"
proof -
  define s :: "(reply list, nat entity) st" where "s = state0 client0 [answer 200 ''{}'']"
  have "Do script (with_agent s (accept_json stream_req)) (world s) = (Inr (answer 200 ''{}''), [])"
    by (simp add: s_def)
  from do_request_accepted [OF this]
  have run: "do_request script (accept_json stream_req) s = Some (Ok (response_of (answer 200 ''{}'') (nextBody s)),
      sent_state (with_agent s (accept_json stream_req)) [] s)" by (simp add: StatusUnauthorized_def)
  have "RawAPIError zero_resp = None" by (simp add: zero_resp_def)
  moreover have "keeps_envelope []" by (simp add: keeps_envelope_def)
  ultimately show ?thesis
    using doJSON_success_iff [OF run, of "[]" zero_resp zero_resp] empty_object by (simp add: s_def)
qed

lemma logs_hide_secrets_witness:
  "\<exists>s'. bindP (newJSONRequest ''POST'' ''/x'' (JStr ''a'')) (\<lambda>q.
       doJSON (fixed (answer 200 ''{}'') (answer 200 ''{}'')) q (dec_struct (resp_fields @ [])) zero_resp (Some resp_Err))
       (state0 client0 ()) = Some (Ok zero_resp, s') \<and>
     log_records (trace s') = request_log ''POST'' ''/x'' 4 @
       [Log Debug ''protonmail: response'' [AttrS ''method'' ''POST'', AttrS ''path'' ''/x'', AttrI ''status'' 200]]"
proof -
  let ?env = "fixed (answer 200 ''{}'') (answer 200 ''{}'') :: (unit, nat entity) env"
  let ?s = "state0 client0 ()" and ?p = "\<lparr>Scheme = ''https'', Host = ''a'', Path = ''/x''\<rparr>"
  have url: "url_parse (baseURL (cl ?s) @ ''/x'') = Some ?p" by (simp add: url_eval char_of_def bit_0)
  obtain req s1 where req: "newJSONRequest ''POST'' ''/x'' (JStr ''a'') ?s = Some (Ok req, s1)"
    using newJSONRequest_succeeds [OF url] by blast
  have "Do ?env (with_agent s1 (accept_json req)) (world s1) = (Inr (answer 200 ''{}''), world s1)"
    by simp
  from doJSON_answer [OF this, of "[]" zero_resp zero_resp] req obtain s' where
    run: "bindP (newJSONRequest ''POST'' ''/x'' (JStr ''a'')) (\<lambda>q. doJSON ?env q (dec_struct (resp_fields @ [])) zero_resp (Some resp_Err)) ?s
      = Some (Ok zero_resp, s')"
    by (auto simp: bindP_def zero_resp_def)
  have "\<exists>L. log_records (trace s') =
      log_records (trace ?s) @ request_log ''POST'' (Path ?p) (length (json_encode (JStr ''a''))) @ L \<and>
      (L = [] \<and> (\<forall>x. Ok zero_resp \<noteq> (Ok x :: (error, resp) outcome)) \<or>
       (\<exists>w rep. Do ?env (last (requests (trace s'))) w = (Inr rep, world s') \<and>
          L = answer_log ''POST'' (Path ?p) (rStatusCode rep) (Ok zero_resp :: (error, resp) outcome)))"
    by (rule logs_hide_secrets [OF _ url run]) (auto simp: install_run)
  then obtain L where
    "log_records (trace s') = log_records (trace ?s) @ request_log ''POST'' (Path ?p) (length (json_encode (JStr ''a''))) @ L"
    "L = [] \<and> (\<forall>x. Ok zero_resp \<noteq> (Ok x :: (error, resp) outcome)) \<or>
      (\<exists>w rep. Do ?env (last (requests (trace s'))) w = (Inr rep, world s') \<and>
         L = answer_log ''POST'' (Path ?p) (rStatusCode rep) (Ok zero_resp :: (error, resp) outcome))"
    by blast
  moreover have "log_records (trace ?s) = []" by (simp add: log_records_def)
  ultimately have logs: "log_records (trace s') = request_log ''POST'' ''/x'' (length (json_encode (JStr ''a''))) @
      answer_log ''POST'' ''/x'' 200 (Ok zero_resp :: (error, resp) outcome)"
    by auto
  have "json_encode (JStr ''a'') = [CHR 0x22, CHR ''a'', CHR 0x22, CHR 0x0A]"
    by (simp add: json_encode_def print_string_def print_chars.simps print_char_def char_nat_def json_chars)
  with logs run show ?thesis by (auto simp: answer_log_def numeral_eq_Suc)
qed

section \<open>Authentication\<close>

text \<open>A library whose signature check and passphrase are fixed.\<close>

definition toy_lib :: "nat lib" where
  "toy_lib =
     \<lparr>bcryptGenerate = toy_bcrypt,
      clearsign_Decode = (\<lambda>m. Some \<lparr>cbBytes = m, cbPlaintext = m, cbSignature = ''sig''\<rparr>),
      ReadArmoredKeyRing = (\<lambda>t. if t = '''' then Inl (Opaque ''EOF'')
        else Inr [\<lparr>ePrivateKey = Some (length t), eSubkeys = [None, Some 7]\<rparr>]),
      CheckDetachedSignature = (\<lambda>ring b s. if b = ''signed'' then None else Some (Opaque ''bad signature'')),
      armor_Decode = Inr,
      ReadMessage = (\<lambda>b ring. Inr (Inr b)),
      CheckArmoredDetachedSignature = (\<lambda>ring b s. None),
      priv_Decrypt = (\<lambda>pass k. if pass = [1, 2] then Inr k else Inl (Opaque ''wrong passphrase''))\<rparr>"

definition forged :: AuthInfo where
  "forged = \<lparr>version = 4, modulus = ''forged'', serverEphemeral = '''', salt = '''', srpSession = ''''\<rparr>"

lemma modulusPubkey_not_Nil [simp]: "modulusPubkey \<noteq> ''''"
  by (simp add: modulusPubkey_def)

lemma srp_needs_signed_modulus_witness:
  "srp toy_lib [1, 2] forged (endless 9) =
     Some (Err (Wrapped ''failed to check modulus signature'' (Opaque ''bad signature'')), endless 9)"
  using srp_needs_signed_modulus [of toy_lib "[1, 2]" forged "endless 9"]
  by (simp add: toy_lib_def forged_def)

abbreviation anonymous :: "nat entity client" where
  "anonymous \<equiv> client0\<lparr>uid := '''', accessToken := ''''\<rparr>"

abbreviation no_reauth_client :: "nat entity client" where
  "no_reauth_client \<equiv> client0\<lparr>reauth := None\<rparr>"

lemma Auth_verifies_server_witness:
  "\<exists>e s'. Client_Auth script toy_lib ''user'' ''pw'' (Some forged) (state0 anonymous []) = Some (Err e, s') \<and>
     cl s' = anonymous"
proof -
  have refused: "srp toy_lib p forged rd = Some (Err (Wrapped ''failed to check modulus signature'' (Opaque ''bad signature'')), rd)" for p rd
    by (simp add: srp_def decodeModulus_def toy_lib_def forged_def raiseP_def)
  then obtain e s' where run: "Client_Auth script toy_lib ''user'' ''pw'' (Some forged) (state0 anonymous []) = Some (Err e, s')"
    by (auto simp: Client_Auth_def prog_defs with_randReader_def mapErrP_def)
  have "quiet (cl (state0 anonymous ([] :: reply list)))" by (simp add: quiet_def signed_in_def)
  from Auth_verifies_server [OF this, where env = script and lib = toy_lib and username = "''user''" and password = "''pw''" and info = "Some forged"] have "cl s' = anonymous"
    by (simp add: run)
  with run show ?thesis by blast
qed

lemma Logout_clears_on_success_witness:
  "\<exists>s'. Client_Logout (fixed (answer 200 ''{}'') (answer 200 ''{}'')) (state0 no_reauth_client ()) = Some (Ok (), s') \<and>
     accessToken (cl s') = '''' \<and> uid (cl s') = ''''"
proof -
  let ?env = "fixed (answer 200 ''{}'') (answer 200 ''{}'') :: (unit, nat entity) env"
  have url: "\<exists>p. url_parse ''https://a/auth'' = Some p" by (simp add: url_eval char_of_def bit_0)
  have "reauth (cl (state0 no_reauth_client ())) = None" by simp
  from Logout_clears_on_success [OF this, of ?env] obtain r s' where
    run: "Client_Logout ?env (state0 no_reauth_client ()) = Some (r, s')" and
    res: "case r of Ok _ \<Rightarrow> uid (cl s') = '''' \<and> accessToken (cl s') = '''' | _ \<Rightarrow> True"
    by (fastforce split: outcome.splits)
  have "\<exists>s'. get_json ?env ''DELETE'' ''/auth'' [] zero_resp (state0 no_reauth_client ()) = Some (Ok zero_resp, s')"
    using get_json_answer [of "state0 no_reauth_client ()" "''/auth''" ?env "answer 200 ''{}''" "[]" zero_resp zero_resp "''DELETE''"] url
    by (auto simp: zero_resp_def)
  then have "r = Ok ()" using run by (auto simp: Client_Logout_def bindP_def modifyP_def)
  with run res show ?thesis by auto
qed

lemma AuthRefresh_stores_nothing_witness:
  "\<exists>r s'. Client_AuthRefresh (fixed (answer 401 '''') (answer 200 ''{}'')) zero_Auth (state0 anonymous ()) = Some (r, s') \<and>
     cl s' = anonymous"
  using AuthRefresh_stores_nothing [of "state0 anonymous ()" "fixed (answer 401 '''') (answer 200 ''{}'')" zero_Auth]
  by (auto simp: quiet_def signed_in_def)

lemma refresh_callback_diverges_witness:
  "do_request (refresh_env (fixed (answer 401 ''expired'') (answer 200 ''{}'')) zero_Auth) replay_req
     (state0 client0 ()) = None"
proof (rule refresh_callback_diverges)
  show "url_parse (baseURL (cl (state0 client0 ())) @ ''/auth/refresh'') \<noteq> None" using base_parses(2) by auto
qed (auto simp: scenario zero_authResp_def intro!: exI [of _ zero_authResp])

definition key :: "string \<Rightarrow> int \<Rightarrow> string \<Rightarrow> PrivateKey" where
  "key i active armored = zero_PrivateKey\<lparr>pkID := i, pkActive := active, pkPrivateKey := armored\<rparr>"

lemma toy_lib_bcrypt [simp]: "bcrypt_format (bcryptGenerate toy_lib)"
  by (simp add: toy_lib_def toy_bcrypt_format)

lemma unlockKeyRing_filters_witness:
  "\<exists>s'. unlockKeyRing toy_lib (map Some [key ''a'' 1 ''xyz'', key ''b'' 0 ''xy'', key ''c'' 1 '''']) [] Map.empty [1, 2]
       (state0 client0 ()) = Some (Ok [\<lparr>ePrivateKey = Some 3, eSubkeys = [None, Some 7]\<rparr>], s') \<and>
     length (trace s') = 1"
proof -
  let ?keys = "[key ''a'' 1 ''xyz'', key ''b'' 0 ''xy'', key ''c'' 1 '''']"
  have run: "List.map_filter (unlocked toy_lib [] Map.empty [1, 2]) ?keys =
      [\<lparr>ePrivateKey = Some 3, eSubkeys = [None, Some 7]\<rparr>]"
    "length (concat (map (key_warnings toy_lib [] Map.empty [1, 2]) ?keys)) = 1"
    "unlocked toy_lib [] Map.empty [1, 2] (hd ?keys) \<noteq> None"
    by (simp_all add: map_filter_simps unlocked_def key_warnings_def unlockPrivateKey_def PrivateKey_Entity_def key_def
        toy_lib_def zero_PrivateKey_def salt_of_def unlockEntity_def)
  from unlockKeyRing_filters [OF toy_lib_bcrypt, of ?keys "[]" Map.empty "[1, 2]" "state0 client0 ()"]
  obtain r where r: "unlockKeyRing toy_lib (map Some ?keys) [] Map.empty [1, 2] (state0 client0 ()) =
       Some (r, emit (concat (map (key_warnings toy_lib [] Map.empty [1, 2]) ?keys)) (state0 client0 ()))"
    and res: "case r of
        Ok found \<Rightarrow> found = List.map_filter (unlocked toy_lib [] Map.empty [1, 2]) ?keys \<and> found \<noteq> []
      | Err e \<Rightarrow> errors_Is e ErrNoUnlockableKeys \<and> (\<forall>k \<in> set ?keys. unlocked toy_lib [] Map.empty [1, 2] k = None)
      | Panic msg \<Rightarrow> False" by blast
  from run(3) have "r = Ok [\<lparr>ePrivateKey = Some 3, eSubkeys = [None, Some 7]\<rparr>]"
    using res unfolding run(1) by (cases r) auto
  then show ?thesis using r run(2) by auto
qed

lemma decode_salts_spec_witness:
  "\<exists>m. decode_salts [\<lparr>ksID = ''k'', ksKeySalt = ''AQI=''\<rparr>, \<lparr>ksID = ''n'', ksKeySalt = ''''\<rparr>] Map.empty = Inr m \<and>
     m ''k'' = Some (Some [1, 2]) \<and> m ''n'' = Some None \<and> dom m = {''k'', ''n''}"
proof -
  let ?xs = "[\<lparr>ksID = ''k'', ksKeySalt = ''AQI=''\<rparr>, \<lparr>ksID = ''n'', ksKeySalt = ''''\<rparr>]"
  have b: "b64_decode ''AQI='' = Some [1, 2]" by (simp add: b64_decode_def b64_value_def Let_def)
  then obtain m where m: "decode_salts ?xs Map.empty = Inr m" by auto
  have "dom m = set (map ksID ?xs)"
    and entries: "\<And>ys x zs. ?xs = ys @ x # zs \<Longrightarrow> ksID x \<notin> set (map ksID zs) \<Longrightarrow> m (ksID x) = Some (salt_value (ksKeySalt x))"
    using decode_salts_spec [of ?xs] unfolding m by auto
  moreover have "m ''k'' = Some (Some [1, 2])"
    using entries [of "[]" "hd ?xs" "tl ?xs"] b by (simp add: salt_value_def)
  moreover have "m ''n'' = Some None"
    using entries [of "[hd ?xs]" "?xs ! 1" "[]"] by (simp add: salt_value_def)
  ultimately show ?thesis using m by auto
qed

lemma Unlock_panics_without_user_witness:
  "\<exists>s'. Client_Unlock (fixed \<lparr>rStatusCode = 200, rStatus = ''200 OK'', rContent = ''{}''\<rparr>
         \<lparr>rStatusCode = 200, rStatus = ''200 OK'', rContent = ''{}''\<rparr>)
       toy_lib zero_Auth Map.empty ''pw'' (state0 client0 ()) = Some (Panic ''nil pointer dereference'', s')"
proof -
  let ?rep = "\<lparr>rStatusCode = 200, rStatus = ''200 OK'', rContent = ''{}''\<rparr>"
  show ?thesis
    using Unlock_panics_without_user [of "state0 client0 ()" "fixed ?rep ?rep" toy_lib zero_Auth Map.empty "''pw''"]
      base_parses(3) by auto
qed

end
