(* ===== verification/Call_Scenarios.thy ===== *)
theory Call_Scenarios
  imports Scenarios Endpoints Attachments
begin

text \<open>Concrete calls on which the theorems about the endpoints, the streams and \<open>Unlock\<close> are applied.\<close>

definition state1 :: "reply list \<Rightarrow> (reply list, nat entity) st" where
  "state1 rs = state0 (client0\<lparr>reauth := None\<rparr>) rs"

lemma state1_simps [simp]: "baseURL (cl (state1 rs)) = ''https://a''" "trace (state1 rs) = []" "quiet (cl (state1 rs))"
  "books_ok (state1 rs)" "still_open (state1 rs) = {}"
  by (simp_all add: state1_def quiet_def)

lemma paths_parse:
  "\<exists>p. url_parse ''https://a/messages'' = Some p" "\<exists>p. url_parse ''https://a/messages?Label=0&Page=1'' = Some p"
  "\<exists>p. url_parse ''https://a/labels'' = Some p" "\<exists>p. url_parse ''https://a/attachments'' = Some p"
  "\<exists>p. url_parse ''https://a/attachments/x'' = Some p"
  by (simp_all add: url_eval char_of_def bit_0)

definition filter0 :: MessageFilter where
  "filter0 = \<lparr>fPage = 1, fPageSize = 0, fLimit = 0, fLabel = ''0'', fSort = '''', fAsc = False, fBegin = 0, fEnd = 0,
     fKeyword = ''lost'', fTo = '''', fFrom = '''', fSubject = '''', fAttachments = None, fStarred = None, fUnread = None,
     fConversation = '''', fAddressID = '''', fID = [], fExternalID = ''''\<rparr>"

lemma filter0_query: "Values_Encode (filter_values filter0) = ''Label=0&Page=1''"
proof -
  have "filter_values filter0 = [(''Page'', ''1''), (''Label'', ''0'')]"
    by (simp add: filter_values_def filter0_def set_if_def Values_Set_def Itoa_def show_nat.simps digit_char_def char_of_def bit_0)
  then show ?thesis
    by (simp add: Values_Encode_def pair_escape_def QueryEscape_def query_escape_char_def unreserved_def is_alpha_def is_digit_def char_nat_def)
qed

lemma ListMessages_query_witness:
  "\<exists>r s' q. ListMessages script (Some filter0) (state1 []) = Some (r, s') \<and> requests (trace s') = [q] \<and>
     URL q = ''https://a/messages?Label=0&Page=1''"
proof -
  have parses: "url_parse (baseURL (cl (state1 [])) @ ''/messages?'' @ Values_Encode (filter_values filter0)) \<noteq> None"
    using paths_parse(2) by (simp add: filter0_query)
  have "quiet (cl (state1 []))" by simp
  obtain r s' where run: "ListMessages script (Some filter0) (state1 []) = Some (r, s')"
    using list_messages.one_request [of "state1 []" script filter0] unfolding asks_for_def by auto
  from ListMessages_query [OF \<open>quiet _\<close> parses run]
  obtain q query ps where "requests (trace s') = [q]" "URL q = ''https://a/messages?'' @ query" "ParseQuery query = Some ps"
    "map_of ps ''Label'' = Some ''0''"
    by (auto simp: filter0_def nonempty_def)
  moreover obtain q' where "requests (trace s') = [q']" "URL q' = ''https://a/messages?Label=0&Page=1''"
    using list_messages.one_request [of "state1 []" script filter0] run parses unfolding asks_for_def
    by (auto simp: filter0_query)
  ultimately show ?thesis using run by auto
qed

lemma draft_reaches_server_witness:
  "\<exists>r s' q ms. CreateDraftMessage script (Some (zero_Message\<lparr>mSubject := ''hi''\<rparr>)) ''parent'' (state1 []) = Some (r, s') \<and>
     requests (trace s') = [q] \<and> map_of ms ''ParentID'' = Some (JStr ''parent'') \<and> map_of ms ''Action'' = Some (JInt 0) \<and>
     (\<exists>body. ReqBody q = Some body \<and> json_decode body = Inr (JObj ms))"
proof -
  let ?m = "zero_Message\<lparr>mSubject := ''hi''\<rparr>"
  have ints: "int64_Message ?m" by (simp add: int64_Message_def zero_Message_def int64_def)
  have parses: "url_parse (baseURL (cl (state1 [])) @ ''/messages'') \<noteq> None" using paths_parse(1) by simp
  have quiet: "quiet (cl (state1 []))" by simp
  obtain r s' where run: "CreateDraftMessage script (Some ?m) ''parent'' (state1 []) = Some (r, s')"
    using create_draft.one_request [of "state1 []" script "Some ?m" "''parent''"] unfolding asks_for_def by auto
  have "json_utf8 (Message_json ?m)" "valid_utf8 ''parent''"
    by (simp_all add: Message_json_def zero_Message_def jslice_def jptr_def participants_json_def strings_json_def)
  from draft_reaches_server [OF quiet parses run ints this] run show ?thesis by auto
qed

text \<open>A server that has one answer.\<close>

definition serving :: "json \<Rightarrow> (reply list, nat entity) env" where
  "serving body = script\<lparr>Do := (\<lambda>q w. (Inr \<lparr>rStatusCode = 200, rStatus = ''OK'', rContent = json_encode body\<rparr>, w))\<rparr>"

lemma serving_serves: "serves (serving body) target body"
  by (simp add: serves_def serving_def)

lemma contact_paths_parse: "\<exists>p. url_parse ''https://a/contacts'' = Some p" "\<exists>p. url_parse ''https://a/contacts/c1'' = Some p"
  by (simp_all add: url_eval char_of_def bit_0)

lemma contacts_stored_and_fetched_witness:
  "\<exists>r s' q j s3 c. CreateContacts script (Some [None, Some \<lparr>ciCards = Some [Some \<lparr>ccType = 2, ccData = ''vcard'', ccSignature = ''sig''\<rparr>, None]\<rparr>])
       (state1 []) = Some (r, s') \<and> requests (trace s') = [q] \<and> GetContact (serving j) ''c1'' (state1 []) = Some (Ok (Some c), s3) \<and>
     cID c = ''c1'' \<and> cCards c = Some [Some \<lparr>ccType = 2, ccData = ''vcard'', ccSignature = ''sig''\<rparr>, None]"
proof -
  let ?c = "\<lparr>ciCards = Some [Some \<lparr>ccType = 2, ccData = ''vcard'', ccSignature = ''sig''\<rparr>, None]\<rparr>"
  let ?contacts = "[None, Some ?c]"
  have quiet: "quiet (cl (state1 []))" by simp
  have parses: "url_parse (baseURL (cl (state1 [])) @ ''/contacts'') \<noteq> None" "url_parse (baseURL (cl (state1 [])) @ ''/contacts/'' @ ''c1'') \<noteq> None"
    using contact_paths_parse by simp_all
  have i: "1 < length ?contacts" "?contacts ! 1 = Some ?c" "int64_cards (ciCards ?c)"
    by (simp_all add: int64_cards_def int64_def)
  obtain r s' where run: "CreateContacts script (Some ?contacts) (state1 []) = Some (r, s')"
    using create_contacts.one_request [of "state1 []" script "Some ?contacts"] unfolding asks_for_def by auto
  have "json_utf8 (jslice (jptr ContactImport_json) (Some ?contacts))"
    by (simp add: jslice_def jptr_def ContactImport_json_def ContactCard_json_def)
  from contacts_stored_and_fetched [OF quiet parses(1) run i this] obtain q cards where q: "requests (trace s') = [q]"
    "\<And>(env2 :: (reply list, nat entity) env) s2 contactID. valid_utf8 contactID \<Longrightarrow> url_parse (baseURL (cl s2) @ ''/contacts/'' @ contactID) \<noteq> None \<Longrightarrow>
        serves env2 (baseURL (cl s2) @ ''/contacts/'' @ contactID)
          (JObj [(''Code'', JInt 1000), (''Contact'', JObj [(''ID'', JStr contactID), (''Cards'', cards)])]) \<Longrightarrow>
        (\<exists>s3 c'. GetContact env2 contactID s2 = Some (Ok (Some c'), s3) \<and> cID c' = contactID \<and> cCards c' = ciCards ?c)"
    by auto
  have "valid_utf8 ''c1''" by simp
  from q(2) [OF this parses(2) serving_serves] q(1) run show ?thesis by auto
qed

lemma api_surface_witness:
  "asks_for (ListLabels script) (state1 []) ''GET'' ''/labels'' None \<and> url_parse (baseURL (cl (state1 [])) @ ''/labels'') \<noteq> None"
proof -
  have quiet: "quiet (cl (state1 []))" by simp
  have "asks_for (ListLabels script) (state1 []) ''GET'' ''/labels'' None"
    using api_surface [OF quiet, of script, THEN conjunct2, THEN conjunct2, THEN conjunct2, THEN conjunct2, THEN conjunct2, THEN conjunct2, THEN conjunct2, THEN conjunct2, THEN conjunct2, THEN conjunct2, THEN conjunct2, THEN conjunct2, THEN conjunct2, THEN conjunct2, THEN conjunct2, THEN conjunct1]
    by simp
  then show ?thesis using paths_parse(3) by simp
qed

lemma CreateAttachment_upload_witness:
  "\<exists>x s' q. CreateAttachment (\<lambda>e. script) ''b'' (Some zero_Attachment) [(''da'', None), (''ta'', Some EOF)] (state1 []) = Some (x, s') \<and>
     requests (trace s') = [q] \<and> ReqBody q = Some (render ''b'' (attachment_form zero_Attachment @
       [key_part zero_Attachment, (file_header ''DataPacket'' ''DataPacket.pgp'', ''data'')]))"
proof -
  have parses: "url_parse (baseURL (cl (state1 [])) @ ''/attachments'') \<noteq> None" using paths_parse(4) by simp
  have "b64_decode (attKeyPackets zero_Attachment) = Some []" by (simp add: zero_Attachment_def b64_decode_def)
  then show ?thesis
    using CreateAttachment_upload [OF parses, of "\<lambda>e. script" "''b''" zero_Attachment "[(''da'', None), (''ta'', Some EOF)]"] by auto
qed

lemma download_runs: "\<exists>r s'. GetAttachment script ''x'' (state1 [answer 200 ''cipher'']) = Some (Ok r, s')"
proof -
  let ?s = "state1 [answer 200 ''cipher'']"
  obtain p where p: "url_parse ''https://a/attachments/x'' = Some p" using paths_parse(5) by blast
  obtain r1 s1 where n: "newRequest ''GET'' ''/attachments/x'' NilBody ?s = Some (r1, s1)" using newRequest_returns by blast
  with newRequest_requests [OF n] p obtain req where req: "r1 = Ok req" by (cases r1) auto
  have s1: "world s1 = [answer 200 ''cipher'']" using newRequest_Ok [OF n] by (simp add: state1_def)
  then have "Do script (with_agent s1 req) (world s1) = (Inr (answer 200 ''cipher''), [])" by simp
  from do_request_accepted [OF this] obtain s2 where
    "do_request script req s1 = Some (Ok (response_of (answer 200 ''cipher'') (nextBody s1)), s2)"
    by (auto simp: StatusUnauthorized_def)
  then show ?thesis using n req by (auto simp: GetAttachment_def bindP_def returnP_def go_div_100)
qed

lemma GetAttachment_body_witness:
  "\<exists>r s'. GetAttachment script ''x'' (state1 [answer 200 ''cipher'']) = Some (Ok r, s') \<and> still_open s' = {fst r}"
proof -
  obtain r s' where run: "GetAttachment script ''x'' (state1 [answer 200 ''cipher'']) = Some (Ok r, s')"
    using download_runs by blast
  have tidy: "books_ok t \<Longrightarrow> RunReAuth script cb t = Some (x, t') \<Longrightarrow> books_ok t' \<and> still_open t' = still_open t"
    for cb x and t t' :: "(reply list, nat entity) st"
    by (simp add: install_tidy)
  have books: "books_ok (state1 [answer 200 ''cipher''])" by simp
  note GetAttachment_body [OF tidy books run]
  with run show ?thesis by (cases r) auto
qed

section \<open>Unlocking\<close>

definition account_json :: json where
  "account_json = (let keys = JArr [JObj [(''Active'', JInt 1), (''PrivateKey'', JStr ''xyz'')]] in
     JObj [(''User'', JObj [(''Keys'', keys)]), (''Addresses'', JArr [JObj [(''Email'', JStr ''a@b''), (''Keys'', keys)]])])"

lemma account_paths_parse: "\<exists>p. url_parse ''https://a/addresses'' = Some p"
  by (simp add: url_eval char_of_def bit_0)

lemmas account_eval = account_json_def user_resp_fields_def zero_user_resp_def User_fields_def zero_User_def
  addresses_resp_fields_def zero_addresses_resp_def Address_fields_def zero_Address_def
  dec_PrivateKeys_def PrivateKey_fields_def zero_PrivateKey_def dec_list_def dec_pointer_def find_field_def field_def
  resp_fields_def dec_int_JInt Let_def ascii_lower_def char_nat_def char_of_def bit_0

lemma account_unlocks:
  "\<exists>s'. Client_Unlock (serving account_json) toy_lib (zero_Auth\<lparr>UID := ''id'', AccessToken := ''tok''\<rparr>) Map.empty
       (string_of [1, 2]) (state1 []) = Some (Ok [\<lparr>ePrivateKey = Some 3, eSubkeys = [None, Some 7]\<rparr>], s')"
proof -
  let ?k = "zero_PrivateKey\<lparr>pkActive := 1, pkPrivateKey := ''xyz''\<rparr>" and ?e = "\<lparr>ePrivateKey = Some 3, eSubkeys = [None, Some 7]\<rparr>"
  define s0 where "s0 = (state1 [])\<lparr>cl := (cl (state1 []))\<lparr>uid := ''id'', accessToken := ''tok''\<rparr>\<rparr>"
  have base: "baseURL (cl s0) = ''https://a''" by (simp add: s0_def)
  obtain u where user: "dec_struct (resp_fields @ user_resp_fields) account_json zero_user_resp = Inr u" "RawAPIError u = None"
    "\<exists>x. urUser u = Some x \<and> usrKeys x = [Some ?k]"
    by (simp add: account_eval)
  obtain v where addresses: "dec_struct (resp_fields @ addresses_resp_fields) account_json zero_addresses_resp = Inr v" "RawAPIError v = None"
    "\<exists>x. arAddresses v = [Some x] \<and> adrKeys x = [Some ?k]"
    by (simp add: account_eval)
  have json: "json_ints account_json" "json_utf8 account_json"
    by (simp_all add: account_json_def Let_def)
  have ring: "unlockKeyRing toy_lib [Some ?k] ring Map.empty [1, 2] t = Some (Ok [?e], t)" for ring and t :: "(reply list, nat entity) st"
    by (simp add: unlockKeyRing_def unlockPrivateKey_def PrivateKey_Entity_def toy_lib_def zero_PrivateKey_def salt_of_def unlockEntity_def prog_defs)
  have parses: "url_parse (baseURL (cl s0) @ ''/users'') \<noteq> None" "url_parse (baseURL (cl s0) @ ''/addresses'') \<noteq> None"
    unfolding base using base_parses(3) account_paths_parse by auto
  obtain x s1 where 1: "GetCurrentUser (serving account_json) s0 = Some (Ok (Some x), s1)" "cl s1 = cl s0" "usrKeys x = [Some ?k]"
    using get_json_served [OF serving_serves parses(1) json user(1,2)] user(3)
    by (auto simp: GetCurrentUser_def bindP_def returnP_def)
  obtain a s2 where 2: "ListAddresses (serving account_json) s1 = Some (Ok [Some a], s2)" "adrKeys a = [Some ?k]"
    using get_json_served [OF serving_serves _ json addresses(1,2), of s1 "''/addresses''"] parses(2) 1(2) addresses(3)
    by (auto simp: ListAddresses_def bindP_def returnP_def)
  have "bytes_of (string_of [1, 2]) = [1, 2]" by (simp add: bytes_of_def string_of_def)
  then show ?thesis
    unfolding Unlock_start using 1 2 ring
    by (simp add: s0_def [symmetric] bindP_def tryP_def modifyP_def returnP_def)
qed

text \<open>An \<open>Unlock\<close> that succeeds, and one that the server refuses.\<close>

lemma Unlock_installs_session_witness:
  "(\<exists>s'. Client_Unlock (serving account_json) toy_lib (zero_Auth\<lparr>UID := ''id'', AccessToken := ''tok''\<rparr>) Map.empty (string_of [1, 2])
       (state1 []) = Some (Ok [\<lparr>ePrivateKey = Some 3, eSubkeys = [None, Some 7]\<rparr>], s') \<and>
     accessToken (cl s') = ''tok'' \<and> keyRing (cl s') = [\<lparr>ePrivateKey = Some 3, eSubkeys = [None, Some 7]\<rparr>]) \<and>
   (\<exists>r s'. Client_Unlock (fixed (answer 500 '''') (answer 500 '''')) toy_lib (zero_Auth\<lparr>UID := ''id'', AccessToken := ''tok''\<rparr>)
       Map.empty ''pw'' (state0 no_reauth_client ()) = Some (r, s') \<and> uid (cl s') = ''id'')"
proof -
  note installs = Unlock_installs_session [THEN conjunct1, THEN mp]
  have "reauth (cl (state1 [])) = None" "reauth (cl (state0 no_reauth_client ())) = None" by (simp_all add: state1_def)
  with installs [of "state1 []" "serving account_json" toy_lib "zero_Auth\<lparr>UID := ''id'', AccessToken := ''tok''\<rparr>" Map.empty "string_of [1, 2]"]
    installs [of "state0 no_reauth_client ()" "fixed (answer 500 '''') (answer 500 '''')" toy_lib
      "zero_Auth\<lparr>UID := ''id'', AccessToken := ''tok''\<rparr>" Map.empty "''pw''"] account_unlocks
  show ?thesis by auto
qed

end
