(* ===== verification/Session_Scenarios.thy ===== *)
theory Session_Scenarios
  imports Sessions Call_Scenarios
begin

text \<open>Concrete sessions on which the theorems about sessions are applied.\<close>

lemma current_user_call:
  assumes "quiet (cl s)" and "url_parse (baseURL (cl s) @ ''/users'') \<noteq> None"
  obtains r t q where "exec (\<lambda>e. env) lib GetCurrentUserCall s = Some (r, t)" "requests (trace t) = requests (trace s) @ [q]"
    "cl t = cl s" "URL q = baseURL (cl s) @ ''/users''"
proof -
  from current_user.one_request [OF assms(1), of env] assms(2) obtain r t q where
    "GetCurrentUser env s = Some (r, t)" "cl t = cl s" "requests (trace t) = requests (trace s) @ [q]"
    "URL q = baseURL (cl s) @ ''/users''"
    unfolding asks_for_def by auto
  moreover then obtain r' where "exec (\<lambda>e. env) lib GetCurrentUserCall s = Some (r', t)"
    by (auto simp: plain_def bind_return_Some)
  ultimately show ?thesis using that by blast
qed

lemma one_call: "exec net lib c s = Some (r, t) \<Longrightarrow> session net lib s [(c, r)] t"
  using session.calls [OF session.begins] by fastforce

abbreviation net0 :: "body_end \<Rightarrow> (reply list, nat entity) env" where
  "net0 \<equiv> \<lambda>e. script"

lemma session_no_plaintext_witness:
  "\<exists>r s q u. session net0 toy_lib \<lparr>cl = initial_client\<lparr>appVersion := ''a'', baseURL := ''http://LocalHost:80''\<rparr>, world = [],
        nextBody = 0, trace = []\<rparr> [(GetCurrentUserCall, r)] s \<and>
     requests (trace s) = [q] \<and> url_parse (URL q) = Some u \<and> isLoopbackHost (Hostname u)"
proof -
  let ?c = "initial_client\<lparr>appVersion := ''a'', baseURL := ''http://LocalHost:80''\<rparr> :: nat entity client"
  let ?s = "\<lparr>cl = ?c, world = [], nextBody = 0, trace = []\<rparr> :: (reply list, nat entity) st"
  let ?u = "\<lparr>Scheme = ''http'', Host = ''LocalHost:80'', Path = ''/users''\<rparr>"
  have c: "NewClient (map option_of [AppVersion ''a'', BaseURL ''http://LocalHost:80/'']) = Inr ?c"
    by (simp add: NewClient_def WithAppVersion_def WithBaseURL_def url_eval TrimRight_def)
  have u: "url_parse ''http://LocalHost:80/users'' = Some ?u" by (simp add: url_eval)
  have quiet: "quiet (cl ?s)" by (simp add: quiet_def signed_in_def initial_client_def)
  obtain r t q where run: "exec net0 toy_lib GetCurrentUserCall ?s = Some (r, t)" and q: "requests (trace t) = [q]"
    "URL q = ''http://LocalHost:80/users''"
    by (rule current_user_call [OF quiet]) (use u in auto)
  have callback: "keeps (confined (baseURL ?c)) (RunReAuth (net0 e) cb)" for e cb
    by (auto simp: install_def confined_def intro!: keeps_modify)
  have session: "session net0 toy_lib ?s [(GetCurrentUserCall, r)] t"
    by (rule one_call [OF run])
  from session_no_plaintext [OF c callback session, of q] q u
  have "isLoopbackHost (Hostname ?u)" by auto
  moreover have "url_parse (URL q) = Some ?u" using q u by simp
  ultimately show ?thesis using session q(1) by blast
qed

lemma session_credentials_witness:
  "\<exists>r s q. session net0 toy_lib (state1 []) [(GetCurrentUserCall, r)] s \<and> requests (trace s) = [q] \<and>
     (Header q ''Authorization'' = None \<or> Header q ''Authorization'' = Some [''Bearer old''] \<or>
      Header q ''Authorization'' = Some [''Bearer new''])"
proof -
  have parses: "url_parse (baseURL (cl (state1 [])) @ ''/users'') \<noteq> None" using base_parses(3) by auto
  obtain r t q where run: "exec net0 toy_lib GetCurrentUserCall (state1 []) = Some (r, t)" and q: "requests (trace t) = [q]"
    by (rule current_user_call [OF _ parses]) auto
  have session: "session net0 toy_lib (state1 []) [(GetCurrentUserCall, r)] t"
    by (rule one_call [OF run])
  have callback: "keeps (only_tokens (state1 []) T) (RunReAuth (net0 e) cb)" if "{''new''} \<subseteq> T" for T e cb
    using that by (auto simp: install_def only_tokens_def intro!: keeps_modify)
  have "tokens net0 toy_lib (state1 []) [(GetCurrentUserCall, r)] = {''old''}"
    by (simp add: tokens_def earned_def state1_def signed_in_def Cons_eq_append_conv)
  then obtain evs where "trace t = trace (state1 []) @ evs"
    and all: "\<forall>q \<in> set (requests evs). Header q ''Authorization'' = None \<or>
        (\<exists>t \<in> {''new''} \<union> {''old''}. Header q ''Authorization'' = Some [''Bearer '' @ t])"
    using session_credentials [OF callback session] by auto
  then have "requests evs = [q]" using q by simp
  with all have "Header q ''Authorization'' = None \<or> Header q ''Authorization'' = Some [''Bearer old''] \<or>
      Header q ''Authorization'' = Some [''Bearer new'']" by auto
  with session q show ?thesis by blast
qed

abbreviation net1 :: "body_end \<Rightarrow> (unit, nat entity) env" where
  "net1 \<equiv> \<lambda>e. fixed (answer 200 ''{}'') (answer 200 ''{}'')"

lemma session_after_Logout_witness:
  "\<exists>s1 r s q. exec net1 toy_lib LogoutCall (state0 no_reauth_client ()) = Some (Ok Plain, s1) \<and>
     session net1 toy_lib s1 [(GetCurrentUserCall, r)] s \<and> requests (trace s) = requests (trace s1) @ [q] \<and>
     Header q ''Authorization'' = None"
proof -
  let ?s = "state0 no_reauth_client ()"
  have url: "\<exists>p. url_parse ''https://a/auth'' = Some p" by (simp add: url_eval char_of_def bit_0)
  obtain s0 where "get_json (net1 Complete) ''DELETE'' ''/auth'' [] zero_resp ?s = Some (Ok zero_resp, s0)" "cl s0 = cl ?s"
    using get_json_answer [of ?s "''/auth''" "net1 Complete" "answer 200 ''{}''" "[]" zero_resp zero_resp "''DELETE''"] url
    by (auto simp: zero_resp_def)
  then obtain s1 where out: "exec net1 toy_lib LogoutCall ?s = Some (Ok Plain, s1)"
    and cl: "cl s1 = (cl ?s)\<lparr>uid := [], accessToken := [], keyRing := []\<rparr>"
    by (auto simp: plain_def Client_Logout_def bindP_def modifyP_def returnP_def)
  have parses: "url_parse (baseURL (cl s1) @ ''/users'') \<noteq> None" using base_parses(3) cl by auto
  have "quiet (cl s1)" by (simp add: cl quiet_def)
  from current_user_call [OF this parses] obtain r t q
    where run: "exec net1 toy_lib GetCurrentUserCall s1 = Some (r, t)" and q: "requests (trace t) = requests (trace s1) @ [q]"
    by blast
  have session: "session net1 toy_lib s1 [(GetCurrentUserCall, r)] t" by (rule one_call [OF run])
  have "\<forall>(c, r) \<in> set [(GetCurrentUserCall, r)]. \<not> signs_in c" by simp
  from session_after_Logout [OF out session this] obtain evs where
    "trace t = trace s1 @ evs" "\<forall>q \<in> set (requests evs). Header q ''Authorization'' = None" by auto
  with q have "Header q ''Authorization'' = None" by simp
  with out session q show ?thesis by blast
qed

lemma session_bodies_witness:
  "\<exists>n c s. session net0 toy_lib (state1 [answer 200 ''cipher'']) [(GetAttachmentCall ''x'', Ok (Download n c))] s \<and>
     books_ok s \<and> still_open s = {n}"
proof -
  let ?s = "state1 [answer 200 ''cipher'']"
  obtain n c s where run: "exec net0 toy_lib (GetAttachmentCall ''x'') ?s = Some (Ok (Download n c), s)"
    using download_runs by (auto simp: bindP_def returnP_def)
  have session: "session net0 toy_lib ?s [(GetAttachmentCall ''x'', Ok (Download n c))] s" by (rule one_call [OF run])
  have "books_ok s \<and> still_open s = still_open ?s \<union> handed [(GetAttachmentCall ''x'', Ok (Download n c))]"
    by (rule session_bodies [OF _ session]) (simp_all add: install_tidy)
  with session show ?thesis by (auto simp: handed_def)
qed

end
