(* ===== verification/Contact_Cards.thy ===== *)
theory Contact_Cards
  imports Openpgp_Streams
begin

text \<open>
  Contact cards of contacts.go: encrypting and signing a vCard, reading a card, and the reader
  that checks a detached signature once the body was read to its end.
\<close>

section \<open>Making a card\<close>

text \<open>\<open>io.Copy\<close> into the encrypting writer: a read error or a write error ends it.\<close>

definition copy_encrypted :: "('q, 'p, 's) pgp_io \<Rightarrow> reader \<Rightarrow> error + string" where
  "copy_encrypted lib r =
     (case EncryptWrite lib '''' (fst (read_all r)) of
        Some e \<Rightarrow> Inl e
      | None \<Rightarrow> (case snd (read_all r) of Some e \<Rightarrow> Inl e | None \<Rightarrow> Inr (fst (read_all r))))"

definition NewEncryptedContactCard ::
  "('q, 'p, 's) pgp_io \<Rightarrow> reader \<Rightarrow> ('q, 'p, 's) pgp_entity list \<Rightarrow> ('q, 'p, 's) pgp_entity option \<Rightarrow> error + ContactCard" where
  "NewEncryptedContactCard lib r to signer =
     (case ArmorStart lib ''PGP MESSAGE'' of
        Some e \<Rightarrow> Inl e
      | None \<Rightarrow>
     (case EncryptStart lib to None of
        Some e \<Rightarrow> Inl e
      | None \<Rightarrow>
     (case copy_encrypted lib r of
        Inl e \<Rightarrow> Inl e
      | Inr msg \<Rightarrow>
     (case EncryptClose lib to None msg of
        Inl e \<Rightarrow> Inl e
      | Inr packets \<Rightarrow>
     (case ArmorClose lib packets of
        Some e \<Rightarrow> Inl e
      | None \<Rightarrow>
          (let cc = \<lparr>ccType = ContactCardEncrypted, ccData = ArmorText lib ''PGP MESSAGE'' packets, ccSignature = ''''\<rparr>
           in case signer of
                None \<Rightarrow> Inr cc
              | Some s \<Rightarrow>
                  (case DetachSignText lib s msg of
                     Inl e \<Rightarrow> Inl e
                   | Inr sig \<Rightarrow> Inr (cc\<lparr>ccType := ContactCardEncryptedAndSigned, ccSignature := sig\<rparr>))))))))"

definition NewSignedContactCard ::
  "('q, 'p, 's) pgp_io \<Rightarrow> reader \<Rightarrow> ('q, 'p, 's) pgp_entity \<Rightarrow> error + ContactCard" where
  "NewSignedContactCard lib r signer =
     (case snd (read_all r) of
        Some e \<Rightarrow> Inl e
      | None \<Rightarrow>
          (case DetachSignText lib signer (fst (read_all r)) of
             Inl e \<Rightarrow> Inl e
           | Inr sig \<Rightarrow> Inr \<lparr>ccType = ContactCardSigned, ccData = fst (read_all r), ccSignature = sig\<rparr>))"

section \<open>Reading a card\<close>

record ('q, 'p, 's) detachedSignatureReader =
  dsBody :: reader
  dsSigned :: string
  dsSignature :: string
  dsKeyring :: "('q, 'p, 's) pgp_entity list"
  dsEof :: bool

datatype ('q, 'p, 's) card_body = PlainBody reader | CheckedBody "('q, 'p, 's) detachedSignatureReader"

text \<open>The verdict of a signature check, entered into the details.\<close>

definition enter_verdict ::
  "('q, 'p, 's) pgp_io \<Rightarrow> ('q, 'p, 's) pgp_entity option \<times> error option \<Rightarrow> ('q, 'p, 's) details \<Rightarrow>
     (error, ('q, 'p, 's) details) outcome" where
  "enter_verdict lib verdict md =
     (let md1 = md\<lparr>mdIsSigned := True, mdSignatureError := snd verdict\<rparr> in
      case fst verdict of
        None \<Rightarrow> Ok md1
      | Some signer \<Rightarrow>
          bindO (entityPrimaryKey signer) (\<lambda>k.
          Ok (md1\<lparr>mdSignedByKeyId := pubKeyId lib (PrimaryKey signer), mdSignedBy := Some k\<rparr>)))"

text \<open>
  One \<open>Read\<close>.  The body is a \<open>TeeReader\<close>, so what it delivers is kept in \<open>dsSigned\<close>; the
  details that the caller holds are the ones that are updated.
\<close>

definition dsr_Read ::
  "('q, 'p, 's) pgp_io \<Rightarrow> ('q, 'p, 's) details \<times> ('q, 'p, 's) detachedSignatureReader \<Rightarrow>
     (error, (string \<times> read_end option) \<times> ('q, 'p, 's) details \<times> ('q, 'p, 's) detachedSignatureReader) outcome" where
  "dsr_Read lib st =
     (let (md, r) = st;
          ((d, e), rest) = read_next (dsBody r);
          r1 = r\<lparr>dsBody := rest, dsSigned := dsSigned r @ d\<rparr>
      in if e = Some EOF \<and> \<not> dsEof r1 then
           bindO (enter_verdict lib (CheckDetached lib (dsKeyring r1) (dsSigned r1) (dsSignature r1)) md) (\<lambda>md1.
           Ok ((d, e), md1, r1\<lparr>dsSigned := '''', dsEof := True\<rparr>))
         else Ok ((d, e), md, r1))"

definition card_Read ::
  "('q, 'p, 's) pgp_io \<Rightarrow> ContactCard \<Rightarrow> ('q, 'p, 's) pgp_entity list \<Rightarrow>
     (error, ('q, 'p, 's) details \<times> ('q, 'p, 's) card_body) outcome" where
  "card_Read lib cc keyring =
     (if \<not> Encrypted (ccType cc) then
        (if \<not> Signed (ccType cc) then Ok (zero_details, PlainBody (strings_NewReader (ccData cc)))
         else bindO (enter_verdict lib (CheckDetached lib keyring (ccData cc) (ccSignature cc)) zero_details) (\<lambda>md.
              Ok (md, PlainBody (strings_NewReader (ccData cc)))))
      else
        (case DecodeArmor lib (ccData cc) of
           Inl e \<Rightarrow> Err e
         | Inr block \<Rightarrow>
             (case ReadPGP lib (block, None) keyring of
                Inl e \<Rightarrow> Err e
              | Inr (md, body) \<Rightarrow>
                  Ok (md, if Signed (ccType cc)
                          then CheckedBody \<lparr>dsBody = body, dsSigned = '''', dsSignature = ccSignature cc,
                                 dsKeyring = keyring, dsEof = False\<rparr>
                          else PlainBody body))))"

text \<open>A number of reads, with what they deliver.\<close>

fun dsr_reads ::
  "('q, 'p, 's) pgp_io \<Rightarrow> nat \<Rightarrow> ('q, 'p, 's) details \<times> ('q, 'p, 's) detachedSignatureReader \<Rightarrow>
     (error, (string \<times> read_end option) list \<times> ('q, 'p, 's) details \<times> ('q, 'p, 's) detachedSignatureReader) outcome" where
  "dsr_reads lib 0 st = Ok ([], st)"
| "dsr_reads lib (Suc n) st =
     bindO (dsr_Read lib st) (\<lambda>(x, st1). bindO (dsr_reads lib n st1) (\<lambda>(xs, st2). Ok (x # xs, st2)))"

section \<open>The checked body\<close>

lemma dsr_reads_data:
  assumes "dsBody r = map (\<lambda>d. (d, None)) ds @ rest" and "n \<le> length ds"
  shows "dsr_reads lib n (md, r) = Ok (map (\<lambda>d. (d, None)) (take n ds), md,
     r\<lparr>dsBody := map (\<lambda>d. (d, None)) (drop n ds) @ rest, dsSigned := dsSigned r @ concat (take n ds)\<rparr>)"
  using assms
proof (induction n arbitrary: r ds)
  case 0
  then have "r\<lparr>dsBody := map (\<lambda>d. (d, None)) (drop 0 ds) @ rest, dsSigned := dsSigned r @ concat (take 0 ds)\<rparr> = r"
    by (cases r) simp
  then show ?case by simp
next
  case (Suc n)
  then obtain d ds' where ds: "ds = d # ds'" by (cases ds) auto
  let ?r1 = "r\<lparr>dsBody := map (\<lambda>d. (d, None)) ds' @ rest, dsSigned := dsSigned r @ d\<rparr>"
  have "dsr_Read lib (md, r) = Ok ((d, None), md, ?r1)"
    using Suc.prems(1) ds by (simp add: dsr_Read_def Let_def)
  moreover have "dsr_reads lib n (md, ?r1) = Ok (map (\<lambda>d. (d, None)) (take n ds'), md,
     ?r1\<lparr>dsBody := map (\<lambda>d. (d, None)) (drop n ds') @ rest, dsSigned := dsSigned ?r1 @ concat (take n ds')\<rparr>)"
    by (rule Suc.IH) (use Suc.prems ds in simp_all)
  ultimately show ?case using ds by simp
qed

lemma dsr_reads_add:
  "dsr_reads lib (m + n) st = bindO (dsr_reads lib m st) (\<lambda>(xs, st1). bindO (dsr_reads lib n st1) (\<lambda>(ys, st2). Ok (xs @ ys, st2)))"
  by (induction m arbitrary: st) (auto simp: bindO_def split: outcome.splits prod.splits)

lemma dsr_reads_after_end:
  assumes "dsBody r = []" and "dsEof r"
  shows "dsr_reads lib n (md, r) = Ok (replicate n ('''', Some EOF), md, r)"
proof -
  have "dsr_Read lib (md, r) = Ok (('''', Some EOF), md, r)"
    using assms by (cases r) (simp add: dsr_Read_def)
  then show ?thesis by (induction n) simp_all
qed

text \<open>The end of the body: one check over everything, and nothing more after it.\<close>

lemma dsr_reads_to_end:
  assumes r: "dsSigned r = ''''" "\<not> dsEof r" and body: "dsBody r = map (\<lambda>d. (d, None)) ds @ [(d, Some EOF)]"
  shows "dsr_reads lib (Suc (length ds) + n) (md, r) =
     bindO (enter_verdict lib (CheckDetached lib (dsKeyring r) (concat ds @ d) (dsSignature r)) md) (\<lambda>md'.
       Ok (map (\<lambda>d. (d, None)) ds @ (d, Some EOF) # replicate n ('''', Some EOF), md',
           r\<lparr>dsBody := [], dsSigned := '''', dsEof := True\<rparr>))"
proof -
  let ?r1 = "r\<lparr>dsBody := [(d, Some EOF)], dsSigned := concat ds\<rparr>"
  let ?r2 = "r\<lparr>dsBody := [], dsSigned := '''', dsEof := True\<rparr>"
  let ?v = "enter_verdict lib (CheckDetached lib (dsKeyring r) (concat ds @ d) (dsSignature r)) md"
  have pre: "dsr_reads lib (length ds) (md, r) = Ok (map (\<lambda>d. (d, None)) ds, md, ?r1)"
    using dsr_reads_data [OF body, of "length ds" lib md] r(1) by simp
  have final: "dsr_Read lib (md, ?r1) = bindO ?v (\<lambda>md1. Ok ((d, Some EOF), md1, ?r2))"
    using r(2) by (simp add: dsr_Read_def Let_def)
  have after: "dsr_reads lib n (md', ?r2) = Ok (replicate n ('''', Some EOF), md', ?r2)" for md'
    by (rule dsr_reads_after_end) simp_all
  show ?thesis
    using dsr_reads_add [of lib "length ds" "Suc n" "(md, r)"] pre final after
    by (cases ?v) simp_all
qed

lemma dsr_reads_to_error:
  assumes r: "dsSigned r = ''''" and body: "dsBody r = map (\<lambda>d. (d, None)) ds @ [(d, Some (ReadError x))]"
  shows "\<exists>r'. dsr_reads lib (Suc (length ds)) (md, r) = Ok (map (\<lambda>d. (d, None)) ds @ [(d, Some (ReadError x))], md, r')"
  using dsr_reads_add [of lib "length ds" 1 "(md, r)"] dsr_reads_data [OF body, of "length ds" lib md] r
  by (simp add: dsr_Read_def Let_def)

lemma enter_verdict_no_error: "enter_verdict lib v md = Err e \<longleftrightarrow> False"
  by (simp add: enter_verdict_def entityPrimaryKey_def entityToKey_def Let_def split: option.split)

text \<open>
  C19.  The verdict on a signed and encrypted card comes with the end of the body and covers all
  of it: as long as data is delivered the details say what decryption said; once the end is
  reached, by data with it or without, and after any number of further reads, they hold the
  result of exactly one check of the signature over the concatenation of all that was
  delivered; a body that ends in an error is never judged.
\<close>

theorem detached_signature_verdict:
  assumes "card_Read lib cc keyring = Ok (md, CheckedBody r)"
    and "dsBody r = map (\<lambda>d. (d, None)) ds @ [(d, Some e)]"
  shows "(n \<le> length ds \<longrightarrow>
       (\<exists>r'. dsr_reads lib n (md, r) = Ok (map (\<lambda>d. (d, None)) (take n ds), md, r'))) \<and>
     (e = EOF \<longrightarrow>
       (case enter_verdict lib (CheckDetached lib keyring (concat ds @ d) (ccSignature cc)) md of
          Ok md' \<Rightarrow> \<exists>r'. dsr_reads lib (Suc (length ds) + n) (md, r) =
            Ok (map (\<lambda>d. (d, None)) ds @ (d, Some EOF) # replicate n ('''', Some EOF), md', r')
        | Err x \<Rightarrow> False
        | Panic msg \<Rightarrow> dsr_reads lib (Suc (length ds) + n) (md, r) = Panic msg)) \<and>
     (\<forall>x. e = ReadError x \<longrightarrow>
       (\<exists>r'. dsr_reads lib (Suc (length ds)) (md, r) = Ok (map (\<lambda>d. (d, None)) ds @ [(d, Some e)], md, r')))"
proof -
  from assms(1) have r: "dsSigned r = ''''" "\<not> dsEof r" "dsSignature r = ccSignature cc" "dsKeyring r = keyring"
    by (auto simp: card_Read_def bindO_eq_Ok split: if_splits sum.splits)
  have step: "n \<le> length ds \<Longrightarrow> \<exists>r'. dsr_reads lib n (md, r) = Ok (map (\<lambda>d. (d, None)) (take n ds), md, r')"
    using dsr_reads_data [OF assms(2)] by blast
  let ?v = "enter_verdict lib (CheckDetached lib keyring (concat ds @ d) (ccSignature cc)) md"
  show ?thesis
  proof (cases e)
    case EOF
    then have all: "dsr_reads lib (Suc (length ds) + n) (md, r) = bindO ?v (\<lambda>md'.
        Ok (map (\<lambda>d. (d, None)) ds @ (d, Some EOF) # replicate n ('''', Some EOF), md',
            r\<lparr>dsBody := [], dsSigned := '''', dsEof := True\<rparr>))"
      using dsr_reads_to_end [OF r(1,2), of ds d lib n md] assms(2) r(3,4) by simp
    show ?thesis
      using step EOF unfolding all by (cases ?v) (simp_all add: enter_verdict_no_error)
  next
    case (ReadError x)
    with dsr_reads_to_error [OF r(1), of ds d x lib md] assms(2) step show ?thesis by simp
  qed
qed

section \<open>Round trips\<close>

lemma read_all_data: "read_all (map (\<lambda>d. (d, None)) ds @ [(d, Some EOF)]) = (concat ds @ d, None)"
  by (induction ds) simp_all

text \<open>What a card is, when making it succeeded.\<close>

lemma NewSignedContactCard_Inr:
  assumes "NewSignedContactCard lib vcard s = Inr cc"
  shows "DetachSignText lib s (fst (read_all vcard)) = Inr (ccSignature cc) \<and>
     ccType cc = ContactCardSigned \<and> ccData cc = fst (read_all vcard)"
  using assms by (auto simp: NewSignedContactCard_def split: option.splits sum.splits)

lemma NewEncryptedContactCard_Inr:
  assumes "NewEncryptedContactCard lib vcard to signer = Inr cc"
  obtains packets where "EncryptClose lib to None (fst (read_all vcard)) = Inr packets"
    and "ccData cc = ArmorText lib ''PGP MESSAGE'' packets"
    and "signer = None \<Longrightarrow> ccType cc = ContactCardEncrypted"
    and "\<And>s. signer = Some s \<Longrightarrow> ccType cc = ContactCardEncryptedAndSigned \<and>
           DetachSignText lib s (fst (read_all vcard)) = Inr (ccSignature cc)"
  using assms
  by (auto simp: NewEncryptedContactCard_def copy_encrypted_def Let_def split: option.splits sum.splits)

lemma primary_from_Some: "\<exists>i. primary_from (Some i0) idents = Some i"
  by (induction idents) simp_all

lemma primaryIdentity_some: "Identities s \<noteq> [] \<Longrightarrow> \<exists>i. primaryIdentity s = Some i"
  by (cases "Identities s") (auto simp: primaryIdentity_def primary_from_Some)

lemmas card_kinds = Encrypted_def Signed_def ContactCardEncrypted_def ContactCardSigned_def
  ContactCardEncryptedAndSigned_def

lemma enter_verdict_good:
  assumes "Identities s \<noteq> []"
  shows "\<exists>md'. enter_verdict lib (Some s, None) md = Ok md' \<and> mdIsSigned md' \<and> mdSignatureError md' = None \<and>
     mdSignedByKeyId md' = pubKeyId lib (PrimaryKey s) \<and> mdIsEncrypted md' = mdIsEncrypted md"
  using primaryIdentity_some [OF assms]
  by (auto simp: enter_verdict_def entityPrimaryKey_def entityToKey_def Let_def)

text \<open>
  C21.  Cards survive: a card made by \<open>NewEncryptedContactCard\<close> or \<open>NewSignedContactCard\<close> from a
  vCard is read back by a key ring that opens it, the whole vCard is delivered, in whatever
  chunks, and a signed card is reported as signed, without an error, by the signer.
\<close>

theorem contact_card_roundtrip:
  assumes armor: "\<And>t c. DecodeArmor lib (ArmorText lib t c) = Inr c"
    and decrypt: "\<And>data packets. EncryptClose lib to None data = Inr packets \<Longrightarrow>
        \<exists>ds d. ReadPGP lib (packets, None) keyring =
            Inr (zero_details\<lparr>mdIsEncrypted := True\<rparr>, map (\<lambda>d. (d, None)) ds @ [(d, Some EOF)]) \<and> concat ds @ d = data"
    and verify: "\<And>data sig. DetachSignText lib s data = Inr sig \<Longrightarrow> CheckDetached lib keyring data sig = (Some s, None)"
    and "Identities s \<noteq> []"
  shows "(NewSignedContactCard lib vcard s = Inr cc \<longrightarrow>
       (\<exists>md. card_Read lib cc keyring = Ok (md, PlainBody (strings_NewReader (fst (read_all vcard)))) \<and>
          mdIsSigned md \<and> mdSignatureError md = None \<and> mdSignedByKeyId md = pubKeyId lib (PrimaryKey s))) \<and>
     (NewEncryptedContactCard lib vcard to None = Inr cc \<longrightarrow>
       (\<exists>md body. card_Read lib cc keyring = Ok (md, PlainBody body) \<and> read_all body = (fst (read_all vcard), None) \<and>
          mdIsEncrypted md \<and> \<not> mdIsSigned md)) \<and>
     (NewEncryptedContactCard lib vcard to (Some s) = Inr cc \<longrightarrow>
       (\<exists>md r. card_Read lib cc keyring = Ok (md, CheckedBody r) \<and> mdIsEncrypted md \<and>
          (\<exists>n xs md' r'. dsr_reads lib n (md, r) = Ok (xs, md', r') \<and> concat (map fst xs) = fst (read_all vcard) \<and>
             mdIsSigned md' \<and> mdSignatureError md' = None \<and> mdSignedByKeyId md' = pubKeyId lib (PrimaryKey s))))"
proof (intro conjI impI)
  assume "NewSignedContactCard lib vcard s = Inr cc"
  from NewSignedContactCard_Inr [OF this] verify [of "ccData cc" "ccSignature cc"]
    enter_verdict_good [OF assms(4), of lib zero_details]
  show "\<exists>md. card_Read lib cc keyring = Ok (md, PlainBody (strings_NewReader (fst (read_all vcard)))) \<and>
          mdIsSigned md \<and> mdSignatureError md = None \<and> mdSignedByKeyId md = pubKeyId lib (PrimaryKey s)"
    by (auto simp: card_Read_def card_kinds)
next
  assume "NewEncryptedContactCard lib vcard to None = Inr cc"
  then obtain packets where p: "EncryptClose lib to None (fst (read_all vcard)) = Inr packets"
    "ccData cc = ArmorText lib ''PGP MESSAGE'' packets" "ccType cc = ContactCardEncrypted"
    by (rule NewEncryptedContactCard_Inr) blast
  from decrypt [OF p(1)] p(2,3) show "\<exists>md body. card_Read lib cc keyring = Ok (md, PlainBody body) \<and>
      read_all body = (fst (read_all vcard), None) \<and> mdIsEncrypted md \<and> \<not> mdIsSigned md"
    by (auto simp: card_Read_def card_kinds armor zero_details_def read_all_data)
next
  assume "NewEncryptedContactCard lib vcard to (Some s) = Inr cc"
  then obtain packets where p: "EncryptClose lib to None (fst (read_all vcard)) = Inr packets"
    "ccData cc = ArmorText lib ''PGP MESSAGE'' packets" "ccType cc = ContactCardEncryptedAndSigned"
    "DetachSignText lib s (fst (read_all vcard)) = Inr (ccSignature cc)"
    by (rule NewEncryptedContactCard_Inr) blast
  from decrypt [OF p(1)] obtain ds d where body: "ReadPGP lib (packets, None) keyring =
      Inr (zero_details\<lparr>mdIsEncrypted := True\<rparr>, map (\<lambda>d. (d, None)) ds @ [(d, Some EOF)])"
    "concat ds @ d = fst (read_all vcard)" by blast
  let ?md = "zero_details\<lparr>mdIsEncrypted := True\<rparr>"
  let ?r = "\<lparr>dsBody = map (\<lambda>d. (d, None)) ds @ [(d, Some EOF)], dsSigned = '''', dsSignature = ccSignature cc,
      dsKeyring = keyring, dsEof = False\<rparr>"
  have "card_Read lib cc keyring = Ok (?md, CheckedBody ?r)"
    using body p(2,3) by (simp add: card_Read_def card_kinds armor)
  moreover obtain md' where v: "enter_verdict lib (Some s, None) ?md = Ok md'"
    "mdIsSigned md'" "mdSignatureError md' = None" "mdSignedByKeyId md' = pubKeyId lib (PrimaryKey s)"
    using enter_verdict_good [OF assms(4), of lib ?md] by blast
  moreover have "dsr_reads lib (Suc (length ds) + 0) (?md, ?r) =
      Ok (map (\<lambda>d. (d, None)) ds @ [(d, Some EOF)], md', ?r\<lparr>dsBody := [], dsSigned := '''', dsEof := True\<rparr>)"
    using dsr_reads_to_end [of ?r ds d lib 0 ?md] verify [OF p(4)] body(2) v(1) by simp
  moreover have "concat (map fst (map (\<lambda>d. (d, None)) ds @ [(d, Some EOF)])) = fst (read_all vcard)"
    using body(2) by (simp add: comp_def)
  ultimately show "\<exists>md r. card_Read lib cc keyring = Ok (md, CheckedBody r) \<and> mdIsEncrypted md \<and>
      (\<exists>n xs md' r'. dsr_reads lib n (md, r) = Ok (xs, md', r') \<and> concat (map fst xs) = fst (read_all vcard) \<and>
         mdIsSigned md' \<and> mdSignatureError md' = None \<and> mdSignedByKeyId md' = pubKeyId lib (PrimaryKey s))"
    by (intro exI [of _ ?md] exI [of _ ?r] conjI exI [of _ "Suc (length ds) + 0"] exI [of _ md']) (assumption | simp)+
qed

section \<open>Witnesses\<close>

lemma toy_keyId [simp]: "pubKeyId toy_io q = 0"
  by (simp add: toy_io_def pgp.extend_def toy_pgp_def)

definition toy_card :: ContactCard where
  "toy_card = \<lparr>ccType = 3, ccData = ''-#vcard'', ccSignature = ''dracv''\<rparr>"

lemma toy_verdict:
  "\<exists>md'. enter_verdict toy_io (Some toy_entity, None) md = Ok md' \<and> mdIsSigned md' \<and> mdSignatureError md' = None"
  using enter_verdict_good [of toy_entity toy_io md] by (auto simp: toy_entity_def)

lemma detached_signature_verdict_witness:
  "\<exists>md r md' r'. card_Read toy_io toy_card [toy_entity] = Ok (md, CheckedBody r) \<and> \<not> mdIsSigned md \<and>
     dsr_reads toy_io 4 (md, r) = Ok ([(''v'', None), (''card'', Some EOF), ('''', Some EOF), ('''', Some EOF)], md', r') \<and>
     mdIsSigned md' \<and> mdSignatureError md' = None"
proof -
  let ?md = "zero_details\<lparr>mdIsEncrypted := True\<rparr> :: (nat, nat, unit) details"
  let ?r = "\<lparr>dsBody = map (\<lambda>d. (d, None)) [''v''] @ [(''card'', Some EOF)], dsSigned = '''', dsSignature = ''dracv'',
      dsKeyring = [toy_entity], dsEof = False\<rparr>"
  have opened: "card_Read toy_io toy_card [toy_entity] = Ok (?md, CheckedBody ?r)"
    by (simp add: card_Read_def toy_card_def card_kinds numeral_eq_Suc)
  obtain md' where md': "enter_verdict toy_io (Some toy_entity, None) ?md = Ok md'"
    "mdIsSigned md'" "mdSignatureError md' = None"
    using toy_verdict by blast
  have "CheckDetached toy_io [toy_entity] (concat [''v''] @ ''card'') (ccSignature toy_card) = (Some toy_entity, None)"
    by (simp add: toy_card_def)
  with detached_signature_verdict [OF opened, of "[''v'']" "''card''" EOF 2] md'
  obtain r' where "dsr_reads toy_io (Suc (length [''v'']) + 2) (?md, ?r) =
      Ok (map (\<lambda>d. (d, None)) [''v''] @ (''card'', Some EOF) # replicate 2 ('''', Some EOF), md', r')"
    by auto
  then have "dsr_reads toy_io 4 (?md, ?r) =
      Ok ([(''v'', None), (''card'', Some EOF), ('''', Some EOF), ('''', Some EOF)], md', r')"
    by (simp add: numeral_eq_Suc)
  moreover have "\<not> mdIsSigned ?md" by (simp add: zero_details_def)
  ultimately show ?thesis using opened md' by blast
qed

lemma contact_card_roundtrip_witness:
  "NewEncryptedContactCard toy_io [(''vca'', None), (''rd'', Some EOF)] [toy_entity] (Some toy_entity) = Inr toy_card \<and>
   (\<exists>md r n xs md' r'. card_Read toy_io toy_card [toy_entity] = Ok (md, CheckedBody r) \<and>
      dsr_reads toy_io n (md, r) = Ok (xs, md', r') \<and> concat (map fst xs) = ''vcard'' \<and> mdIsSigned md' \<and> mdSignatureError md' = None)"
proof -
  let ?vcard = "[(''vca'', None), (''rd'', Some EOF)]"
  have new: "NewEncryptedContactCard toy_io ?vcard [toy_entity] (Some toy_entity) = Inr toy_card"
    by (simp add: NewEncryptedContactCard_def copy_encrypted_def toy_card_def card_kinds)
  have armor: "DecodeArmor toy_io (ArmorText toy_io t c) = Inr c" for t c by simp
  have opens: "EncryptClose toy_io [toy_entity] None data = Inr packets \<Longrightarrow>
      \<exists>ds d. ReadPGP toy_io (packets, None) [toy_entity] =
         Inr (zero_details\<lparr>mdIsEncrypted := True\<rparr>, map (\<lambda>d. (d, None)) ds @ [(d, Some EOF)]) \<and> concat ds @ d = data" for data packets
    by (auto intro!: exI [of _ "[take 1 data]"] exI [of _ "drop 1 data"] simp: take_1_drop_1)
  have checks: "DetachSignText toy_io toy_entity data = Inr sig \<Longrightarrow>
      CheckDetached toy_io [toy_entity] data sig = (Some toy_entity, None)" for data sig
    by auto
  have "Identities toy_entity \<noteq> []" by (simp add: toy_entity_def)
  from contact_card_roundtrip [of toy_io "[toy_entity]" "[toy_entity]" toy_entity ?vcard toy_card, OF armor opens checks this] new
  have opened: "\<exists>md r. card_Read toy_io toy_card [toy_entity] = Ok (md, CheckedBody r) \<and> mdIsEncrypted md \<and>
      (\<exists>n xs md' r'. dsr_reads toy_io n (md, r) = Ok (xs, md', r') \<and> concat (map fst xs) = fst (read_all ?vcard) \<and>
         mdIsSigned md' \<and> mdSignatureError md' = None \<and> mdSignedByKeyId md' = pubKeyId toy_io (PrimaryKey toy_entity))"
    by blast
  have "fst (read_all ?vcard) = ''vcard''" by simp
  with opened new show ?thesis by (simp only: simp_thms) blast
qed

end
