(* ===== verification/Form_Reader.thy ===== *)
theory Form_Reader
  imports Multipart
begin

text \<open>
  Forms read back: a reference reader of multipart bodies, as RFC 2046 describes it, and what it
  makes of the bodies that the client writes.
\<close>

section \<open>A reader of forms\<close>

text \<open>Around the first occurrence of \<open>d\<close>.\<close>

fun split_at :: "string \<Rightarrow> string \<Rightarrow> (string \<times> string) option" where
  "split_at d [] = (if d = [] then Some ([], []) else None)"
| "split_at d (c # cs) =
     (if take (length d) (c # cs) = d then Some ([], drop (length d) (c # cs))
      else map_option (\<lambda>(x, y). (c # x, y)) (split_at d cs))"

definition occurs :: "string \<Rightarrow> string \<Rightarrow> bool" where
  "occurs d s \<longleftrightarrow> split_at d s \<noteq> None"

lemma split_at_length: "split_at d s = Some (x, y) \<Longrightarrow> d \<noteq> [] \<Longrightarrow> length y < length s"
  by (induction s arbitrary: x y) (auto split: if_splits)

definition delim :: "string \<Rightarrow> string" where
  "delim boundary = crlf @ ''--'' @ boundary"

lemma delim_not_Nil [simp]: "delim b \<noteq> []" "crlf \<noteq> []"
  by (simp_all add: delim_def crlf_def)

text \<open>The header lines up to the first empty line.\<close>

function read_header :: "string \<Rightarrow> (mime_header \<times> string) option" where
  "read_header s =
     (case split_at crlf s of
        None \<Rightarrow> None
      | Some (line, rest) \<Rightarrow>
          (if line = [] then Some ([], rest)
           else case split_at '': '' line of
             None \<Rightarrow> None
           | Some (k, v) \<Rightarrow> map_option (\<lambda>(hdr, t). ((k, v) # hdr, t)) (read_header rest)))"
  by pat_completeness auto
termination
  by (relation "measure length") (auto dest: split_at_length)

declare read_header.simps [simp del]

lemma read_header_length: "read_header s = Some (hdr, t) \<Longrightarrow> length t < length s"
proof (induction s arbitrary: hdr rule: read_header.induct)
  case (1 s)
  then show ?case
    by (subst (asm) (2) read_header.simps) (fastforce split: option.splits if_splits prod.splits dest: split_at_length)
qed

text \<open>What follows a delimiter: the next part, or the end of the form.\<close>

function read_parts :: "string \<Rightarrow> string \<Rightarrow> form option" where
  "read_parts b s =
     (if take 2 s = ''--'' then Some []
      else if take 2 s \<noteq> crlf then None
      else case read_header (drop 2 s) of
        None \<Rightarrow> None
      | Some (hdr, t) \<Rightarrow>
          (case split_at (delim b) t of
             None \<Rightarrow> None
           | Some (content, rest) \<Rightarrow> map_option (Cons (hdr, content)) (read_parts b rest)))"
  by pat_completeness auto
termination
  by (relation "measure (\<lambda>(b, s). length s)") (auto dest!: split_at_length read_header_length)

declare read_parts.simps [simp del]

definition read_form :: "string \<Rightarrow> string \<Rightarrow> form option" where
  "read_form b s = (case split_at (delim b) (crlf @ s) of None \<Rightarrow> None | Some (preamble, rest) \<Rightarrow> read_parts b rest)"

section \<open>Reading what was written\<close>

text \<open>A delimiter whose first character does not come again cannot overlap itself.\<close>

lemma split_at_first:
  assumes "\<not> occurs (c # d) s" and "c \<notin> set d"
  shows "split_at (c # d) (s @ c # d @ rest) = Some (s, rest)"
  using assms(1)
proof (induction s)
  case (Cons x xs)
  let ?D = "c # d"
  from Cons.prems have no: "take (length ?D) (x # xs) \<noteq> ?D" "\<not> occurs ?D xs"
    by (auto simp: occurs_def split: if_splits)
  have "take (length ?D) ((x # xs) @ ?D @ rest) \<noteq> ?D"
  proof
    assume eq: "take (length ?D) ((x # xs) @ ?D @ rest) = ?D"
    show False
    proof (cases "length ?D \<le> length (x # xs)")
      case True
      with eq no(1) show False by simp
    next
      case False
      then have "?D ! length (x # xs) = ((x # xs) @ ?D @ rest) ! length (x # xs)"
        using eq by (metis linorder_not_le nth_take)
      also have "\<dots> = c" by (metis append_Cons nth_append_length)
      finally have "c \<in> set d" using False by (metis Suc_le_mono length_Cons linorder_not_less nth_Cons_Suc nth_mem)
      with assms(2) show False by simp
    qed
  qed
  with Cons.IH [OF no(2)] show ?case by simp
qed simp

lemma occurs_head: "occurs (c # d) s \<Longrightarrow> c \<in> set s"
  by (induction s) (auto simp: occurs_def split: if_splits)

lemma crlf_split: "CHR 0x0D \<notin> set s \<Longrightarrow> split_at crlf (s @ crlf @ rest) = Some (s, rest)"
  unfolding crlf_def using split_at_first [of "CHR 0x0D" "[CHR 0x0A]" s rest] occurs_head by auto

definition header_field :: "string \<times> string \<Rightarrow> bool" where
  "header_field kv \<longleftrightarrow> fst kv \<noteq> [] \<and> CHR '':'' \<notin> set (fst kv) \<and> CHR 0x0D \<notin> set (fst kv) \<and> CHR 0x0D \<notin> set (snd kv)"

lemma read_header_lines:
  "list_all header_field hdr \<Longrightarrow> read_header (header_lines hdr @ crlf @ rest) = Some (hdr, rest)"
proof (induction hdr)
  case Nil
  show ?case
    using crlf_split [of "[]" rest] by (subst read_header.simps) (simp add: header_lines_def)
next
  case (Cons kv hdr)
  obtain k v where kv: "kv = (k, v)" by (cases kv)
  with Cons.prems have k: "k \<noteq> []" "CHR '':'' \<notin> set k" "CHR 0x0D \<notin> set k" "CHR 0x0D \<notin> set v"
    by (auto simp: header_field_def)
  have "split_at crlf ((k @ '': '' @ v) @ crlf @ (header_lines hdr @ crlf @ rest)) = Some (k @ '': '' @ v, header_lines hdr @ crlf @ rest)"
    by (rule crlf_split) (use k in auto)
  moreover have "split_at '': '' (k @ '': '' @ v) = Some (k, v)"
    using split_at_first [of "CHR '':''" "'' ''" k v] occurs_head k(2) by auto
  ultimately show ?case
    using Cons k kv by (subst read_header.simps) (simp add: header_lines_def)
qed

definition readable :: "string \<Rightarrow> mime_header \<times> string \<Rightarrow> bool" where
  "readable b part \<longleftrightarrow> list_all header_field (fst part) \<and> \<not> occurs (delim b) (snd part)"

lemma delim_split:
  assumes "CHR 0x0D \<notin> set b" and "\<not> occurs (delim b) s"
  shows "split_at (delim b) (s @ delim b @ rest) = Some (s, rest)"
  using split_at_first [of "CHR 0x0D" "CHR 0x0A # ''--'' @ b" s rest] assms by (simp add: delim_def crlf_def)

definition ending :: "string \<Rightarrow> form \<Rightarrow> string" where
  "ending b ps = concat (map (render_part b False) ps) @ delim b @ ''--'' @ crlf"

lemma ending_delim: "\<exists>t. ending b ps = delim b @ t"
  by (cases ps) (simp_all add: ending_def render_part_def part_head_def delim_def)

lemma ending_Cons:
  "ending b ((hdr, content) # ps) = delim b @ crlf @ header_lines hdr @ crlf @ content @ ending b ps"
  by (simp add: ending_def render_part_def part_head_def delim_def)

lemma read_parts_render:
  assumes "CHR 0x0D \<notin> set b"
  shows "list_all (readable b) ps \<Longrightarrow> ending b ps = delim b @ t \<Longrightarrow> read_parts b t = Some ps"
proof (induction ps arbitrary: t)
  case Nil
  then have "t = ''--'' @ crlf" by (simp add: ending_def)
  then show ?case by (simp add: read_parts.simps)
next
  case (Cons p ps)
  obtain hdr content where p: "p = (hdr, content)" by (cases p)
  obtain u where u: "ending b ps = delim b @ u" using ending_delim by blast
  have t: "t = crlf @ header_lines hdr @ crlf @ content @ ending b ps"
    using Cons.prems(2) by (simp add: p ending_Cons)
  have "read_header (header_lines hdr @ crlf @ content @ ending b ps) = Some (hdr, content @ ending b ps)"
    using Cons.prems p by (intro read_header_lines) (simp add: readable_def)
  moreover have "split_at (delim b) (content @ ending b ps) = Some (content, u)"
    unfolding u using Cons.prems p by (intro delim_split assms(1)) (simp add: readable_def)
  moreover have "read_parts b u = Some ps" using Cons u by simp
  ultimately show ?case
    by (subst read_parts.simps) (simp add: crlf_def p t)
qed

text \<open>A form is read back, part by part, when its delimiter occurs in no part.\<close>

lemma form_roundtrip:
  assumes "CHR 0x0D \<notin> set b" and "list_all (readable b) ps"
  shows "read_form b (render b ps) = Some ps"
proof (cases ps)
  case Nil
  have "\<not> occurs (delim b) crlf"
    by (auto simp: occurs_def delim_def crlf_def split: if_splits)
  from delim_split [OF assms(1) this] show ?thesis
    by (simp add: Nil read_form_def render_def render_open_def delim_def read_parts.simps)
next
  case (Cons p qs)
  have all: "crlf @ render b ps = ending b ps"
    by (simp add: Cons render_def render_open_def ending_def render_part_def part_head_def delim_def)
  obtain t where t: "ending b ps = delim b @ t" using ending_delim by blast
  have "\<not> occurs (delim b) []" by (simp add: occurs_def)
  from delim_split [OF assms(1) this] have "split_at (delim b) (ending b ps) = Some ([], t)" by (simp add: t)
  moreover have "read_parts b t = Some ps" using read_parts_render [OF assms t] .
  ultimately show ?thesis by (simp add: read_form_def all)
qed

text \<open>A form that breaks off is no form: its last part never ends.\<close>

definition beginning :: "string \<Rightarrow> form \<Rightarrow> string" where
  "beginning b ps = concat (map (render_part b False) ps)"

lemma beginning_Cons:
  "beginning b ((hdr, content) # ps) = delim b @ crlf @ header_lines hdr @ crlf @ content @ beginning b ps"
  by (simp add: beginning_def render_part_def part_head_def delim_def)

lemma read_parts_open:
  assumes "CHR 0x0D \<notin> set b"
  shows "ps \<noteq> [] \<Longrightarrow> list_all (readable b) ps \<Longrightarrow> beginning b ps = delim b @ t \<Longrightarrow> read_parts b t = None"
proof (induction ps arbitrary: t)
  case (Cons p ps)
  obtain hdr content where p: "p = (hdr, content)" by (cases p)
  then have t: "t = crlf @ header_lines hdr @ crlf @ content @ beginning b ps"
    using Cons.prems(3) by (simp add: beginning_Cons)
  have hdr: "read_header (header_lines hdr @ crlf @ content @ beginning b ps) = Some (hdr, content @ beginning b ps)"
    using Cons.prems p by (intro read_header_lines) (simp add: readable_def)
  have content: "\<not> occurs (delim b) content" using Cons.prems p by (simp add: readable_def)
  show ?case
  proof (cases ps)
    case Nil
    then have "beginning b ps = []" by (simp add: beginning_def)
    moreover have "split_at (delim b) content = None" using content by (simp add: occurs_def del: not_None_eq)
    ultimately show ?thesis using hdr by (subst read_parts.simps) (simp add: crlf_def t)
  next
    case (Cons q qs)
    then obtain u where u: "beginning b ps = delim b @ u" by (metis beginning_Cons prod.collapse)
    have "split_at (delim b) (content @ beginning b ps) = Some (content, u)"
      unfolding u by (rule delim_split [OF assms content])
    moreover have "read_parts b u = None" using Cons.IH [OF _ _ u] Cons.prems(2) Cons by simp
    ultimately show ?thesis using hdr by (subst read_parts.simps) (simp add: crlf_def t)
  qed
qed simp

lemma form_broken_off:
  assumes "CHR 0x0D \<notin> set b" and "list_all (readable b) ps" and "ps \<noteq> []"
  shows "read_form b (render_open b ps) = None"
proof -
  have all: "crlf @ render_open b ps = beginning b ps"
    using assms(3) by (cases ps) (simp_all add: beginning_def render_open_def render_part_def part_head_def)
  obtain t where t: "beginning b ps = delim b @ t" using assms(3) by (metis list.exhaust beginning_Cons prod.collapse)
  have "\<not> occurs (delim b) []" by (simp add: occurs_def)
  from delim_split [OF assms(1) this] have "split_at (delim b) (delim b @ t) = Some ([], t)" by simp
  moreover have "read_parts b t = None" by (rule read_parts_open [OF assms(1,3,2) t])
  ultimately show ?thesis by (simp only: read_form_def all t option.case prod.case)
qed

end
