(* ===== verification/Media_Reader.thy ===== *)
theory Media_Reader
  imports Form_Reader
begin

text \<open>
  The parameters of a header read back: a reference reader of the values that \<open>FormatMediaType\<close>
  writes, whether as tokens, quoted or percent-encoded.
\<close>

section \<open>A reader of parameters\<close>

text \<open>
  The value of a parameter, as RFC 2045 and RFC 2231 describe it: percent-encoded UTF-8 after an
  attribute that ends in an asterisk, else a quoted string or a token.
\<close>

fun unquote :: "string \<Rightarrow> (string \<times> string) option" where
  "unquote [] = None"
| "unquote (c # cs) =
     (if c = CHR 0x22 then Some ([], cs)
      else if c = CHR 0x5C then (case cs of [] \<Rightarrow> None | d # ds \<Rightarrow> map_option (\<lambda>(v, r). (d # v, r)) (unquote ds))
      else map_option (\<lambda>(v, r). (c # v, r)) (unquote cs))"

definition read_token :: "string \<Rightarrow> string \<times> string" where
  "read_token s = (takeWhile (\<lambda>c. c \<noteq> CHR '';'') s, dropWhile (\<lambda>c. c \<noteq> CHR '';'') s)"

definition charset_mark :: string where
  "charset_mark = ''utf-8'' @ [CHR 0x27, CHR 0x27]"

definition read_value :: "string \<Rightarrow> string \<Rightarrow> ((string \<times> string) \<times> string) option" where
  "read_value attr s =
     (if attr \<noteq> [] \<and> last attr = CHR ''*'' then
        (let (t, r) = read_token s in
         if take 7 t = charset_mark then map_option (\<lambda>v. ((butlast attr, v), r)) (unescape encodePath (drop 7 t)) else None)
      else if take 1 s = [CHR 0x22] then map_option (\<lambda>(v, r). ((attr, v), r)) (unquote (drop 1 s))
      else (let (t, r) = read_token s in Some ((attr, t), r)))"

lemma unquote_length: "unquote s = Some (v, r) \<Longrightarrow> length r < length s"
proof (induction s arbitrary: v rule: unquote.induct)
  case (2 c cs)
  then show ?case by (cases cs) (fastforce split: if_splits)+
qed simp

lemma read_value_length: "read_value attr s = Some (x, r) \<Longrightarrow> length r \<le> length s"
  using unquote_length [of "drop 1 s"]
  by (auto simp: read_value_def read_token_def Let_def length_dropWhile_le split: if_splits)

function read_params :: "string \<Rightarrow> (string \<times> string) list option" where
  "read_params s =
     (if s = [] then Some []
      else if take 2 s \<noteq> ''; '' then None
      else case split_at ''='' (drop 2 s) of
        None \<Rightarrow> None
      | Some (attr, t) \<Rightarrow>
          (case read_value attr t of
             None \<Rightarrow> None
           | Some (p, r) \<Rightarrow> map_option (Cons p) (read_params r)))"
  by pat_completeness auto
termination
  by (relation "measure length") (auto dest!: split_at_length read_value_length)

declare read_params.simps [simp del]

definition read_disposition :: "string \<Rightarrow> (string \<times> string) list option" where
  "read_disposition v = (if take 9 v = ''form-data'' then read_params (drop 9 v) else None)"

section \<open>What was formatted is read\<close>

definition plain_name :: "string \<Rightarrow> bool" where
  "plain_name k \<longleftrightarrow> k \<noteq> [] \<and> CHR ''='' \<notin> set k \<and> CHR ''*'' \<notin> set k"

lemma unquote_quoted:
  "unquote (concat (map (\<lambda>c. if c = CHR 0x22 \<or> c = CHR 0x5C then [CHR 0x5C, c] else [c]) s) @ CHR 0x22 # r) = Some (s, r)"
  by (induction s) simp_all

definition ends_param :: "string \<Rightarrow> bool" where
  "ends_param r \<longleftrightarrow> r = [] \<or> hd r = CHR '';''"

lemma read_token_append: "CHR '';'' \<notin> set t \<Longrightarrow> ends_param r \<Longrightarrow> read_token (t @ r) = (t, r)"
  by (cases r; induction t) (auto simp: read_token_def ends_param_def)

lemma hex_digit_alnum: "n < 16 \<Longrightarrow> 48 \<le> char_nat (hex_digit n) \<and> char_nat (hex_digit n) \<noteq> 59"
  by (simp add: hex_digit_def char_nat_def)

lemma percent_no_semicolon: "CHR '';'' \<notin> set (percent c)"
proof -
  have semi: "char_nat CHR '';'' = 59" by (simp add: char_nat_def)
  have "char_nat c div 16 < 16" using char_nat_less [of c] by simp
  then have "hex_digit (char_nat c div 16) \<noteq> CHR '';''" "hex_digit (char_nat c mod 16) \<noteq> CHR '';''"
    using hex_digit_alnum [of "char_nat c div 16"] hex_digit_alnum [of "char_nat c mod 16"] char_nat_less [of c] semi
    by (auto dest!: arg_cong [where f = char_nat])
  moreover have "isTSpecial CHR '';''" by (simp add: isTSpecial_def)
  ultimately show ?thesis by (auto simp: percent_def)
qed

lemma unescape_percent: "unescape encodePath (percent c @ r) = map_option (Cons c) (unescape encodePath r)"
proof -
  have "c = CHR ''%'' \<Longrightarrow> percent c \<noteq> [c]" by (simp add: percent_def)
  moreover have "char_of (16 * (char_nat c div 16) + char_nat c mod 16) = c" by (simp add: char_nat_def)
  ultimately show ?thesis
    using char_nat_less [of c] by (auto simp: percent_def)
qed

lemma unescape_percents: "unescape encodePath (concat (map percent s)) = Some s"
proof (induction s)
  case (Cons c s)
  then show ?case using unescape_percent [of c "concat (map percent s)"] by simp
qed simp

lemma token_plain: "isToken v \<Longrightarrow> CHR '';'' \<notin> set v \<and> v \<noteq> [] \<and> hd v \<noteq> CHR 0x22"
  by (cases v) (auto simp: isToken_def isTokenChar_def isTSpecial_def list_all_iff)

lemma attr_split: "CHR ''='' \<notin> set k \<Longrightarrow> split_at ''='' (k @ CHR ''='' # r) = Some (k, r)"
  using split_at_first [of "CHR ''=''" "[]" k r] occurs_head by auto

lemma read_params_quoted:
  assumes "plain_name k"
  shows "read_params (''; '' @ k @ ''='' @ quoted v @ r) = map_option (Cons (k, v)) (read_params r)"
proof -
  from assms have k: "k \<noteq> []" "CHR ''='' \<notin> set k" "last k \<noteq> CHR ''*''"
    by (auto simp: plain_name_def dest: last_in_set)
  then have "read_value k (quoted v @ r) = Some ((k, v), r)"
    using unquote_quoted [of v r] by (simp add: read_value_def quoted_def)
  with k show ?thesis by (subst read_params.simps) (simp add: attr_split)
qed

lemma read_params_param:
  assumes "plain_name k" and "ends_param r"
  shows "read_params (media_param (k, v) @ r) = map_option (Cons (k, v)) (read_params r)"
proof -
  from assms(1) have k: "k \<noteq> []" "CHR ''='' \<notin> set k" "last k \<noteq> CHR ''*''"
    by (auto simp: plain_name_def dest: last_in_set)
  consider "needsEncoding v" | "\<not> needsEncoding v" "isToken v" | "\<not> needsEncoding v" "\<not> isToken v" by blast
  then show ?thesis
  proof cases
    case 1
    let ?t = "charset_mark @ concat (map percent v)"
    have "CHR '';'' \<notin> set ?t" using percent_no_semicolon by (auto simp: charset_mark_def)
    from read_token_append [OF this assms(2)] have t: "read_token (?t @ r) = (?t, r)" .
    have "take 7 ?t = charset_mark" "drop 7 ?t = concat (map percent v)" by (simp_all add: charset_mark_def)
    with t have "read_value (k @ ''*'') (?t @ r) = Some ((k, v), r)"
      by (simp add: read_value_def unescape_percents)
    moreover have "media_param (k, v) @ r = ''; '' @ (k @ ''*'') @ CHR ''='' # ?t @ r"
      using 1 by (simp add: media_param_def charset_mark_def)
    moreover have "split_at ''='' ((k @ ''*'') @ CHR ''='' # ?t @ r) = Some (k @ ''*'', ?t @ r)"
      by (rule attr_split) (use k in simp)
    ultimately show ?thesis by (subst read_params.simps) simp
  next
    case 2
    have "read_value k (v @ r) = Some ((k, v), r)"
      using token_plain [OF 2(2)] read_token_append [OF _ assms(2), of v] k
      by (cases v) (simp_all add: read_value_def)
    moreover have "media_param (k, v) @ r = ''; '' @ k @ CHR ''='' # v @ r" using 2 by (simp add: media_param_def)
    ultimately show ?thesis using k by (subst read_params.simps) (simp add: attr_split)
  next
    case 3
    then show ?thesis using read_params_quoted [OF assms(1), of v r] by (simp add: media_param_def)
  qed
qed

lemma media_param_first: "ends_param (media_param p @ r)"
  by (simp add: media_param_def ends_param_def)

lemma read_params_all:
  "list_all (\<lambda>p. plain_name (fst p)) ps \<Longrightarrow> read_params (concat (map media_param ps)) = Some ps"
proof (induction ps)
  case Nil
  show ?case by (simp add: read_params.simps)
next
  case (Cons p ps)
  have "ends_param (concat (map media_param ps))"
    using media_param_first by (cases ps) (simp add: ends_param_def, simp only: list.map concat.simps)
  with Cons read_params_param [of "fst p" "concat (map media_param ps)" "snd p"] show ?case by simp
qed

text \<open>The parameters come back in the order of their names.\<close>

lemma disposition_roundtrip:
  assumes "list_all (\<lambda>p. plain_name (fst p)) ps"
  shows "read_disposition (FormatMediaType_form ps) = Some (sort_key fst ps)"
proof -
  have "list_all (\<lambda>p. plain_name (fst p)) (sort_key fst ps)" using assms by (simp add: list_all_iff)
  from read_params_all [OF this] show ?thesis
    by (simp add: read_disposition_def FormatMediaType_form_def)
qed

end
