(* ===== verification/Read_Back.thy ===== *)
theory Read_Back
  imports Media_Reader Json_Roundtrip Messages Attachments Importer
begin

text \<open>
  The two streamed requests, the upload of an attachment and the import, as a server reads them.
\<close>

section \<open>JSON on one line\<close>

lemma one_line_char: "one_line [c] \<longleftrightarrow> char_nat c \<noteq> 13 \<and> char_nat c \<noteq> 10"
proof -
  have "char_nat c = n \<longleftrightarrow> c = char_of n" if "n < 256" for n
    using char_nat_eq that by (auto simp: char_nat_def)
  then show ?thesis by (simp add: char_of_def bit_0)
qed

lemma char_nat_lower_hex: "n < 16 \<Longrightarrow> 48 \<le> char_nat (lower_hex n)"
  by (simp add: lower_hex_def char_nat_def)

lemma one_line_lower_hex: "n < 16 \<Longrightarrow> one_line [lower_hex n]"
  using char_nat_lower_hex [of n] by (simp only: one_line_char) simp

lemma one_line_print_char: "one_line (print_char c)"
proof -
  have hex: "one_line [lower_hex (char_nat c div 16)]" "one_line [lower_hex (char_nat c mod 16)]"
    by (rule one_line_lower_hex; use char_nat_less [of c] in simp)+
  have "one_line [c]" if "\<not> char_nat c < 32" using that by (simp only: one_line_char) simp
  moreover have "one_line [c]" if "c = quote_char \<or> c = backslash" using that by (auto simp: json_chars)
  ultimately show ?thesis using hex by (simp add: print_char_def Let_def json_chars)
qed

lemma one_line_list_all: "one_line s \<longleftrightarrow> list_all (\<lambda>c. char_nat c \<noteq> 13 \<and> char_nat c \<noteq> 10) s"
  by (simp only: one_line_char [symmetric]) (auto simp: one_line_def list_all_iff)

lemma one_line_print_rune:
  assumes "rune_size s = k" and "1 < k"
  shows "one_line (print_rune (take k s))"
proof (cases "is_separator (take k s)")
  case True
  have "one_line [lower_hex (char_nat (last (take k s)) mod 16)]" by (rule one_line_lower_hex) simp
  with True show ?thesis by (simp add: print_rune_def) (simp add: json_chars)
next
  case False
  obtain a r where "s = a # r" using assms by (cases s) auto
  with assms rune_size_high [of a r k] have "128 \<le> char_nat c" if "c \<in> set (take k s)" for c using that by blast
  then have "one_line (take k s)" by (fastforce simp: one_line_list_all list_all_iff)
  with False show ?thesis by (simp add: print_rune_def)
qed

lemma one_line_print_chars: "one_line (print_chars s)"
proof (induction s rule: print_chars.induct)
  case (2 a s)
  consider "rune_size (a # s) = 0" | "rune_size (a # s) = 1" | "1 < rune_size (a # s)" by linarith
  then show ?case
  proof cases
    case 1
    with 2(1) [OF refl] show ?thesis by (simp add: print_chars.simps(2) [of a s]) (simp add: json_chars)
  next
    case 2
    with "2.IH"(2) [OF refl] show ?thesis by (simp add: print_chars.simps(2) [of a s] one_line_print_char)
  next
    case 3
    with 2(3) [OF refl] one_line_print_rune [OF refl 3] show ?thesis
      by (simp add: print_chars.simps(2) [of a s] Let_def del: take_Suc_Cons)
  qed
qed simp

lemma one_line_print_string [simp]: "one_line (print_string s)"
  by (simp add: print_string_def one_line_print_chars json_chars)

lemma one_line_digits: "list_all is_digit s \<Longrightarrow> one_line s"
proof (induction s)
  case (Cons c s)
  then have "one_line [c]" by (simp only: one_line_char is_digit_def list.pred_inject) auto
  with Cons show ?case by simp
qed simp

lemma one_line_Itoa: "one_line (Itoa i)"
  using one_line_digits [OF digits_show_nat] by (simp add: Itoa_def)

lemma one_line_print:
  "json_ints v \<Longrightarrow> one_line (json_print v)"
  "list_all json_ints vs \<Longrightarrow> one_line (print_elems vs)"
  "list_all (\<lambda>(k, v). json_ints v) ms \<Longrightarrow> one_line (print_members ms)"
proof (induction v and vs and ms rule: json_print_print_elems_print_members.induct)
  case (3 lit)
  then show ?case by (auto simp: one_line_Itoa split: option.splits)
qed simp_all

lemma no_delim: "CHR 0x0D \<notin> set s \<Longrightarrow> \<not> occurs (delim b) s"
  unfolding delim_def crlf_def using occurs_head [of "CHR 0x0D" "[CHR 0x0A] @ ''--'' @ b" s] by auto

lemma json_readable: "json_ints v \<Longrightarrow> \<not> occurs (delim b) (json_encode v)"
  using one_line_print(1) [of v] by (intro no_delim) (simp add: json_encode_def one_line_def)

section \<open>An import, read back\<close>

lemma message_header_fields: "list_all header_field (message_header key)" "list_all header_field metadata_header"
proof -
  have "one_line (FormatMediaType_form [(''name'', key), (''filename'', key @ ''.eml'')])"
    "one_line (FormatMediaType_form [(''name'', ''Metadata'')])"
    by (rule FormatMediaType_one_line; auto)+
  then show "list_all header_field (message_header key)" "list_all header_field metadata_header"
    by (simp_all add: message_header_def metadata_header_def header_field_def one_line_def)
qed

lemma json_ints_metadata: "json_ints (metadata_json metadata)"
proof -
  have "json_ints (jptr Message_json m)" for m by (rule json_ints_jptr [OF json_ints_Message])
  then show ?thesis by (auto simp: metadata_json_def jmap_def list_all_iff)
qed

text \<open>The metadata as the server decodes it: under its key, every message is as it was given.\<close>

definition metadata_decodes :: "(string \<times> json) list \<Rightarrow> (string \<times> Message option) list \<Rightarrow> bool" where
  "metadata_decodes ms metadata \<longleftrightarrow>
     (\<forall>(key, m) \<in> set metadata. case m of
        None \<Rightarrow> map_of ms key = Some JNull
      | Some m \<Rightarrow> int64_Message m \<longrightarrow> (\<exists>j. map_of ms key = Some j \<and> dec_struct Message_fields j zero_Message = Inr m))"

lemma metadata_decodes:
  assumes "distinct (map fst metadata)" and "metadata_json metadata = JObj ms"
  shows "metadata_decodes ms metadata"
proof -
  have ms: "ms = map (\<lambda>(k, v). (k, jptr Message_json v)) (sort_key fst metadata)"
    using assms(2) by (simp add: metadata_json_def jmap_def)
  have "map_of ms key = Some (jptr Message_json m)" if "(key, m) \<in> set metadata" for key m
  proof (rule map_of_is_SomeI)
    show "distinct (map fst ms)" using assms(1) by (simp add: ms comp_def case_prod_beta distinct_map)
       
    show "(key, jptr Message_json m) \<in> set ms" using that by (force simp: ms)
  qed
  then show ?thesis
    using Message_json_roundtrip by (auto simp: metadata_decodes_def jptr_def split: option.split)
qed

text \<open>What a server makes of a body: for every part its name and its content.\<close>

definition part_name :: "mime_header \<Rightarrow> string option" where
  "part_name hdr =
     Option.bind (map_of hdr ''Content-Disposition'') (\<lambda>v. Option.bind (read_disposition v) (\<lambda>ps. map_of ps ''name''))"

definition read_fields :: "string \<Rightarrow> string \<Rightarrow> (string option \<times> string) list option" where
  "read_fields b s = map_option (map (\<lambda>(hdr, content). (part_name hdr, content))) (read_form b s)"

lemma disposition_name:
  assumes "list_all (\<lambda>p. plain_name (fst p)) ps" and "distinct (map fst ps)"
  shows "Option.bind (read_disposition (FormatMediaType_form ps)) (\<lambda>ps. map_of ps k) = map_of ps k"
  using disposition_roundtrip [OF assms(1)] map_of_sort_key [OF assms(2)] by simp

lemma part_names: "part_name (message_header key) = Some key" "part_name metadata_header = Some ''Metadata''"
  using disposition_name [of "[(''name'', key), (''filename'', key @ ''.eml'')]" "''name''"]
    disposition_name [of "[(''name'', ''Metadata'')]" "''name''"]
  by (simp_all add: part_name_def message_header_def metadata_header_def plain_name_def)

lemma import_form_readable:
  assumes "list_all (\<lambda>(key, c). \<not> occurs (delim b) c) ps"
  shows "list_all (readable b) (import_form metadata ps)"
  using assms message_header_fields json_readable [OF json_ints_metadata]
  by (auto simp: import_form_def readable_def list_all_iff)

text \<open>
  C9.  A committed import reaches the server as it was given: the body ends without an error, and a
  reader of multipart bodies finds
  the metadata and, in the order in which they were begun, every message under its key with
  exactly the bytes that were written into it, and the metadata parses as an object that has under each
  key the very message of the caller, every field of it.  It takes that the boundary, which the
  code draws at random, is on one line and occurs in no message, and that the strings of the
  metadata are valid UTF-8, since the encoder replaces what is not.
\<close>

theorem import_read_back:
  assumes "Import root b metadata stop1 stop2 = Some (Inr imp0)" and "import_run net (s0, imp0) es (s, imp)"
    and "CommitEv None \<in> set es" and "distinct (map fst metadata)" and "CHR 0x0D \<notin> set b"
    and "list_all (\<lambda>(key, c). \<not> occurs (delim b) c) (parts_of es)" and "json_utf8 (metadata_json metadata)"
  shows "\<exists>text ms. import_end (mwPipe (impWriter imp)) = Complete \<and> read_fields b (mwBody (impWriter imp)) =
       Some ((Some ''Metadata'', text) # map (\<lambda>(key, c). (Some key, c)) (parts_of es)) \<and>
     json_decode text = Inr (JObj ms) \<and> metadata_decodes ms metadata \<and>
     distinct (map fst (parts_of es)) \<and> set (map fst (parts_of es)) = set (map fst metadata)"
proof -
  have core: "mwBody (impWriter imp) = render b (import_form metadata (parts_of es))" "import_end (mwPipe (impWriter imp)) = Complete"
    "distinct (map fst (parts_of es))" "set (map fst (parts_of es)) = set (map fst metadata)"
    using import_run_inv [OF assms(2,1)] assms(3) by (simp_all add: import_inv_def import_core_def import_end_def)
  have "read_form b (mwBody (impWriter imp)) = Some (import_form metadata (parts_of es))"
    unfolding core(1) by (rule form_roundtrip [OF assms(5) import_form_readable [OF assms(6)]])
  then have "read_fields b (mwBody (impWriter imp)) =
      Some ((Some ''Metadata'', json_encode (metadata_json metadata)) # map (\<lambda>(key, c). (Some key, c)) (parts_of es))"
    by (simp add: read_fields_def import_form_def part_names comp_def case_prod_beta)
  moreover obtain ms where ms: "metadata_json metadata = JObj ms" by (simp add: metadata_json_def jmap_def)
  ultimately show ?thesis
    using core metadata_decodes [OF assms(4) ms] json_roundtrip(1) [OF json_ints_metadata assms(7)] by auto
qed

section \<open>An upload, read back\<close>

lemma form_names:
  assumes "CHR 0x22 \<notin> set name" "CHR 0x5C \<notin> set name" "CHR 0x22 \<notin> set filename" "CHR 0x5C \<notin> set filename"
  shows "read_disposition (form_name name) = Some [(''name'', name)]"
    and "read_disposition (form_name name @ ''; filename='' @ [CHR 0x22] @ filename @ [CHR 0x22]) = Some [(''name'', name), (''filename'', filename)]"
proof -
  have quoted: "[CHR 0x22] @ s @ CHR 0x22 # r = quoted s @ r" if "CHR 0x22 \<notin> set s" "CHR 0x5C \<notin> set s" for s r
    using that unfolding quoted_def by (induction s) auto
  have name: "drop 9 (form_name name @ r) = ''; '' @ ''name'' @ ''='' @ quoted name @ r" for r
    using quoted [OF assms(1,2), of r] by (simp add: form_name_def)
  have disp: "''; filename='' @ [CHR 0x22] @ filename @ [CHR 0x22] = ''; '' @ ''filename'' @ ''='' @ quoted filename @ []"
    using quoted [OF assms(3,4), of "[]"] by simp
  have plain: "plain_name ''name''" "plain_name ''filename''" by (simp_all add: plain_name_def)
  have nil: "read_params [] = Some []" by (simp add: read_params.simps)
  have first: "take 9 (form_name name @ r) = ''form-data''" for r by (simp add: form_name_def)
  show "read_disposition (form_name name) = Some [(''name'', name)]"
    using first [of "[]"] name [of "[]"] read_params_quoted [OF plain(1), of name "[]"] nil
    by (simp add: read_disposition_def)
  show "read_disposition (form_name name @ ''; filename='' @ [CHR 0x22] @ filename @ [CHR 0x22]) = Some [(''name'', name), (''filename'', filename)]"
    unfolding read_disposition_def first name disp read_params_quoted [OF plain(1)] read_params_quoted [OF plain(2)] nil
    by simp
qed

lemma part_name_field: "CHR 0x22 \<notin> set name \<Longrightarrow> CHR 0x5C \<notin> set name \<Longrightarrow> part_name (field_header name) = Some name"
  using form_names(1) [of name "[]"] by (simp add: part_name_def field_header_def)

lemma part_name_file:
  "CHR 0x22 \<notin> set name \<Longrightarrow> CHR 0x5C \<notin> set name \<Longrightarrow> CHR 0x22 \<notin> set filename \<Longrightarrow> CHR 0x5C \<notin> set filename \<Longrightarrow>
     part_name (file_header name filename) = Some name"
  using form_names(2) [of name filename] by (simp add: part_name_def file_header_def)

lemma attachment_header_fields:
  "list_all header_field (field_header name) \<longleftrightarrow> CHR 0x0D \<notin> set name"
  "list_all header_field (file_header name filename) \<longleftrightarrow> CHR 0x0D \<notin> set name \<and> CHR 0x0D \<notin> set filename"
  by (auto simp: field_header_def file_header_def header_field_def form_name_def)

text \<open>The fields of an attachment, without those of its content.\<close>

definition attachment_fields :: "Attachment \<Rightarrow> (string \<times> string) list" where
  "attachment_fields att =
     [(''Filename'', attName att), (''MessageID'', attMessageID att), (''MIMEType'', attMIMEType att)] @
     (if attContentID att \<noteq> '''' then [(''ContentID'', attContentID att)] else [])"

text \<open>
  C10.  An upload reaches the server as it was given, or not at all: it is one request, never
  repeated as its body is a pipe, and a reader of multipart bodies finds in it the fields of the
  attachment, the decoded key packets and the data; but when the key packets are not base64
  or reading the data fails, the body is no form at all, so that no server can take a part of an
  attachment for the whole.
\<close>

theorem upload_read_back:
  assumes "url_parse (baseURL (cl s) @ ''/attachments'') \<noteq> None" and "CHR 0x0D \<notin> set b"
    and "list_all (\<lambda>(name, c). \<not> occurs (delim b) c) (attachment_fields att)"
    and "\<not> occurs (delim b) (snd (key_part att))" and "\<not> occurs (delim b) (fst (read_all r))"
  shows "\<exists>x s' q body. CreateAttachment net b (Some att) r s = Some (x, s') \<and>
     cl s' = cl s \<and> requests (trace s') = requests (trace s) @ [q] \<and> Method q = ''POST'' \<and>
     URL q = baseURL (cl s) @ ''/attachments'' \<and> Header q ''Content-Type'' = Some [FormDataContentType b] \<and>
     ReqBody q = Some body \<and>
     read_fields b body =
       (case (b64_decode (attKeyPackets att), snd (read_all r)) of
          (Some bs, None) \<Rightarrow>
            Some (map (\<lambda>(k, c). (Some k, c))
              (attachment_fields att @ [(''KeyPackets'', string_of bs), (''DataPacket'', fst (read_all r))]))
        | _ \<Rightarrow> None)"
proof -
  let ?data = "(file_header ''DataPacket'' ''DataPacket.pgp'', fst (read_all r))"
  let ?whole = "attachment_form att @ [key_part att, ?data]"
  let ?cut = "attachment_form att @ [key_part att]"
  obtain e w where w: "write_attachment att r (multipart_NewWriter b) = (e, w)" by (cases "write_attachment att r (multipart_NewWriter b)")
  obtain y s' q where call: "post_form (net (body_end_of e)) b ''/attachments'' (mwBody w) attachment_resp_fields zero_attachment_resp s = Some (y, s')"
    "cl s' = cl s" "requests (trace s') = requests (trace s) @ [q]" "Method q = ''POST''" "URL q = baseURL (cl s) @ ''/attachments''"
    "Header q ''Content-Type'' = Some [FormDataContentType b]" "ReqBody q = Some (mwBody w)" "\<forall>msg. y \<noteq> Panic msg"
    using post_form_once [OF assms(1), of "net (body_end_of e)" b "mwBody w" attachment_resp_fields zero_attachment_resp] by blast
  then obtain x where run: "CreateAttachment net b (Some att) r s = Some (x, s')"
    using w by (cases y) (auto simp: CreateAttachment_def bindP_def returnP_def)
  have fields: "list_all (readable b) ?whole" "list_all (readable b) ?cut"
    using assms(3-5)
    by (auto simp: readable_def attachment_form_def attachment_fields_def key_part_def attachment_header_fields)
  have names: "map (\<lambda>(hdr, c). (part_name hdr, c)) (attachment_form att) = map (\<lambda>(k, c). (Some k, c)) (attachment_fields att)"
    by (simp add: attachment_form_def attachment_fields_def part_name_field)
  have whole: "read_fields b (render b ?whole) = Some (map (\<lambda>(k, c). (Some k, c))
      (attachment_fields att @ [(''KeyPackets'', snd (key_part att)), (''DataPacket'', fst (read_all r))]))"
    using form_roundtrip [OF assms(2) fields(1)] names
    by (simp add: read_fields_def part_name_file key_part_def)
  have "read_fields b (render_open b ?whole) = None" "read_fields b (render_open b ?cut) = None"
    using form_broken_off [OF assms(2) fields(1)] form_broken_off [OF assms(2) fields(2)] by (simp_all add: read_fields_def)
  with whole write_attachment_spec [of att r b] w have "read_fields b (mwBody w) =
       (case (b64_decode (attKeyPackets att), snd (read_all r)) of
          (Some bs, None) \<Rightarrow>
            Some (map (\<lambda>(k, c). (Some k, c))
              (attachment_fields att @ [(''KeyPackets'', string_of bs), (''DataPacket'', fst (read_all r))]))
        | _ \<Rightarrow> None)"
    by (auto simp: base64_NewDecoder_def key_part_def Let_def split: option.splits)
  with run call show ?thesis by blast
qed

section \<open>Witnesses\<close>

lemma import_read_back_witness:
  "\<exists>imp text ms. import_run toy_net (toy_state, toy_imp) [MessageEv ''m1'' (Inr 1), MessageEv ''m2'' (Inr 2), CommitEv None] (toy_state, imp) \<and>
     read_fields ''b'' (mwBody (impWriter imp)) = Some [(Some ''Metadata'', text), (Some ''m1'', []), (Some ''m2'', [])] \<and>
     json_decode text = Inr (JObj ms) \<and> map_of ms ''m1'' = Some JNull"
proof -
  let ?es = "[MessageEv ''m1'' (Inr 1), MessageEv ''m2'' (Inr 2), CommitEv None]"
  obtain imp where run: "import_run toy_net (toy_state, toy_imp) ?es (toy_state, imp)" using toy_runs(2) by blast
  have parts: "parts_of ?es = [(''m1'', []), (''m2'', [])]" by (simp add: parts_of_def)
  then have "CommitEv None \<in> set ?es" "distinct (map fst toy_metadata)" "CHR 0x0D \<notin> set ''b''"
    "list_all (\<lambda>(key, c). \<not> occurs (delim ''b'') c) (parts_of ?es)" "json_utf8 (metadata_json toy_metadata)"
    by (auto simp: toy_metadata_def occurs_def metadata_json_def jmap_def jptr_def sort_key_def)
  from import_read_back [OF toy_Import(1) run this] obtain md ms
    where "read_fields ''b'' (mwBody (impWriter imp)) = Some ((Some ''Metadata'', md) # map (\<lambda>(key, c). (Some key, c)) (parts_of ?es))"
      "json_decode md = Inr (JObj ms)" "metadata_decodes ms toy_metadata" by blast
  with run parts show ?thesis by (auto simp: metadata_decodes_def toy_metadata_def)
qed

definition toy_upload :: Attachment where
  "toy_upload = toy_attachment\<lparr>attKeyPackets := b64_encode [1, 2]\<rparr>"

lemma toy_upload_parses: "url_parse (baseURL (cl toy_state) @ ''/attachments'') \<noteq> None"
  by (simp add: url_eval char_of_def bit_0)

lemma upload_read_back_witness:
  "\<exists>x s' q body. CreateAttachment toy_net ''b'' (Some toy_upload) (strings_NewReader ''hello'') toy_state = Some (x, s') \<and>
     requests (trace s') = [q] \<and> ReqBody q = Some body \<and>
     read_fields ''b'' body = Some [(Some ''Filename'', ''a.txt''), (Some ''MessageID'', ''m''), (Some ''MIMEType'', []),
       (Some ''KeyPackets'', string_of [1, 2]), (Some ''DataPacket'', ''hello'')]"
proof -
  have att: "attachment_fields toy_upload = [(''Filename'', ''a.txt''), (''MessageID'', ''m''), (''MIMEType'', [])]"
    by (simp add: toy_upload_def attachment_fields_def toy_attachment_def zero_Attachment_def)
  have "attKeyPackets (toy_attachment\<lparr>attKeyPackets := x\<rparr>) = x" for x by simp
  then have packets: "b64_decode (attKeyPackets toy_upload) = Some [1, 2]"
    by (simp only: toy_upload_def b64_decode_encode)
  have "CHR 0x0D \<notin> set ''b''" "\<not> occurs (delim ''b'') (snd (key_part toy_upload))"
    "\<not> occurs (delim ''b'') (fst (read_all (strings_NewReader ''hello'')))"
    "list_all (\<lambda>(name, c). \<not> occurs (delim ''b'') c) (attachment_fields toy_upload)"
    using att packets by (auto simp: key_part_def base64_NewDecoder_def string_of_def char_of_def bit_0 intro!: no_delim)
  from upload_read_back [OF toy_upload_parses this(1,4,2,3), where net = toy_net] att packets show ?thesis by auto
qed

end
