(* ===== verification/Sending.thy ===== *)
theory Sending
  imports Call_Scenarios
begin

text \<open>
  Packages.thy and Messages.thy together: what a server reads of the packages when the message is
  sent.
\<close>

section \<open>Packages as JSON\<close>

lemma jmap_obj: "jmap f m = JObj ms \<longleftrightarrow> ms = map (\<lambda>(k, v). (k, f v)) (sort_key fst m)"
  by (auto simp: jmap_def)

lemma map_of_jmap:
  assumes "distinct (map fst m)" and "jmap f m = JObj ms"
  shows "map_of ms k = map_option f (map_of m k)"
  using assms by (simp add: jmap_obj map_of_map map_of_sort_key)

lemma json_ints_jmap: "(\<And>x. json_ints (f x)) \<Longrightarrow> json_ints (jmap f m)"
  by (auto simp: jmap_def list_all_iff)

lemma json_ints_packages: "json_ints (MessagePackageSet_json ps)"
proof -
  have "json_ints (PackedKey_json k)" for k by (simp add: PackedKey_json_def)
  moreover have "json_ints (jmap JStr m)" for m by (rule json_ints_jmap) simp
  then have "json_ints (MessagePackage_json p)" for p by (simp add: MessagePackage_json_def)
  ultimately have "json_ints (jmap MessagePackage_json a)" "json_ints (jmap PackedKey_json b)" for a b
    by (auto intro: json_ints_jmap)
  with \<open>\<And>k. json_ints (PackedKey_json k)\<close> show ?thesis
    by (simp add: MessagePackageSet_json_def MessagePackageSet_members_def split: option.split)
qed

lemma json_ints_outgoing: "json_ints (OutgoingMessage_json m)"
proof -
  have "json_ints (jslice (jptr MessagePackageSet_json) xs)" for xs
    by (intro json_ints_jslice json_ints_jptr json_ints_packages)
  then show ?thesis by (simp add: OutgoingMessage_json_def)
qed

text \<open>What the package writes itself is ASCII, so only the names of others matter.\<close>

lemma b64_char_ascii: "n < 64 \<Longrightarrow> char_nat (b64_char n) < 128"
  using of_char_b64_char [of n] by (auto simp: char_nat_def)

lemma b64_sextets_ascii:
  fixes n :: nat
  assumes "n < 16777216"
  shows "char_nat (b64_char (n div 262144)) < 128" "char_nat (b64_char (n div 4096 mod 64)) < 128"
    "char_nat (b64_char (n div 64 mod 64)) < 128" "char_nat (b64_char (n mod 64)) < 128"
  using assms by (simp_all add: b64_char_ascii div_less_iff_less_mult)

lemma valid_b64 [simp]: "valid_utf8 (b64_encode b)"
proof (induction b rule: b64_encode.induct)
  case (2 x)
  define n where "n = unat x * 65536"
  have "n < 16777216" using b64_bytes_bound [of x 0 0] by (simp add: n_def)
  then show ?case using b64_sextets_ascii [of n] by (simp add: Let_def n_def [symmetric])
next
  case (3 x y)
  define n where "n = unat x * 65536 + unat y * 256"
  have "n < 16777216" using b64_bytes_bound [of x y 0] by (simp add: n_def)
  then show ?case using b64_sextets_ascii [of n] by (simp add: Let_def n_def [symmetric])
next
  case (4 x y z r)
  define n where "n = unat x * 65536 + unat y * 256 + unat z"
  have "n < 16777216" using b64_bytes_bound [of x y z] by (simp add: n_def)
  then show ?case using b64_sextets_ascii [of n] 4 [OF n_def] by (simp add: Let_def n_def [symmetric])
qed simp

lemma json_utf8_jmap: "json_utf8 (jmap f m) \<longleftrightarrow> (\<forall>(k, v) \<in> set m. valid_utf8 k \<and> json_utf8 (f v))"
  by (auto simp: jmap_def list_all_iff)

lemma json_utf8_pack_key: "pack_key k = Ok pk \<Longrightarrow> json_utf8 (PackedKey_json pk)"
  by (auto simp: pack_key_def PackedKey_json_def cipherFunctionString_def split: if_splits)

lemma json_utf8_package:
  assumes "package_for lib ps recipient p" and "\<And>att. att \<in> fst ` set (attachmentKeys ps) \<Longrightarrow> valid_utf8 att"
  shows "json_utf8 (MessagePackage_json p)"
proof (cases recipient)
  case None
  with assms(1) show ?thesis
    by (simp add: package_for_def cleartext_package_def MessagePackage_json_def omit_empty_def)
next
  case (Some q)
  with assms(1) have p: "internal_package lib q ps p" by (simp add: package_for_def)
  have "valid_utf8 att \<and> valid_utf8 packet" if "(att, packet) \<in> set (mpAttachmentKeyPackets p)" for att packet
  proof -
    from p have as: "distinct (map fst (mpAttachmentKeyPackets p))" "case map_of (attachmentKeys ps) att of
              None \<Rightarrow> map_of (mpAttachmentKeyPackets p) att = None
            | Some k \<Rightarrow> \<exists>packet. serialized lib q k packet \<and> map_of (mpAttachmentKeyPackets p) att = Some packet"
      by (simp_all add: internal_package_def serialized_as_def)
    have "map_of (mpAttachmentKeyPackets p) att = Some packet" using as(1) that by (rule map_of_is_SomeI)
    with as(2) obtain k where "map_of (attachmentKeys ps) att = Some k" "serialized lib q k packet"
      by (auto split: option.splits simp del: map_of_eq_Some_iff)
    then show ?thesis using assms(2) by (force simp: serialized_def dest: map_of_SomeD)
  qed
  then have "json_utf8 (jmap JStr (mpAttachmentKeyPackets p))" by (auto simp: json_utf8_jmap)
  moreover obtain packet where "mpBodyKeyPacket p = b64_encode packet"
    using p by (auto simp: internal_package_def serialized_def)
  ultimately show ?thesis by (simp add: MessagePackage_json_def)
qed

lemma json_utf8_packages:
  assumes inv: "pkg_inv lib sk keys sig adds ps" and "valid_utf8 (mpsMIMEType ps)"
    and addrs: "\<And>addr. addr \<in> fst ` set adds \<Longrightarrow> valid_utf8 addr" and names: "\<And>att. att \<in> fst ` set keys \<Longrightarrow> valid_utf8 att"
  shows "json_utf8 (MessagePackageSet_json ps)"
proof -
  have "valid_utf8 addr \<and> json_utf8 (MessagePackage_json p)" if "(addr, p) \<in> set (mpsAddresses ps)" for addr p
  proof -
    have at: "case map_of adds addr of
        None \<Rightarrow> map_of (mpsAddresses ps) addr = None
      | Some recipient \<Rightarrow> \<exists>p. map_of (mpsAddresses ps) addr = Some p \<and> package_for lib ps recipient p"
      and keys: "attachmentKeys ps = keys" "distinct (map fst (mpsAddresses ps))"
      using inv unfolding pkg_inv_def by blast+
    have "map_of (mpsAddresses ps) addr = Some p" using keys(2) that by (rule map_of_is_SomeI)
    with at obtain recipient where "map_of adds addr = Some recipient" "package_for lib ps recipient p"
      by (auto split: option.splits simp del: map_of_eq_Some_iff)
    then show ?thesis using addrs json_utf8_package [OF _ names, of lib ps recipient p] keys(1) by (force dest: map_of_SomeD)
  qed
  then have "json_utf8 (jmap MessagePackage_json (mpsAddresses ps))" by (auto simp: json_utf8_jmap)
  moreover have "case mpsBodyKey ps of None \<Rightarrow> True | Some k \<Rightarrow> json_utf8 (PackedKey_json k)"
    using inv by (auto simp: pkg_inv_def clear_keys_def json_utf8_pack_key split: if_splits)
  moreover have "case mpsAttachmentKeys ps of None \<Rightarrow> True | Some m \<Rightarrow> json_utf8 (jmap PackedKey_json m)"
  proof (cases "mpsAttachmentKeys ps")
    case (Some m)
    with inv have m: "packed_as keys m" by (auto simp: pkg_inv_def clear_keys_def split: if_splits)
    have "valid_utf8 att \<and> json_utf8 (PackedKey_json pk)" if "(att, pk) \<in> set m" for att pk
    proof -
      have "map_of m att = Some pk" using m that by (simp add: packed_as_def map_of_is_SomeI del: map_of_eq_Some_iff)
      moreover have "case map_of keys att of None \<Rightarrow> map_of m att = None | Some k \<Rightarrow> \<exists>pk. pack_key k = Ok pk \<and> map_of m att = Some pk"
        using m by (simp add: packed_as_def)
      ultimately obtain k where "map_of keys att = Some k" "pack_key k = Ok pk"
        by (auto split: option.splits simp del: map_of_eq_Some_iff)
      then show ?thesis using names by (force intro: json_utf8_pack_key dest: map_of_SomeD)
    qed
    then show ?thesis using Some by (auto simp: json_utf8_jmap)
  qed simp
  moreover have "valid_utf8 (mpsBody ps)" using inv by (auto simp: pkg_inv_def)
  ultimately show ?thesis using assms(2)
    by (auto simp: MessagePackageSet_json_def MessagePackageSet_members_def split: option.splits)
qed

section \<open>What the server reads of a package\<close>

text \<open>For a recipient with a key: the session key and the keys of the attachments, encrypted to it.\<close>

definition reads_internal ::
  "('q, 'p, 's) pgp \<Rightarrow> 'q \<Rightarrow> EncryptedKey \<Rightarrow> (string \<times> EncryptedKey) list \<Rightarrow> (string \<times> json) list \<Rightarrow> bool" where
  "reads_internal lib k sk keys p \<longleftrightarrow>
     map_of p ''Type'' = Some (JInt 1) \<and>
     (\<exists>packet. serialized lib k sk packet \<and> map_of p ''BodyKeyPacket'' = (if packet = '''' then None else Some (JStr packet))) \<and>
     (\<forall>att \<in> set keys. \<exists>as packet. map_of p ''AttachmentKeyPackets'' = Some (JObj as) \<and>
        serialized lib k (snd att) packet \<and> map_of as (fst att) = Some (JStr packet))"

lemma internal_read:
  assumes "internal_package lib k ps p" and "bodyKey ps = Some sk" and "attachmentKeys ps = keys" and "distinct (map fst keys)"
  shows "\<exists>ms. MessagePackage_json p = JObj ms \<and> reads_internal lib k sk keys ms"
proof -
  let ?as = "mpAttachmentKeyPackets p"
  obtain ms where ms: "MessagePackage_json p = JObj ms" by (simp add: MessagePackage_json_def)
  obtain as where as: "jmap JStr ?as = JObj as" by (simp add: jmap_def)
  have body: "map_of ms ''Type'' = Some (JInt 1)"
    "map_of ms ''BodyKeyPacket'' = (if mpBodyKeyPacket p = '''' then None else Some (JStr (mpBodyKeyPacket p)))"
    "serialized lib k sk (mpBodyKeyPacket p)"
    "?as \<noteq> [] \<Longrightarrow> map_of ms ''AttachmentKeyPackets'' = Some (JObj as)"
    using assms(1,2) ms as by (auto simp: MessagePackage_json_def omit_empty_def internal_package_def MessagePackageInternal_def)
  have "\<exists>as packet. map_of ms ''AttachmentKeyPackets'' = Some (JObj as) \<and>
      serialized lib k (snd att) packet \<and> map_of as (fst att) = Some (JStr packet)" if "att \<in> set keys" for att
  proof -
    have sa: "distinct (map fst ?as)" "\<forall>a. case map_of keys a of None \<Rightarrow> map_of ?as a = None
          | Some x \<Rightarrow> \<exists>t. serialized lib k x t \<and> map_of ?as a = Some t"
      using assms(1,3) by (simp_all add: internal_package_def serialized_as_def)
    have "map_of keys (fst att) = Some (snd att)" using map_of_is_SomeI [OF assms(4)] that by simp
    with sa(2) [THEN spec, of "fst att"] obtain t where t: "serialized lib k (snd att) t" "map_of ?as (fst att) = Some t"
      by (auto simp del: map_of_eq_Some_iff)
    then have "?as \<noteq> []" by auto
    from body(4) [OF this] t map_of_jmap [OF sa(1) as, of "fst att"] show ?thesis by auto
  qed
  with body ms show ?thesis unfolding reads_internal_def by blast
qed

text \<open>What is read of a whole set, given the recipients that were added.\<close>

definition reads_set ::
  "('q, 'p, 's) pgp \<Rightarrow> EncryptedKey \<Rightarrow> (string \<times> EncryptedKey) list \<Rightarrow> (string \<times> 'q option) list \<Rightarrow> (string \<times> json) list \<Rightarrow> bool" where
  "reads_set lib sk keys adds ms \<longleftrightarrow>
     (\<exists>addrs. map_of ms ''Addresses'' = Some (JObj addrs) \<and>
        (\<forall>addr. case map_of adds addr of
           None \<Rightarrow> map_of addrs addr = None
         | Some None \<Rightarrow> \<exists>sig. map_of addrs addr = Some (JObj [(''Type'', JInt 4), (''Signature'', JInt sig)])
         | Some (Some k) \<Rightarrow> \<exists>p. map_of addrs addr = Some (JObj p) \<and> reads_internal lib k sk keys p)) \<and>
     (if None \<in> snd ` set adds
      then map_of ms ''BodyKey'' = Some (JObj [(''Algorithm'', JStr ''aes256''), (''Key'', JStr (b64_encode (ekKey sk)))]) \<and>
        (\<forall>att \<in> set keys. \<exists>as pk. map_of ms ''AttachmentKeys'' = Some (JObj as) \<and> pack_key (snd att) = Ok pk \<and>
           map_of as (fst att) = Some (PackedKey_json pk))
      else map_of ms ''BodyKey'' = None \<and> map_of ms ''AttachmentKeys'' = None)"

lemma set_read:
  assumes inv: "pkg_inv lib sk keys sig adds ps" and "distinct (map fst keys)" and aes: "ekCipherFunc sk = CipherAES256"
  shows "reads_set lib sk keys adds (MessagePackageSet_members ps)"
proof -
  obtain addrs where addrs: "jmap MessagePackage_json (mpsAddresses ps) = JObj addrs" by (simp add: jmap_def)
  have "map_of (MessagePackageSet_members ps) ''Addresses'' = Some (JObj addrs)"
    by (simp add: MessagePackageSet_members_def addrs)
  moreover have "case map_of adds addr of
       None \<Rightarrow> map_of addrs addr = None
     | Some None \<Rightarrow> \<exists>sig. map_of addrs addr = Some (JObj [(''Type'', JInt 4), (''Signature'', JInt sig)])
     | Some (Some k) \<Rightarrow> \<exists>p. map_of addrs addr = Some (JObj p) \<and> reads_internal lib k sk keys p" for addr
  proof -
    have keys: "bodyKey ps = Some sk" "attachmentKeys ps = keys" "distinct (map fst (mpsAddresses ps))"
      using inv by (simp_all add: pkg_inv_def)
    have at: "map_of addrs addr = map_option MessagePackage_json (map_of (mpsAddresses ps) addr)"
      by (rule map_of_jmap [OF keys(3) addrs])
    have "case map_of adds addr of
        None \<Rightarrow> map_of (mpsAddresses ps) addr = None
      | Some recipient \<Rightarrow> \<exists>p. map_of (mpsAddresses ps) addr = Some p \<and> package_for lib ps recipient p"
      using inv unfolding pkg_inv_def by blast
    note this_addr = this
    show ?thesis
    proof (cases "map_of adds addr")
      case None
      with at this_addr show ?thesis by simp
    next
      case (Some recipient)
      with this_addr obtain p where p: "map_of addrs addr = Some (MessagePackage_json p)" "package_for lib ps recipient p"
        using at by auto
      show ?thesis
      proof (cases recipient)
        case None
        with p have "map_of addrs addr = Some (JObj [(''Type'', JInt 4), (''Signature'', JInt (set_signature ps))])"
          by (simp add: package_for_def cleartext_package_def MessagePackage_json_def omit_empty_def MessagePackageCleartext_def)
        with Some None show ?thesis by auto
      next
        case (Some k)
        with p(2) have "internal_package lib k ps p" by (simp add: package_for_def)
        from internal_read [OF this keys(1,2) assms(2)] p(1) Some \<open>map_of adds addr = Some recipient\<close> show ?thesis by auto
      qed
    qed
  qed
  moreover have "if None \<in> snd ` set adds
      then map_of (MessagePackageSet_members ps) ''BodyKey'' = Some (JObj [(''Algorithm'', JStr ''aes256''), (''Key'', JStr (b64_encode (ekKey sk)))]) \<and>
        (\<forall>att \<in> set keys. \<exists>as pk. map_of (MessagePackageSet_members ps) ''AttachmentKeys'' = Some (JObj as) \<and> pack_key (snd att) = Ok pk \<and>
           map_of as (fst att) = Some (PackedKey_json pk))
      else map_of (MessagePackageSet_members ps) ''BodyKey'' = None \<and> map_of (MessagePackageSet_members ps) ''AttachmentKeys'' = None"
  proof (cases "None \<in> snd ` set adds")
    case False
    with inv show ?thesis by (simp add: pkg_inv_def clear_keys_def MessagePackageSet_members_def)
  next
    case True
    then obtain bk ak where ks: "mpsBodyKey ps = Some bk" "pack_key sk = Ok bk" "mpsAttachmentKeys ps = Some ak" "packed_as keys ak"
      using inv by (auto simp: pkg_inv_def clear_keys_def)
    have bk: "bk = \<lparr>Algorithm = ''aes256'', PackedKey_Key = b64_encode (ekKey sk)\<rparr>"
      using ks(2) aes by (simp add: pack_key_def cipherFunctionString_def CipherAES128_def CipherAES192_def CipherAES256_def)
    obtain as where as: "jmap PackedKey_json ak = JObj as" by (simp add: jmap_def)
    have "\<exists>as pk. map_of (MessagePackageSet_members ps) ''AttachmentKeys'' = Some (JObj as) \<and> pack_key (snd att) = Ok pk \<and>
        map_of as (fst att) = Some (PackedKey_json pk)" if "att \<in> set keys" for att
    proof -
      have pa: "distinct (map fst ak)" "\<forall>a. case map_of keys a of None \<Rightarrow> map_of ak a = None
          | Some k \<Rightarrow> \<exists>pk. pack_key k = Ok pk \<and> map_of ak a = Some pk"
        using ks(4) by (simp_all add: packed_as_def)
      have "map_of keys (fst att) = Some (snd att)" using map_of_is_SomeI [OF assms(2)] that by simp
      with pa(2) [THEN spec, of "fst att"] obtain pk where pk: "pack_key (snd att) = Ok pk" "map_of ak (fst att) = Some pk"
        by (auto simp del: map_of_eq_Some_iff)
      then have "ak \<noteq> []" by auto
      then have "map_of (MessagePackageSet_members ps) ''AttachmentKeys'' = Some (JObj as)"
        by (simp add: MessagePackageSet_members_def ks as)
      with pk map_of_jmap [OF pa(1) as, of "fst att"] show ?thesis by auto
    qed
    moreover have "map_of (MessagePackageSet_members ps) ''BodyKey'' =
        Some (JObj [(''Algorithm'', JStr ''aes256''), (''Key'', JStr (b64_encode (ekKey sk)))])"
      by (simp add: MessagePackageSet_members_def ks bk PackedKey_json_def)
    ultimately show ?thesis using True by simp
  qed
  ultimately show ?thesis unfolding reads_set_def by blast
qed

section \<open>Sending\<close>

text \<open>
  C7.  What was prepared is what the server gets.  Let a set of packages be made by one
  \<open>Encrypt\<close> on a new set and any additions, failures among them, and be one of those of a message
  that is sent, by a client that is not signed in or has no callback.  Then the one
  request posts a body that parses, in which this set has its body, for exactly the recipients
  that were added a package, with the session key and the key of each attachment encrypted to
  that recipient's key, and the keys in the clear exactly when a cleartext recipient was added.
  The strings of the message are valid UTF-8, since the encoder replaces what is not.
\<close>

theorem sent_packages_on_wire:
  assumes "set_Encrypt lib mime signedBy now \<lparr>pkgs = NewMessagePackageSet keys, rand = rd\<rparr> = Some (Ok w, s0)"
    and "pkg_run lib (swKey w) s0 adds s" and "distinct (map fst keys)"
    and "quiet (cl st)" and "url_parse (baseURL (cl st) @ ''/messages/'' @ omID m) \<noteq> None"
    and "omPackages m = Some packages" and "i < length packages" and "packages ! i = Some (pkgs s)"
    and "SendMessage env (Some m) st = Some (r, st')" and "json_utf8 (OutgoingMessage_json m)"
  shows "\<exists>q body ms sets members. requests (trace st') = requests (trace st) @ [q] \<and> Method q = ''POST'' \<and>
     URL q = baseURL (cl st) @ ''/messages/'' @ omID m \<and> ReqBody q = Some body \<and> json_decode body = Inr (JObj ms) \<and>
     map_of ms ''Packages'' = Some (JArr sets) \<and> length sets = length packages \<and> sets ! i = JObj members \<and>
     map_of members ''Body'' = Some (JStr (mpsBody (pkgs s))) \<and> reads_set lib (swKey w) keys adds members"
proof -
  have one: "sends (SendMessage env (Some m)) st ''POST'' (''/messages/'' @ omID m) (Some (json_encode (OutgoingMessage_json m)))"
    unfolding SendMessage_def option.case by (rule sends_bind_return [OF call_json_sends [OF assms(4)]])
  obtain q where q: "requests (trace st') = requests (trace st) @ [q]" "Method q = ''POST''"
    "URL q = baseURL (cl st) @ ''/messages/'' @ omID m" "ReqBody q = Some (json_encode (OutgoingMessage_json m))"
    by (rule sends_D [OF one assms(9,5)])
  let ?sets = "map (jptr MessagePackageSet_json) packages"
  have "json_decode (json_encode (OutgoingMessage_json m)) = Inr (OutgoingMessage_json m)"
    by (rule json_roundtrip(1) [OF json_ints_outgoing assms(10)])
  moreover obtain ms where ms: "OutgoingMessage_json m = JObj ms" "map_of ms ''Packages'' = Some (JArr ?sets)"
    by (simp add: OutgoingMessage_json_def jslice_def assms(6))
  moreover have "?sets ! i = JObj (MessagePackageSet_members (pkgs s))"
    using assms(7,8) by (simp add: jptr_def MessagePackageSet_json_def)
  moreover have "map_of (MessagePackageSet_members (pkgs s)) ''Body'' = Some (JStr (mpsBody (pkgs s)))"
    by (simp add: MessagePackageSet_members_def)
  moreover have "ekCipherFunc (swKey w) = CipherAES256" using set_Encrypt_Ok [OF assms(1)] by blast
  from set_read [OF pkg_run_inv [OF assms(2) pkg_inv_start [OF assms(1)] assms(3)] assms(3) this]
  have "reads_set lib (swKey w) keys adds (MessagePackageSet_members (pkgs s))" .
  moreover have "length ?sets = length packages" by simp
  ultimately show ?thesis using q by (metis (no_types, lifting))
qed

section \<open>Witness\<close>

lemma sending_parses: "\<exists>p. url_parse ''https://a/messages/m'' = Some p"
  by (simp add: url_eval char_of_def bit_0)

lemma sent_packages_on_wire_witness:
  "\<exists>s r st' q body ms members addrs p. pkg_run toy_pgp (swKey toy_writer) toy_ready [(''eve'', None), (''bob'', Some 4)] s \<and>
     SendMessage script (Some \<lparr>omID = ''m'', omExpirationTime = 0, omPackages = Some [Some (pkgs s)]\<rparr>) (state1 []) = Some (r, st') \<and>
     requests (trace st') = [q] \<and> ReqBody q = Some body \<and> json_decode body = Inr (JObj ms) \<and>
     map_of ms ''Packages'' = Some (JArr [JObj members]) \<and> map_of members ''BodyKey'' \<noteq> None \<and>
     map_of members ''Addresses'' = Some (JObj addrs) \<and> map_of addrs ''bob'' = Some (JObj p) \<and>
     reads_internal toy_pgp 4 (swKey toy_writer) toy_keys p"
proof -
  let ?adds = "[(''eve'', None), (''bob'', Some 4)]"
  obtain s where run: "pkg_run toy_pgp (swKey toy_writer) toy_ready ?adds s" and mime: "mpsMIMEType (pkgs s) = ''text/plain''"
    using toy_pkg_run by blast
  define m where "m = \<lparr>omID = ''m'', omExpirationTime = 0, omPackages = Some [Some (pkgs s)]\<rparr>"
  have m: "omPackages m = Some [Some (pkgs s)]" "0 < length [Some (pkgs s)]" "[Some (pkgs s)] ! 0 = Some (pkgs s)" by (simp_all add: m_def)
  have quiet: "quiet (cl (state1 []))" by simp
  have parses: "url_parse (baseURL (cl (state1 [])) @ ''/messages/'' @ omID m) \<noteq> None" using sending_parses by (simp add: m_def)
  obtain r st' where send: "SendMessage script (Some m) (state1 []) = Some (r, st')"
    using send_message.one_request [of "state1 []" script m] unfolding asks_for_def by auto
  have "json_utf8 (MessagePackageSet_json (pkgs s))"
    by (rule json_utf8_packages [OF pkg_run_inv [OF run pkg_inv_start [OF toy_encrypt [unfolded toy_start_def]] toy_keys_distinct]])
       (use mime in \<open>auto simp: toy_keys_def\<close>)
  then have valid: "json_utf8 (OutgoingMessage_json m)" by (simp add: m_def OutgoingMessage_json_def jslice_def jptr_def)
  obtain q body ms sets members where q: "requests (trace st') = [q]" "ReqBody q = Some body" "json_decode body = Inr (JObj ms)"
    "map_of ms ''Packages'' = Some (JArr sets)" "length sets = 1" "sets ! 0 = JObj members"
    and reads: "reads_set toy_pgp (swKey toy_writer) toy_keys ?adds members"
    using sent_packages_on_wire [OF toy_encrypt [unfolded toy_start_def] run toy_keys_distinct quiet parses m send valid] by auto
  from q(5,6) have sets: "sets = [JObj members]" by (cases sets) auto
  from reads obtain addrs where addrs: "map_of members ''Addresses'' = Some (JObj addrs)" "map_of members ''BodyKey'' \<noteq> None"
    and at: "\<And>addr. case map_of ?adds addr of
           None \<Rightarrow> map_of addrs addr = None
         | Some None \<Rightarrow> \<exists>sig. map_of addrs addr = Some (JObj [(''Type'', JInt 4), (''Signature'', JInt sig)])
         | Some (Some k) \<Rightarrow> \<exists>p. map_of addrs addr = Some (JObj p) \<and> reads_internal toy_pgp k (swKey toy_writer) toy_keys p"
    unfolding reads_set_def by auto
  from at [of "''bob''"] obtain p where "map_of addrs ''bob'' = Some (JObj p)" "reads_internal toy_pgp 4 (swKey toy_writer) toy_keys p" by auto
  with run send q(1-4) addrs(1,2) sets show ?thesis unfolding m_def by blast
qed

end
