(* ===== verification/Message_Types.thy ===== *)
theory Message_Types
  imports Messages
begin

text \<open>What the decoder delivers is of the Go types, and can be sent on: the contract of messages, applied.\<close>

text \<open>
  C40.  A decoded message is of its type: whatever JSON the server sends, when it decodes, all
  twelve numbers and the sizes of the attachments fit 64 bits and no attachment has a session
  key in the clear.  And a message that was received can be sent on as it is: whatever text it
  was read from, escapes and broken UTF-8 among it, the text that is written for it parses and
  decodes to the very same message.
\<close>

theorem decoded_Message_fits:
  assumes "dec_struct Message_fields j zero_Message = Inr m"
  shows "int64_Message m \<and> dec_struct Message_fields (Message_json m) zero_Message = Inr m \<and>
     (\<forall>body. json_decode body = Inr j \<longrightarrow>
        (\<exists>j'. json_decode (json_encode (Message_json m)) = Inr j' \<and> dec_struct Message_fields j' zero_Message = Inr m))"
proof -
  have "int64_Message m" by (rule message_codec.fit [OF assms message_codec.zero_fits])
  then show ?thesis using message_codec.reads message_codec.resend(3) [OF _ assms] by blast
qed

lemma decoded_Message_fits_witness:
  "\<exists>m j'. dec_struct Message_fields (JObj [(''Size'', JInt 7), (''Subject'', JStr ''hi'')]) zero_Message = Inr m \<and> int64_Message m \<and>
     json_decode (json_encode (Message_json m)) = Inr j' \<and> dec_struct Message_fields j' zero_Message = Inr m"
proof -
  let ?j = "JObj [(''Size'', JInt 7), (''Subject'', JStr ''hi'')]"
  have "dec_struct Message_fields ?j zero_Message = Inr (zero_Message\<lparr>mSize := 7, mSubject := ''hi''\<rparr>)"
    by (simp add: Message_find snd_field dec_int_JInt zero_Message_def)
  moreover have "json_decode (json_encode ?j) = Inr ?j" by (rule json_roundtrip(1)) simp_all
  ultimately show ?thesis using decoded_Message_fits by blast
qed

end
