(* ===== verification/Json_Fuel.thy ===== *)
theory Json_Fuel
  imports Json_Roundtrip
begin

text \<open>The fuel of the JSON parser is enough for every text: each part that is read is shorter than the text.\<close>

section \<open>The fuel of the parser\<close>

lemma skip_ws_length: "length (skip_ws s) \<le> length s"
  by (simp add: skip_ws_def length_dropWhile_le)

lemma parse_string_length: "parse_string s = Some (x, t) \<Longrightarrow> length t < length s"
proof (induction s arbitrary: x t rule: parse_string.induct)
  case (2 c cs)
  consider "c = quote_char" | e r where "c = backslash" "cs = e # r" | "c = backslash" "cs = []"
    | "c \<noteq> quote_char" "c \<noteq> backslash"
    by (cases cs) auto
  then show ?case
  proof cases
    case 2
    show ?thesis
    proof (cases "e = CHR ''u''")
      case True
      with 2 "2.prems" obtain u t' x' where "uescape r = Some (u, t')" "parse_string t' = Some (x', t)"
        by (auto split: option.splits)
      with 2 True "2.IH"(1) [of e r "(u, t')" u t' x' t] show ?thesis by (auto simp: json_chars dest: uescape_length)
    next
      case False
      with 2 "2.prems" obtain d x' where "simple_escape e = Some d" "parse_string r = Some (x', t)"
        by (auto split: option.splits)
      with 2 False "2.IH"(2) [of e r d x' t] show ?thesis by (simp add: json_chars)
    qed
  next
    case 4
    with "2.prems" "2.IH"(3,4) show ?thesis
      by (auto simp: parse_string.simps(2) Let_def simp del: take_Suc_Cons split: if_splits) fastforce+
  qed (use "2.prems" in \<open>auto simp: parse_string.simps(2) json_chars\<close>)
qed simp

text \<open>The parts of a number, cut off its text one after the other.\<close>

lemma parse_number_length:
  assumes "parse_number s = Some (x, t)"
  shows "length t < length s"
proof -
  obtain sg s1 where s1: "(if take 1 s = ''-'' then (''-'', drop 1 s) else ([], s)) = (sg, s1)" by fastforce
  define ds where "ds = (if take 1 (takeWhile is_digit s1) = ''0'' then ''0'' else takeWhile is_digit s1)"
  define s2 where "s2 = drop (length ds) s1"
  obtain fr s3 okf where s3: "(if take 1 s2 = ''.'' then
               (let f = takeWhile is_digit (drop 1 s2)
                in (CHR ''.'' # f, drop (Suc (length f)) s2, f \<noteq> []))
             else ([], s2, True)) = (fr, s3, okf)" by (rule prod_cases3)
  obtain ex s4 oke where s4: "(if take 1 s3 = ''e'' \<or> take 1 s3 = ''E'' then
               (let sx = (if take 1 (drop 1 s3) = ''+'' \<or> take 1 (drop 1 s3) = ''-''
                          then take 1 (drop 1 s3) else []);
                    x = takeWhile is_digit (drop (1 + length sx) s3)
                in (take 1 s3 @ sx @ x, drop (1 + length sx + length x) s3, x \<noteq> []))
             else ([], s3, True)) = (ex, s4, oke)" by (rule prod_cases3)
  have "(if ds \<noteq> [] \<and> okf \<and> oke then Some (sg @ ds @ fr @ ex, s4) else None) = Some (x, t)"
    using assms unfolding parse_number_def s1 Let_def prod.case ds_def [symmetric] s2_def [symmetric] s3 [unfolded Let_def]
      s4 [unfolded Let_def] by simp
  then have "ds \<noteq> []" "t = s4" by (auto split: if_splits)
  moreover from this(1) have "s1 \<noteq> []" by (auto simp: ds_def)
  then have "length s2 < length s1" using \<open>ds \<noteq> []\<close> by (simp add: s2_def)
  moreover have "length s1 \<le> length s" using s1 by (auto split: if_splits)
  moreover have "length s3 \<le> length s2" using s3 by (auto simp: Let_def split: if_splits)
  moreover have "length s4 \<le> length s3" using s4 by (auto simp: Let_def split: if_splits)
  ultimately show ?thesis by simp
qed

lemma parse_shrinks:
  "(\<forall>s v t. parse_value n s = Some (v, t) \<longrightarrow> length t < length s) \<and>
   (\<forall>s vs t. parse_elems n s = Some (vs, t) \<longrightarrow> length t < length s) \<and>
   (\<forall>s ms t. parse_members n s = Some (ms, t) \<longrightarrow> length t < length s)"
proof (induction n)
  case (Suc n)
  then have IH: "parse_value n s = Some (v, t) \<Longrightarrow> length t < length s"
      "parse_elems n s = Some (vs, t) \<Longrightarrow> length t < length s"
      "parse_members n s = Some (ms, t) \<Longrightarrow> length t < length s" for s v t vs ms
    by blast+
  have "length t < length s" if "parse_value (Suc n) s = Some (v, t)" for s v t
  proof -
    from that obtain c r where cr: "skip_ws s = c # r" by (auto split: list.splits)
    then have s: "length (c # r) \<le> length s" using skip_ws_length [of s] by simp
    have "length t < length (c # r)"
      using that cr skip_ws_length [of r]
      by (auto split: if_splits dest!: IH parse_string_length parse_number_length)
    with s show ?thesis by simp
  qed
  moreover have "length t < length s" if "parse_elems (Suc n) s = Some (vs, t)" for s vs t
  proof -
    from that obtain v u where v: "parse_value n s = Some (v, u)" by (auto split: option.splits)
    from IH(1) [OF v] skip_ws_length [of u] that v show ?thesis
      by (auto split: if_splits dest!: IH(2))
  qed
  moreover have "length t < length s" if "parse_members (Suc n) s = Some (ms, t)" for s ms t
  proof -
    from that obtain k u v w where k: "parse_string (drop 1 (skip_ws s)) = Some (k, u)"
      and v: "parse_value n (drop 1 (skip_ws u)) = Some (v, w)"
      by (auto split: option.splits if_splits)
    from parse_string_length [OF k] IH(1) [OF v] skip_ws_length [of s] skip_ws_length [of u] skip_ws_length [of w] that k v
    show ?thesis by (auto split: if_splits dest!: IH(3))
  qed
  ultimately show ?case by blast
qed simp

lemma fuel_enough:
  "(\<forall>s m. 2 * length s < n \<longrightarrow> n \<le> m \<longrightarrow> parse_value m s = parse_value n s) \<and>
   (\<forall>s m. Suc (2 * length s) < n \<longrightarrow> n \<le> m \<longrightarrow> parse_elems m s = parse_elems n s) \<and>
   (\<forall>s m. Suc (2 * length s) < n \<longrightarrow> n \<le> m \<longrightarrow> parse_members m s = parse_members n s)"
proof (induction n)
  case (Suc n)
  then have IH: "2 * length s < n \<Longrightarrow> n \<le> m \<Longrightarrow> parse_value m s = parse_value n s"
      "Suc (2 * length s) < n \<Longrightarrow> n \<le> m \<Longrightarrow> parse_elems m s = parse_elems n s"
      "Suc (2 * length s) < n \<Longrightarrow> n \<le> m \<Longrightarrow> parse_members m s = parse_members n s" for s m
    by blast+
  have "parse_value m s = parse_value (Suc n) s" if l: "2 * length s < Suc n" and m: "Suc n \<le> m" for s m
  proof -
    obtain m' where m': "m = Suc m'" "n \<le> m'" using m by (cases m) auto
    show ?thesis
    proof (cases "skip_ws s")
      case (Cons c r)
      then have "Suc (2 * length r) < n" using l skip_ws_length [of s] by simp
      then show ?thesis using IH(2,3) [of r m'] m' Cons by simp
    qed (simp add: m')
  qed
  moreover have "parse_elems m s = parse_elems (Suc n) s" if l: "Suc (2 * length s) < Suc n" and m: "Suc n \<le> m" for s m
  proof -
    obtain m' where m': "m = Suc m'" "n \<le> m'" using m by (cases m) auto
    have v: "parse_value m' s = parse_value n s" using l by (intro IH(1)) (use m' in auto)
    have "parse_elems m' (drop 1 (skip_ws t)) = parse_elems n (drop 1 (skip_ws t))"
      if "parse_value n s = Some (w, t)" "take 1 (skip_ws t) = '',''" for w t
    proof (rule IH(2) [OF _ m'(2)])
      have "length t < length s" using parse_shrinks that(1) by blast
      then show "Suc (2 * length (drop 1 (skip_ws t))) < n" using l that(2) skip_ws_length [of t] by (cases "skip_ws t") auto
    qed
    then show ?thesis unfolding m'(1) parse_elems.simps v by (cases "parse_value n s") (auto split: if_splits)
  qed
  moreover have "parse_members m s = parse_members (Suc n) s" if l: "Suc (2 * length s) < Suc n" and m: "Suc n \<le> m" for s m
  proof -
    obtain m' where m': "m = Suc m'" "n \<le> m'" using m by (cases m) auto
    have v: "parse_value m' (drop 1 (skip_ws t)) = parse_value n (drop 1 (skip_ws t))"
      "\<And>w u. parse_value n (drop 1 (skip_ws t)) = Some (w, u) \<Longrightarrow> take 1 (skip_ws u) = '','' \<Longrightarrow>
         parse_members m' (drop 1 (skip_ws u)) = parse_members n (drop 1 (skip_ws u))"
      if "parse_string (drop 1 (skip_ws s)) = Some (k, t)" for k t
    proof -
      have t: "length t < length s" using parse_string_length [OF that] skip_ws_length [of s] by simp
      show "parse_value m' (drop 1 (skip_ws t)) = parse_value n (drop 1 (skip_ws t))"
        by (rule IH(1) [OF _ m'(2)]) (use l t skip_ws_length [of t] in simp)
      show "parse_members m' (drop 1 (skip_ws u)) = parse_members n (drop 1 (skip_ws u))"
        if "parse_value n (drop 1 (skip_ws t)) = Some (w, u)" "take 1 (skip_ws u) = '',''" for w u
      proof (rule IH(3) [OF _ m'(2)])
        have "length u < length (drop 1 (skip_ws t))" using parse_shrinks that(1) by blast
        then show "Suc (2 * length (drop 1 (skip_ws u))) < n"
          using l t that(2) skip_ws_length [of t] skip_ws_length [of u] by (cases "skip_ws u") auto
      qed
    qed
    have rest: "(case parse_value m' (drop 1 (skip_ws t)) of None \<Rightarrow> None
           | Some (w, u) \<Rightarrow>
               (if take 1 (skip_ws u) = '','' then
                  map_option (\<lambda>(ms, x). ((k, w) # ms, x)) (parse_members m' (drop 1 (skip_ws u)))
                else if take 1 (skip_ws u) = ''}'' then Some ([(k, w)], drop 1 (skip_ws u))
                else None)) =
         (case parse_value n (drop 1 (skip_ws t)) of None \<Rightarrow> None
           | Some (w, u) \<Rightarrow>
               (if take 1 (skip_ws u) = '','' then
                  map_option (\<lambda>(ms, x). ((k, w) # ms, x)) (parse_members n (drop 1 (skip_ws u)))
                else if take 1 (skip_ws u) = ''}'' then Some ([(k, w)], drop 1 (skip_ws u))
                else None))"
      if "parse_string (drop 1 (skip_ws s)) = Some (k, t)" for k t
      unfolding v(1) [OF that] using v(2) [OF that]
      by (cases "parse_value n (drop 1 (skip_ws t))") (auto simp del: One_nat_def)
    show ?thesis
    proof (cases "parse_string (drop 1 (skip_ws s))")
      case None
      then show ?thesis unfolding m'(1) parse_members.simps by (simp only: option.case)
    next
      case (Some p)
      obtain k t where p: "p = (k, t)" by (cases p)
      show ?thesis unfolding m'(1) parse_members.simps Some p option.case prod.case rest [OF Some [unfolded p]] by (rule refl)
    qed
  qed
  ultimately show ?case by blast
qed simp

text \<open>Whatever the text, no more fuel would have given another result.\<close>

lemma json_fuel_enough: "json_fuel s \<le> n \<Longrightarrow> parse_value n s = parse_value (json_fuel s) s"
  by (rule fuel_enough [THEN conjunct1, rule_format]) (simp_all add: json_fuel_def)

end
