(* ===== verification/Spec2Isabelle.thy ===== *)
theory Spec2Isabelle
  imports Session_Scenarios Contact_Cards Read_Back Sending Message_Types Events Json_Fuel
begin

text \<open>
  A verification development of protonmail-go, a Go client library of the Proton API.  It models
  every source file of the library and proves what makes its parts correct; where the code does
  not do what it says, the theorem states what it does.

  The program.  A \<open>Client\<close> (protonmail.go) is configured by options (options.go) and holds the
  session: root URL, user id, access token, unlocked key ring, a re-authentication callback and a
  logger.  Every API call builds a request (\<open>newRequest\<close>, \<open>newJSONRequest\<close>), sends it with \<open>do\<close>,
  which on a 401 runs the callback and sends the request again, and decodes the answer with
  \<open>doJSON\<close>.  auth.go signs in by SRP (srp.go, password.go), refreshes tokens and unlocks the keys
  of the user and the addresses (keys.go, users.go, addresses.go).  On top of it are messages,
  attachments, contacts, labels, conversations, calendars and events, which encrypt and sign by
  go-crypto (crypto.go), and the importer (import.go), which streams a batch of messages.

  How Go is modelled (\<open>Go_Prelude\<close>).  A call is a program that passes a state and ends with a value,
  an error or a panic, or never returns (None).  A Go string is a list of 8-bit characters, a byte
  string a list of 8-bit words, int is an integer whose bounds are written where they matter, a
  pointer or slice that may be nil is an option, a map an association list or a function.  The
  standard library is defined as far as it is used: \<open>Go_Url\<close> and \<open>Go_Values\<close> (net/url),
  \<open>Go_Utf8\<close> (unicode/utf8), \<open>Go_Json\<close> (encoding/json, with \<open>Json_Roundtrip\<close> and \<open>Json_Fuel\<close>), \<open>Go_Bytes\<close>
  (base64, SHA-512, big numbers),
  \<open>Multipart\<close> (mime/multipart, io.Pipe, media types).  What is not part of the repository is an
  argument: go-crypto and go-bcrypt are the records of \<open>Openpgp\<close>, \<open>Crypto\<close> and
  \<open>Openpgp_Streams\<close>, the network, clock, random source and callback the record \<open>env\<close> of \<open>Transport\<close>.
  JSON is printed and parsed byte by byte: a byte that is part of no UTF-8 sequence becomes the
  replacement character both ways, so a value with such strings comes back as \<open>json_coerce\<close> of it,
  and what is sent arrives unchanged when its strings are valid (\<open>json_utf8\<close>), which
  all strings are that were read from JSON.

  The components, in the order of their imports.

  \<open>Errors\<close> (errors.go): sentinels, \<open>APIError\<close>, \<open>HTTPError\<close> and the walk of \<open>errors.Is\<close>, which is
  classified by status and envelope code.

  \<open>Client\<close> (options.go, \<open>NewClient\<close>): no options give a client that talks in the clear to a host
  that the code does not take for the loopback (which a name that folds to localhost is);
  \<open>NewClient\<close> refines a specification in which the first error, else the last
  setting of each kind counts.

  \<open>Transport\<close>, \<open>Retry\<close>, \<open>Replies\<close> (protonmail.go): requests, retries and answers.  The recursion
  of \<open>do\<close> has no bound, so it is a partial function: it is shown to return when the outside world
  runs out of 401 answers, and not to return with the suggested callback.  Sending uses the
  body up, as far as the transport reads it (\<open>Taken\<close>), so that a retry has to take it anew: it is the
  same request with its whole body; a stream is never sent twice; no response body leaks; what is
  logged of a call is a function of method, path, length of the body, status and API error.  The
  locale \<open>tidy_env\<close> is the contract of a callback.

  \<open>Random_Source\<close>, \<open>Password\<close>, \<open>Srp\<close> (password.go, srp.go): the hashes and the handshake, with
  agreement with an honest server and bounds of what is accepted.  The random reader is a lazy
  list that may end or deliver bytes for ever, the loops that draw secrets are partial functions
  on it, and the handshake is shown to return exactly when some block of the bytes decides it.

  \<open>Account\<close>, \<open>Auth\<close> (keys.go, users.go, addresses.go, auth.go): signing in, which stores the session
  only when the server's answer to the request just sent holds the proof that this handshake
  expects (\<open>verified_auth\<close>), refreshing, unlocking and logging out.  \<open>Scenarios\<close>
  holds concrete runs for the theorems up to here.

  \<open>Calls\<close>: the contract \<open>api_call\<close> of an API call, with one request, no panic, an unchanged client
  and no open body, which is interpreted for each endpoint in the theory that defines it;
  \<open>Endpoints\<close> collects them into a table of the interface.

  \<open>Json_Codec\<close>: the contract of a type that is both encoded and decoded, as the locales \<open>codec\<close> and
  \<open>struct_codec\<close>, with its extension to pointers and slices: what is written is read back, what is
  decoded is of its type, and what was received can be sent on.  Strings, integers, message
  addresses, attachments, messages and cards are its interpretations.

  \<open>Message_Data\<close>, \<open>Message_Types\<close>, \<open>Messages\<close> (messages.go): the data with its JSON, which decodes
  only to values of the Go types and is read back as written, listing, drafts, batches and
  sending.  A draft that was posted, and the cards of a contact (\<open>Contacts\<close>), are returned
  to any client by a server that keeps them.  \<open>Crypto\<close> (crypto.go): the choice of keys and the encrypting and signing writer.
  \<open>Packages\<close> (messages.go): the packages of an outgoing message; an invariant over all sequences
  of additions says which keys open the body and which stand in the clear.
  \<open>Openpgp_Streams\<close> (messages.go): \<open>Read\<close> and \<open>Encrypt\<close>.

  \<open>Listings\<close> (labels.go, conversations.go, calendar.go), \<open>Contacts\<close> and \<open>Contact_Cards\<close> (contacts.go): data
  and calls; cards that are encrypted and signed, and the reader that checks a signature at the
  end of the body.  \<open>Attachments\<close> (attachments.go): session keys, encryption, download and the
  upload, whose body is compared with a reference rendering of a form.  \<open>Events\<close> (events.go): the
  change stream and its patches.

  \<open>Importer\<close> (import.go): the caller, the goroutine of \<open>Import\<close> and the transport as a step relation
  over the state of the importer, with an invariant of all reachable states: each message is begun
  once, a committed import is complete, a waiting \<open>Commit\<close> returns.  \<open>Call_Scenarios\<close> holds concrete
  runs for the calls.

  \<open>Keeping\<close>, \<open>Sessions\<close>: the client as a whole.  The locale \<open>contract\<close> is what every operation
  relies on of the transport, with two providers: the locale \<open>kept\<close>, an invariant that each step of the
  transport keeps, and \<open>tidy_env\<close>, the books on response bodies.  A session is any sequence
  of the networked operations with any outcomes, and what holds of it is proved once in
  \<open>client_contract\<close>: all requests go below the root URL and never in the clear, only bodies that were
  handed out stay open, only tokens that the client was given are sent, those of \<open>Auth\<close> only when the
  server had earned it (\<open>earned\<close>), and none after \<open>Logout\<close>.
  \<open>Session_Scenarios\<close> holds concrete sessions.

  What arrives.  \<open>Form_Reader\<close> and \<open>Media_Reader\<close> are reference readers of multipart bodies and of the
  parameters of their headers, inverse to what \<open>Multipart\<close> writes whenever the boundary occurs in
  no part, and they accept no body that breaks off.  With them \<open>Read_Back\<close> says what a server
  finds in an upload and in a committed import, whose metadata it decodes to the messages of
  the caller.  \<open>Sending\<close> puts \<open>Packages\<close> and \<open>Messages\<close> together: which keys are under which names in the
  JSON that \<open>SendMessage\<close> posts, for any set of packages that the operations can make.

  Bounds and fuel.  Only the JSON parser has fuel: \<open>json_fuel\<close> is more than twice the length of the
  text, and \<open>Json_Fuel\<close> shows that no text gives another result with more.  Numbers are
  decoded into 64 bits or refused.  The randomness of OpenPGP (\<open>Crypto\<close>, \<open>Packages\<close>, \<open>Attachments\<close>),
  where every read is of a known size, is the finite string of bytes that the reader still delivers.

  Not modelled.  \<open>Timestamp.Time\<close>, which only converts, the limit of 10000 nested arrays and objects
  in JSON, the old elements of a slice that Go decodes into when a key of an object occurs
  twice (here every element starts from zero), the identity of an error that breaks off a response
  body (to its reader the body is a shorter one), contexts and cancellation (a cancelled call is an error of the network), data
  races between goroutines other than those of the importer, what a goroutine of \<open>Import\<close> does after
  \<open>Import\<close> itself failed, the order of a map except as an argument, redirects inside the HTTP
  client, and which runes beyond ASCII are printable, so that a quoted error text keeps them.  The
  type \<open>MessageKeyPacket\<close> is used nowhere.  doc.go is a comment, and the test files are not part of
  the library.
\<close>

end
